theory Spec2Isabelle
  imports Complex_Main
begin

section \<open>Errors and results\<close>

text \<open>
  Every exception the modelled code (or the tensor library under it) can raise is a value.
  A computation returns \<open>Inl\<close> of the error or \<open>Inr\<close> of its result.
\<close>

datatype error =
    ValueError string
  | IndexError
  | RuntimeError
  | TypeError

type_synonym 'a res = "error + 'a"

definition ebind :: "'a res \<Rightarrow> ('a \<Rightarrow> 'b res) \<Rightarrow> 'b res" where
  "ebind m f = (case m of Inl e \<Rightarrow> Inl e | Inr x \<Rightarrow> f x)"

fun sequence_res :: "'a res list \<Rightarrow> 'a list res" where
  "sequence_res [] = Inr []"
| "sequence_res (Inl e # rs) = Inl e"
| "sequence_res (Inr x # rs) = (case sequence_res rs of Inl e \<Rightarrow> Inl e | Inr xs \<Rightarrow> Inr (x # xs))"

section \<open>Dense tensors\<close>

text \<open>
  A tensor is its shape and its elements, read by multi-index. Scalars are real numbers:
  the development is over exact arithmetic. Only the elements at in-range indices are
  part of the tensor; \<open>indices\<close> enumerates them in row-major order.
\<close>

record tensor =
  shape :: "nat list"
  elem :: "nat list \<Rightarrow> real"

definition inb :: "nat list \<Rightarrow> nat list \<Rightarrow> bool" where
  "inb s idx = list_all2 (\<lambda>i d. i < d) idx s"

fun indices :: "nat list \<Rightarrow> nat list list" where
  "indices [] = [[]]"
| "indices (d # s) = concat (map (\<lambda>i. map (\<lambda>r. i # r) (indices s)) [0..<d])"

text \<open>A Python number, as the zero-dimensional tensor it broadcasts like.\<close>

definition scalar :: "real \<Rightarrow> tensor res" where
  "scalar c = Inr \<lparr>shape = [], elem = \<lambda>idx. c\<rparr>"

subsection \<open>Broadcasting\<close>

text \<open>
  Shapes are aligned at their last dimension; two dimensions are compatible when they are
  equal or one of them is 1. \<open>bcast_rev\<close> works on the reversed shapes.
\<close>

fun bcast_rev :: "nat list \<Rightarrow> nat list \<Rightarrow> nat list option" where
  "bcast_rev [] ys = Some ys"
| "bcast_rev (x # xs) [] = Some (x # xs)"
| "bcast_rev (x # xs) (y # ys) =
     (if x = y \<or> y = 1 then map_option (\<lambda>r. x # r) (bcast_rev xs ys)
      else if x = 1 then map_option (\<lambda>r. y # r) (bcast_rev xs ys)
      else None)"

definition broadcast_shapes :: "nat list \<Rightarrow> nat list \<Rightarrow> nat list option" where
  "broadcast_shapes s1 s2 = map_option rev (bcast_rev (rev s1) (rev s2))"

text \<open>
  The index into an operand of shape \<open>s\<close> that the result's index \<open>idx\<close> reads: the last
  \<open>length s\<close> components, with 0 where the operand's dimension is 1.
\<close>

definition bidx :: "nat list \<Rightarrow> nat list \<Rightarrow> nat list" where
  "bidx s idx = rev (map2 (\<lambda>d i. if d = 1 then 0 else i) (rev s) (rev idx))"

definition ew2 :: "(real \<Rightarrow> real \<Rightarrow> real) \<Rightarrow> tensor res \<Rightarrow> tensor res \<Rightarrow> tensor res" where
  "ew2 f ra rb =
     (case ra of Inl e \<Rightarrow> Inl e | Inr a \<Rightarrow>
      (case rb of Inl e \<Rightarrow> Inl e | Inr b \<Rightarrow>
       (case broadcast_shapes (shape a) (shape b) of
          None \<Rightarrow> Inl RuntimeError
        | Some s \<Rightarrow> Inr \<lparr>shape = s,
            elem = \<lambda>idx. f (elem a (bidx (shape a) idx)) (elem b (bidx (shape b) idx))\<rparr>)))"

definition tadd :: "tensor res \<Rightarrow> tensor res \<Rightarrow> tensor res" where
  "tadd = ew2 (\<lambda>x y. x + y)"

definition tsub :: "tensor res \<Rightarrow> tensor res \<Rightarrow> tensor res" where
  "tsub = ew2 (\<lambda>x y. x - y)"

definition tmul :: "tensor res \<Rightarrow> tensor res \<Rightarrow> tensor res" where
  "tmul = ew2 (\<lambda>x y. x * y)"

definition tdiv :: "tensor res \<Rightarrow> tensor res \<Rightarrow> tensor res" where
  "tdiv = ew2 (\<lambda>x y. x / y)"

subsection \<open>Indexing the trailing dimensions, stacking, transposing\<close>

text \<open>\<open>t[..., i]\<close> and \<open>t[..., i, j]\<close> for literal indices.\<close>

definition sel1 :: "tensor \<Rightarrow> nat \<Rightarrow> tensor res" where
  "sel1 t i =
     (if shape t = [] then Inl IndexError
      else if i < last (shape t)
        then Inr \<lparr>shape = butlast (shape t), elem = \<lambda>idx. elem t (idx @ [i])\<rparr>
      else Inl IndexError)"

definition sel2 :: "tensor \<Rightarrow> nat \<Rightarrow> nat \<Rightarrow> tensor res" where
  "sel2 t i j =
     (if length (shape t) < 2 then Inl IndexError
      else if i < last (butlast (shape t)) \<and> j < last (shape t)
        then Inr \<lparr>shape = butlast (butlast (shape t)), elem = \<lambda>idx. elem t (idx @ [i, j])\<rparr>
      else Inl IndexError)"

text \<open>
  \<open>torch.stack(ts, dim=-1)\<close>: the tensors are evaluated left to right, the list must not be
  empty and all shapes must be equal (stacking does not broadcast).
\<close>

definition stack_last :: "tensor res list \<Rightarrow> tensor res" where
  "stack_last rs =
     (case sequence_res rs of Inl e \<Rightarrow> Inl e | Inr ts \<Rightarrow>
      (case ts of [] \<Rightarrow> Inl RuntimeError | t # us \<Rightarrow>
        if list_all (\<lambda>u. shape u = shape t) us
        then Inr \<lparr>shape = shape t @ [length ts],
               elem = \<lambda>idx. if idx \<noteq> [] \<and> last idx < length ts
                            then elem (ts ! last idx) (butlast idx) else 0\<rparr>
        else Inl RuntimeError))"

text \<open>\<open>torch.stack(ts, dim=-2)\<close>: as above, and the tensors need a last dimension.\<close>

definition stack_rows :: "tensor res list \<Rightarrow> tensor res" where
  "stack_rows rs =
     (case sequence_res rs of Inl e \<Rightarrow> Inl e | Inr ts \<Rightarrow>
      (case ts of [] \<Rightarrow> Inl RuntimeError | t # us \<Rightarrow>
        if \<not> list_all (\<lambda>u. shape u = shape t) us then Inl RuntimeError
        else if shape t = [] then Inl IndexError
        else Inr \<lparr>shape = butlast (shape t) @ [length ts, last (shape t)],
               elem = \<lambda>idx. if 2 \<le> length idx \<and> last (butlast idx) < length ts
                            then elem (ts ! last (butlast idx)) (butlast (butlast idx) @ [last idx])
                            else 0\<rparr>))"

text \<open>\<open>t.transpose(-1, -2)\<close>.\<close>

definition transpose_last2 :: "tensor \<Rightarrow> tensor res" where
  "transpose_last2 t =
     (if length (shape t) < 2 then Inl IndexError
      else Inr \<lparr>shape = butlast (butlast (shape t)) @ [last (shape t), last (butlast (shape t))],
             elem = \<lambda>idx. elem t (butlast (butlast idx) @ [last idx, last (butlast idx)])\<rparr>)"

subsection \<open>Constructors and reshaping\<close>

text \<open>Row-major position of an index, and the index at a position.\<close>

definition ravel :: "nat list \<Rightarrow> nat list \<Rightarrow> nat" where
  "ravel s idx = foldl (\<lambda>acc (d, i). acc * d + i) 0 (zip s idx)"

primrec unravel_rev :: "nat list \<Rightarrow> nat \<Rightarrow> nat list" where
  "unravel_rev [] n = []"
| "unravel_rev (d # ds) n = (n mod d) # unravel_rev ds (n div d)"

definition unravel :: "nat list \<Rightarrow> nat \<Rightarrow> nat list" where
  "unravel s n = rev (unravel_rev (rev s) n)"

text \<open>
  \<open>t.view(s)\<close> and \<open>t.reshape(s)\<close> with an explicit target shape: the number of elements
  must agree, and the elements keep their row-major order.
\<close>

definition reshape :: "tensor \<Rightarrow> nat list \<Rightarrow> tensor res" where
  "reshape t s =
     (if prod_list (shape t) = prod_list s
      then Inr \<lparr>shape = s, elem = \<lambda>idx. elem t (unravel (shape t) (ravel s idx))\<rparr>
      else Inl RuntimeError)"

text \<open>
  \<open>t.expand(*sizes)\<close>: the sizes are aligned at the last dimension; \<open>-1\<close> keeps a
  dimension of the tensor and is refused for a new leading one; any other size must be the
  tensor's, or the tensor's dimension must be 1. \<open>expand_rev\<close> works on the reversed lists.
\<close>

fun expand_rev :: "nat list \<Rightarrow> int list \<Rightarrow> nat list option" where
  "expand_rev [] [] = Some []"
| "expand_rev [] (n # ns) = (if n < 0 then None else map_option (\<lambda>r. nat n # r) (expand_rev [] ns))"
| "expand_rev (d # ds) [] = None"
| "expand_rev (d # ds) (n # ns) =
     (if n = -1 \<or> n = int d then map_option (\<lambda>r. d # r) (expand_rev ds ns)
      else if 0 \<le> n \<and> d = 1 then map_option (\<lambda>r. nat n # r) (expand_rev ds ns)
      else None)"

definition expand :: "tensor \<Rightarrow> int list \<Rightarrow> tensor res" where
  "expand t sizes =
     (case expand_rev (rev (shape t)) (rev sizes) of
        None \<Rightarrow> Inl RuntimeError
      | Some r \<Rightarrow> Inr \<lparr>shape = rev r, elem = \<lambda>idx. elem t (bidx (shape t) idx)\<rparr>)"

definition eye :: "nat \<Rightarrow> tensor" where
  "eye n = \<lparr>shape = [n, n], elem = \<lambda>idx. if length idx = 2 \<and> hd idx = last idx then 1 else 0\<rparr>"

definition zeros :: "nat list \<Rightarrow> tensor" where
  "zeros s = \<lparr>shape = s, elem = \<lambda>idx. 0\<rparr>"

text \<open>
  \<open>torch.all(a == b)\<close>: the comparison broadcasts like any elementwise operation, and
  \<open>all\<close> of no elements is true.
\<close>

definition all_eq :: "tensor \<Rightarrow> tensor \<Rightarrow> bool res" where
  "all_eq a b =
     (case broadcast_shapes (shape a) (shape b) of
        None \<Rightarrow> Inl RuntimeError
      | Some s \<Rightarrow> Inr (list_all (\<lambda>idx. elem a (bidx (shape a) idx) = elem b (bidx (shape b) idx))
                         (indices s)))"

subsection \<open>Unsqueezing and indexing\<close>


text \<open>
  The entries of an index tuple that are modelled: an integer, a slice
  \<open>start:stop:step\<close> (each part optional) and \<open>None\<close> (a new dimension of size 1).
  Ellipsis and tensor-valued indices are not modelled. Integers count from the end when
  negative and must be in range; a slice needs a positive step and is clamped to the
  dimension, as Python clamps it.
\<close>

datatype index = IdxInt int | IdxSlice "int option" "int option" "int option" | IdxNone

definition slice_bound :: "int option \<Rightarrow> int \<Rightarrow> int \<Rightarrow> int" where
  "slice_bound b dflt d =
     (case b of None \<Rightarrow> dflt
      | Some v \<Rightarrow> if v < 0 then max (v + d) 0 else min v d)"

text \<open>
  \<open>index_walk\<close> reads the index tuple against the shape from the left and returns the
  shape of the result with the map from an index of the result to the index it reads.
\<close>

fun index_walk :: "index list \<Rightarrow> nat list \<Rightarrow> (nat list \<times> (nat list \<Rightarrow> nat list)) res" where
  "index_walk [] s = Inr (s, \<lambda>idx. idx)"
| "index_walk (IdxNone # is) s =
     ebind (index_walk is s) (\<lambda>(s', f). Inr (1 # s', \<lambda>idx. f (tl idx)))"
| "index_walk (IdxInt i # is) [] = Inl IndexError"
| "index_walk (IdxSlice a b c # is) [] = Inl IndexError"
| "index_walk (IdxInt i # is) (d # s) =
     (if i < - int d \<or> int d \<le> i then Inl IndexError
      else ebind (index_walk is s) (\<lambda>(s', f).
        Inr (s', \<lambda>idx. nat (if i < 0 then i + int d else i) # f idx)))"
| "index_walk (IdxSlice a b c # is) (d # s) =
     (let step = (case c of None \<Rightarrow> 1 | Some k \<Rightarrow> k) in
      if step \<le> 0 then Inl (ValueError ''step must be greater than zero'')
      else
        let start = slice_bound a 0 (int d);
            stop = slice_bound b (int d) (int d);
            n = (if start < stop then (stop - start + step - 1) div step else 0)
        in ebind (index_walk is s) (\<lambda>(s', f).
             Inr (nat n # s',
                  \<lambda>idx. case idx of [] \<Rightarrow> [] | i # r \<Rightarrow> (nat start + i * nat step) # f r)))"

definition tensor_getitem :: "tensor \<Rightarrow> index list \<Rightarrow> tensor res" where
  "tensor_getitem t ix =
     ebind (index_walk ix (shape t)) (\<lambda>(s', f).
       Inr \<lparr>shape = s', elem = \<lambda>idx. elem t (f idx)\<rparr>)"

subsection \<open>Unbinding, square roots, Python's sum and list indexing\<close>

text \<open>\<open>torch.unbind(t, dim=-1)\<close>: the slices \<open>t[..., k]\<close> for every \<open>k\<close> of the last dimension.\<close>

definition unbind_last :: "tensor \<Rightarrow> tensor list res" where
  "unbind_last t =
     (if shape t = [] then Inl IndexError
      else Inr (map (\<lambda>k. \<lparr>shape = butlast (shape t), elem = \<lambda>idx. elem t (idx @ [k])\<rparr>)
                    [0..<last (shape t)]))"

definition torch_sqrt :: "tensor res \<Rightarrow> tensor res" where
  "torch_sqrt rt =
     (case rt of Inl e \<Rightarrow> Inl e
      | Inr t \<Rightarrow> Inr \<lparr>shape = shape t, elem = \<lambda>idx. sqrt (elem t idx)\<rparr>)"

text \<open>Python's \<open>sum\<close> starts from the number 0 and adds from the left.\<close>

definition py_sum :: "tensor res list \<Rightarrow> tensor res" where
  "py_sum xs = foldl tadd (scalar 0) xs"

text \<open>\<open>xs[k]\<close> on a Python list, for a literal index \<open>k \<ge> 0\<close>.\<close>

definition list_get :: "tensor list \<Rightarrow> nat \<Rightarrow> tensor res" where
  "list_get xs k = (if k < length xs then Inr (xs ! k) else Inl IndexError)"

subsection \<open>Negation, squares and assignment to a trailing entry\<close>

definition tneg :: "tensor res \<Rightarrow> tensor res" where
  "tneg rt =
     (case rt of Inl e \<Rightarrow> Inl e
      | Inr t \<Rightarrow> Inr \<lparr>shape = shape t, elem = \<lambda>idx. - elem t idx\<rparr>)"

text \<open>\<open>t ** 2\<close>.\<close>

definition tsquare :: "tensor res \<Rightarrow> tensor res" where
  "tsquare rt =
     (case rt of Inl e \<Rightarrow> Inl e
      | Inr t \<Rightarrow> Inr \<lparr>shape = shape t, elem = \<lambda>idx. (elem t idx)\<^sup>2\<rparr>)"

text \<open>
  \<open>t[..., i, j] = v\<close>, returning the updated tensor. The value is evaluated first and
  must broadcast to the shape of \<open>t[..., i, j]\<close>.
\<close>

definition set2 :: "tensor \<Rightarrow> nat \<Rightarrow> nat \<Rightarrow> tensor res \<Rightarrow> tensor res" where
  "set2 t i j rv =
     (case rv of Inl e \<Rightarrow> Inl e | Inr v \<Rightarrow>
      if length (shape t) < 2 then Inl IndexError
      else if \<not> (i < last (butlast (shape t)) \<and> j < last (shape t)) then Inl IndexError
      else if broadcast_shapes (shape v) (butlast (butlast (shape t)))
                \<noteq> Some (butlast (butlast (shape t))) then Inl RuntimeError
      else Inr \<lparr>shape = shape t,
             elem = \<lambda>idx. if 2 \<le> length idx \<and> last (butlast idx) = i \<and> last idx = j
                          then elem v (bidx (shape v) (butlast (butlast idx)))
                          else elem t idx\<rparr>)"

section \<open>affine.py: products of rotations and vectors\<close>

text \<open>
  \<open>rot_matmul\<close> and \<open>rot_vec_mul\<close> are written out entry by entry in the source; so are they
  here. \<open>ebind\<close> sequences the statements of a function body.
\<close>

definition rot_matmul :: "tensor \<Rightarrow> tensor \<Rightarrow> tensor res" where
  "rot_matmul a b =
     ebind (stack_last
            [tadd (tadd (tmul (sel2 a 0 0) (sel2 b 0 0)) (tmul (sel2 a 0 1) (sel2 b 1 0)))
                  (tmul (sel2 a 0 2) (sel2 b 2 0)),
             tadd (tadd (tmul (sel2 a 0 0) (sel2 b 0 1)) (tmul (sel2 a 0 1) (sel2 b 1 1)))
                  (tmul (sel2 a 0 2) (sel2 b 2 1)),
             tadd (tadd (tmul (sel2 a 0 0) (sel2 b 0 2)) (tmul (sel2 a 0 1) (sel2 b 1 2)))
                  (tmul (sel2 a 0 2) (sel2 b 2 2))]) (\<lambda>row_1.
     ebind (stack_last
            [tadd (tadd (tmul (sel2 a 1 0) (sel2 b 0 0)) (tmul (sel2 a 1 1) (sel2 b 1 0)))
                  (tmul (sel2 a 1 2) (sel2 b 2 0)),
             tadd (tadd (tmul (sel2 a 1 0) (sel2 b 0 1)) (tmul (sel2 a 1 1) (sel2 b 1 1)))
                  (tmul (sel2 a 1 2) (sel2 b 2 1)),
             tadd (tadd (tmul (sel2 a 1 0) (sel2 b 0 2)) (tmul (sel2 a 1 1) (sel2 b 1 2)))
                  (tmul (sel2 a 1 2) (sel2 b 2 2))]) (\<lambda>row_2.
     ebind (stack_last
            [tadd (tadd (tmul (sel2 a 2 0) (sel2 b 0 0)) (tmul (sel2 a 2 1) (sel2 b 1 0)))
                  (tmul (sel2 a 2 2) (sel2 b 2 0)),
             tadd (tadd (tmul (sel2 a 2 0) (sel2 b 0 1)) (tmul (sel2 a 2 1) (sel2 b 1 1)))
                  (tmul (sel2 a 2 2) (sel2 b 2 1)),
             tadd (tadd (tmul (sel2 a 2 0) (sel2 b 0 2)) (tmul (sel2 a 2 1) (sel2 b 1 2)))
                  (tmul (sel2 a 2 2) (sel2 b 2 2))]) (\<lambda>row_3.
     stack_rows [Inr row_1, Inr row_2, Inr row_3])))"

definition rot_vec_mul :: "tensor \<Rightarrow> tensor \<Rightarrow> tensor res" where
  "rot_vec_mul r t =
     ebind (sel1 t 0) (\<lambda>x.
     ebind (sel1 t 1) (\<lambda>y.
     ebind (sel1 t 2) (\<lambda>z.
     stack_last
       [tadd (tadd (tmul (sel2 r 0 0) (Inr x)) (tmul (sel2 r 0 1) (Inr y))) (tmul (sel2 r 0 2) (Inr z)),
        tadd (tadd (tmul (sel2 r 1 0) (Inr x)) (tmul (sel2 r 1 1) (Inr y))) (tmul (sel2 r 1 2) (Inr z)),
        tadd (tadd (tmul (sel2 r 2 0) (Inr x)) (tmul (sel2 r 2 1) (Inr y))) (tmul (sel2 r 2 2) (Inr z))])))"

section \<open>affine.py: class T\<close>

text \<open>
  A transformation holds a \<open>[*, 3, 3]\<close> rotation and a \<open>[*, 3]\<close> translation. Element types,
  devices and gradient flags are not modelled.
\<close>

record T =
  rots :: tensor
  transl :: tensor

text \<open>\<open>identity_rot\<close> and \<open>identity_trans\<close> are the static methods \<open>_identity_rot\<close>, \<open>_identity_trans\<close>.\<close>

definition identity_rot :: "nat list \<Rightarrow> tensor res" where
  "identity_rot shp =
     ebind (reshape (eye 3) (replicate (length shp) 1 @ [3, 3])) (\<lambda>rots.
     expand rots (map int shp @ [-1, -1]))"

definition identity_trans :: "nat list \<Rightarrow> tensor res" where
  "identity_trans shp = Inr (zeros (shp @ [3]))"

text \<open>
  \<open>T.__init__\<close>. The shape test is an \<open>or\<close> of three comparisons evaluated in order;
  \<open>self.trans.shape[-1]\<close> indexes the shape tuple, which raises IndexError for a
  zero-dimensional translation once the rotation has passed the first comparison.
\<close>

definition T_init :: "tensor option \<Rightarrow> tensor option \<Rightarrow> T res" where
  "T_init rots0 trans0 =
     ebind (case (rots0, trans0) of
              (None, None) \<Rightarrow> Inl (ValueError ''Only one of rots and trans can be None'')
            | (None, Some tr) \<Rightarrow>
                ebind (identity_rot (butlast (shape tr))) (\<lambda>r. Inr \<lparr>rots = r, transl = tr\<rparr>)
            | (Some r, None) \<Rightarrow>
                ebind (identity_trans (butlast (butlast (shape r)))) (\<lambda>tr. Inr \<lparr>rots = r, transl = tr\<rparr>)
            | (Some r, Some tr) \<Rightarrow> Inr \<lparr>rots = r, transl = tr\<rparr>) (\<lambda>self.
     if drop (length (shape (rots self)) - 2) (shape (rots self)) \<noteq> [3, 3]
       then Inl (ValueError ''Incorrectly shaped input'')
     else if shape (transl self) = [] then Inl IndexError
     else if last (shape (transl self)) \<noteq> 3
           \<or> butlast (butlast (shape (rots self))) \<noteq> butlast (shape (transl self))
       then Inl (ValueError ''Incorrectly shaped input'')
     else Inr self)"

text \<open>The property \<open>shape\<close>.\<close>

definition T_shape :: "T \<Rightarrow> nat list" where
  "T_shape self =
     (let s = butlast (butlast (shape (rots self))) in if length s > 0 then s else [1])"

definition T_eq :: "T \<Rightarrow> T \<Rightarrow> bool res" where
  "T_eq self obj =
     ebind (all_eq (rots self) (rots obj)) (\<lambda>r.
     if r then all_eq (transl self) (transl obj) else Inr False)"

definition T_compose :: "T \<Rightarrow> T \<Rightarrow> T res" where
  "T_compose self t =
     (let rot_1 = rots self; trn_1 = transl self; rot_2 = rots t; trn_2 = transl t in
      ebind (rot_matmul rot_1 rot_2) (\<lambda>rot.
      ebind (tadd (rot_vec_mul rot_1 trn_2) (Inr trn_1)) (\<lambda>trn.
      T_init (Some rot) (Some trn))))"

definition T_add :: "T \<Rightarrow> T \<Rightarrow> T res" where
  "T_add self t =
     (let rot_1 = rots self; trn_1 = transl self; rot_2 = rots t; trn_2 = transl t in
      ebind (rot_matmul rot_1 rot_2) (\<lambda>rot.
      ebind (tadd (Inr trn_2) (Inr trn_1)) (\<lambda>trn.
      T_init (Some rot) (Some trn))))"

definition T_apply :: "T \<Rightarrow> tensor \<Rightarrow> tensor res" where
  "T_apply self pts =
     (let r = rots self; t = transl self in
      ebind (rot_vec_mul r pts) (\<lambda>rotated.
      tadd (Inr rotated) (Inr t)))"

definition T_invert_apply :: "T \<Rightarrow> tensor \<Rightarrow> tensor res" where
  "T_invert_apply self pts0 =
     (let r = rots self; t = transl self in
      ebind (tsub (Inr pts0) (Inr t)) (\<lambda>pts.
      ebind (transpose_last2 r) (\<lambda>rT.
      rot_vec_mul rT pts)))"

definition T_invert :: "T \<Rightarrow> T res" where
  "T_invert self =
     ebind (transpose_last2 (rots self)) (\<lambda>rot_inv.
     ebind (rot_vec_mul rot_inv (transl self)) (\<lambda>trn_inv.
     ebind (tmul (scalar (-1)) (Inr trn_inv)) (\<lambda>neg.
     T_init (Some rot_inv) (Some neg))))"

definition T_identity :: "nat list \<Rightarrow> T res" where
  "T_identity shp =
     ebind (identity_rot shp) (\<lambda>r.
     ebind (identity_trans shp) (\<lambda>tr.
     T_init (Some r) (Some tr)))"

text \<open>
  \<open>T.__getitem__\<close>. A single index is wrapped into a tuple by the caller of the model:
  the index is always a list.
\<close>

definition T_getitem :: "T \<Rightarrow> index list \<Rightarrow> T res" where
  "T_getitem self ix =
     ebind (tensor_getitem (rots self) (ix @ [IdxSlice None None None, IdxSlice None None None])) (\<lambda>r.
     ebind (tensor_getitem (transl self) (ix @ [IdxSlice None None None])) (\<lambda>tr.
     T_init (Some r) (Some tr)))"


text \<open>
  \<open>T.from_3_points\<close>. The coordinates are unbound into lists and combined with \<open>zip\<close>,
  which stops at the shorter list. The sum of an empty list is the Python number 0, and
  \<open>torch.sqrt\<close> of a Python number raises TypeError: that is the branch for an empty
  list at each \<open>denom\<close>.
\<close>

definition from_3_points :: "tensor \<Rightarrow> tensor \<Rightarrow> tensor \<Rightarrow> real \<Rightarrow> T res" where
  "from_3_points p_neg_x_axis0 origin0 p_xy_plane0 eps =
     ebind (unbind_last p_neg_x_axis0) (\<lambda>p_neg_x_axis.
     ebind (unbind_last origin0) (\<lambda>origin.
     ebind (unbind_last p_xy_plane0) (\<lambda>p_xy_plane.
     ebind (sequence_res (map2 (\<lambda>c1 c2. tsub (Inr c1) (Inr c2)) origin p_neg_x_axis)) (\<lambda>e0a.
     ebind (sequence_res (map2 (\<lambda>c1 c2. tsub (Inr c1) (Inr c2)) p_xy_plane origin)) (\<lambda>e1a.
     ebind (if e0a = [] then Inl TypeError
            else torch_sqrt (tadd (py_sum (map (\<lambda>c. tmul (Inr c) (Inr c)) e0a)) (scalar eps))) (\<lambda>denom0.
     ebind (sequence_res (map (\<lambda>c. tdiv (Inr c) (Inr denom0)) e0a)) (\<lambda>e0.
     ebind (py_sum (map2 (\<lambda>c1 c2. tmul (Inr c1) (Inr c2)) e0 e1a)) (\<lambda>dot.
     ebind (sequence_res (map2 (\<lambda>c1 c2. tsub (Inr c2) (tmul (Inr c1) (Inr dot))) e0 e1a)) (\<lambda>e1b.
     ebind (if e1b = [] then Inl TypeError
            else torch_sqrt (tadd (py_sum (map (\<lambda>c. tmul (Inr c) (Inr c)) e1b)) (scalar eps))) (\<lambda>denom1.
     ebind (sequence_res (map (\<lambda>c. tdiv (Inr c) (Inr denom1)) e1b)) (\<lambda>e1.
     ebind (sequence_res
              [tsub (tmul (list_get e0 1) (list_get e1 2)) (tmul (list_get e0 2) (list_get e1 1)),
               tsub (tmul (list_get e0 2) (list_get e1 0)) (tmul (list_get e0 0) (list_get e1 2)),
               tsub (tmul (list_get e0 0) (list_get e1 1)) (tmul (list_get e0 1) (list_get e1 0))]) (\<lambda>e2.
     ebind (stack_last (map Inr (concat (map (\<lambda>(a, b, c). [a, b, c]) (zip e0 (zip e1 e2)))))) (\<lambda>rots0.
     ebind (reshape rots0 (butlast (shape rots0) @ [3, 3])) (\<lambda>rots1.
     ebind (stack_last (map Inr origin)) (\<lambda>tr.
     T_init (Some rots1) (Some tr))))))))))))))))"

text \<open>
  \<open>T.make_transform_from_reference\<close>. Each assignment to an entry of \<open>c1_rots\<close>,
  \<open>c2_rots\<close> or \<open>n_rots\<close> gives the next value of that tensor (\<open>c1_rots_a\<close>, \<open>c1_rots_b\<close>,
  ...). As in the source, the two assignments after \<open>c2_rots[..., 1, 1] = 1\<close> write to
  \<open>c1_rots\<close>. The unused \<open>zeros\<close> and \<open>ones\<close> are left out.
\<close>

definition make_transform_from_reference :: "tensor \<Rightarrow> tensor \<Rightarrow> tensor \<Rightarrow> real \<Rightarrow> T res" where
  "make_transform_from_reference n_xyz0 ca_xyz c_xyz0 eps =
     ebind (tmul (scalar (- 1)) (Inr ca_xyz)) (\<lambda>translation.
     ebind (tadd (Inr n_xyz0) (Inr translation)) (\<lambda>n_xyz1.
     ebind (tadd (Inr c_xyz0) (Inr translation)) (\<lambda>c_xyz.
     ebind (sel1 c_xyz 0) (\<lambda>c_x.
     ebind (sel1 c_xyz 1) (\<lambda>c_y.
     ebind (sel1 c_xyz 2) (\<lambda>c_z.
     ebind (torch_sqrt (tadd (tadd (scalar eps) (tsquare (Inr c_x))) (tsquare (Inr c_y)))) (\<lambda>norm1.
     ebind (tdiv (tneg (Inr c_y)) (Inr norm1)) (\<lambda>sin_c1.
     ebind (tdiv (Inr c_x) (Inr norm1)) (\<lambda>cos_c1.
     ebind (set2 (zeros (shape sin_c1 @ [3, 3])) 0 0 (Inr cos_c1)) (\<lambda>c1_rots_a.
     ebind (set2 c1_rots_a 0 1 (tmul (scalar (- 1)) (Inr sin_c1))) (\<lambda>c1_rots_b.
     ebind (set2 c1_rots_b 1 0 (Inr sin_c1)) (\<lambda>c1_rots_c.
     ebind (set2 c1_rots_c 1 1 (Inr cos_c1)) (\<lambda>c1_rots_d.
     ebind (set2 c1_rots_d 2 2 (scalar 1)) (\<lambda>c1_rots_e.
     ebind (torch_sqrt (tadd (tadd (tadd (scalar eps) (tsquare (Inr c_x))) (tsquare (Inr c_y)))
                             (tsquare (Inr c_z)))) (\<lambda>norm2.
     ebind (tdiv (Inr c_z) (Inr norm2)) (\<lambda>sin_c2.
     ebind (tdiv (torch_sqrt (tadd (tsquare (Inr c_x)) (tsquare (Inr c_y)))) (Inr norm2)) (\<lambda>cos_c2.
     ebind (set2 (zeros (shape sin_c2 @ [3, 3])) 0 0 (Inr cos_c2)) (\<lambda>c2_rots_a.
     ebind (set2 c2_rots_a 0 2 (Inr sin_c2)) (\<lambda>c2_rots_b.
     ebind (set2 c2_rots_b 1 1 (scalar 1)) (\<lambda>c2_rots.
     ebind (set2 c1_rots_e 2 0 (tmul (scalar (- 1)) (Inr sin_c2))) (\<lambda>c1_rots_f.
     ebind (set2 c1_rots_f 2 2 (Inr cos_c2)) (\<lambda>c1_rots.
     ebind (rot_matmul c2_rots c1_rots) (\<lambda>c_rots.
     ebind (rot_vec_mul c_rots n_xyz1) (\<lambda>n_xyz.
     ebind (sel1 n_xyz 0) (\<lambda>n_x.
     ebind (sel1 n_xyz 1) (\<lambda>n_y.
     ebind (sel1 n_xyz 2) (\<lambda>n_z.
     ebind (torch_sqrt (tadd (tadd (scalar eps) (tsquare (Inr n_y))) (tsquare (Inr n_z)))) (\<lambda>norm3.
     ebind (tdiv (tneg (Inr n_z)) (Inr norm3)) (\<lambda>sin_n.
     ebind (tdiv (Inr n_y) (Inr norm3)) (\<lambda>cos_n.
     ebind (set2 (zeros (shape sin_c2 @ [3, 3])) 0 0 (scalar 1)) (\<lambda>n_rots_a.
     ebind (set2 n_rots_a 1 1 (Inr cos_n)) (\<lambda>n_rots_b.
     ebind (set2 n_rots_b 1 2 (tmul (scalar (- 1)) (Inr sin_n))) (\<lambda>n_rots_c.
     ebind (set2 n_rots_c 2 1 (Inr sin_n)) (\<lambda>n_rots_d.
     ebind (set2 n_rots_d 2 2 (Inr cos_n)) (\<lambda>n_rots.
     ebind (rot_matmul n_rots c_rots) (\<lambda>rots0.
     ebind (transpose_last2 rots0) (\<lambda>rots1.
     ebind (tmul (scalar (- 1)) (Inr translation)) (\<lambda>translation1.
     T_init (Some rots1) (Some translation1)))))))))))))))))))))))))))))))))))))))"

section \<open>affine.py: quaternions and axis-angle vectors\<close>

text \<open>
  In the source these conversions stand inside a module-level string literal (the text
  from \<open>_quat_elements\<close> to \<open>modify_conformer\<close>), so the module does not define them; the
  model follows their text. Both functions work on the last dimension, independently for
  every batch entry, and are modelled for one entry: an axis-angle vector is a triple, a
  quaternion a quadruple with the real part first. The masked assignments to
  \<open>sin_half_angles_over_angles\<close> become one conditional, \<open>eps = 1e-6\<close> is the rational
  number, and \<open>atan2\<close> is the two-argument arctangent of the mathematics library.
\<close>

type_synonym vec3 = "real \<times> real \<times> real"



text \<open>\<open>torch.norm(v, p=2, dim=-1)\<close> of a triple.\<close>

definition norm3 :: "vec3 \<Rightarrow> real" where
  "norm3 v = (case v of (x, y, z) \<Rightarrow> sqrt (x * x + y * y + z * z))"




section \<open>Vocabulary of the statements\<close>

text \<open>
  A well-formed transformation is one that passes the constructor's test: for some batch
  shape \<open>bs\<close> the rotation has shape \<open>bs @ [3, 3]\<close> and the translation \<open>bs @ [3]\<close>.
  \<open>batch\<close> is that shared shape. \<open>dot3\<close> is the three-term sum of products that the
  specification writes as a matrix or matrix-vector product.
\<close>

definition batch :: "T \<Rightarrow> nat list" where
  "batch t = butlast (shape (transl t))"

definition wf_T :: "T \<Rightarrow> bool" where
  "wf_T t \<longleftrightarrow> shape (rots t) = batch t @ [3, 3] \<and> shape (transl t) = batch t @ [3]"

definition dot3 :: "(nat \<Rightarrow> real) \<Rightarrow> (nat \<Rightarrow> real) \<Rightarrow> real" where
  "dot3 f g = f 0 * g 0 + f 1 * g 1 + f 2 * g 2"

text \<open>
  The rotation at batch index \<open>b\<close> is orthonormal: the columns of the matrix have unit
  length and are pairwise orthogonal (the transpose times the matrix is the identity).
\<close>

definition orthonormal_at :: "tensor \<Rightarrow> nat list \<Rightarrow> bool" where
  "orthonormal_at r b =
     list_all (\<lambda>i. list_all (\<lambda>j.
        dot3 (\<lambda>k. elem r (b @ [k, i])) (\<lambda>k. elem r (b @ [k, j])) = (if i = j then 1 else 0))
        [0, 1, 2]) [0, 1, 2]"

text \<open>
  The frame of the specification, for one triple of points given as functions from the
  coordinate \<open>0, 1, 2\<close>: the first basis vector is \<open>origin - p_neg_x_axis\<close> normalised, the
  second is \<open>p_xy_plane - origin\<close> made orthogonal to the first and normalised, the third is
  their cross product. Each normalisation divides by the square root of the squared
  length plus \<open>eps\<close>.
\<close>

definition vec :: "tensor \<Rightarrow> nat list \<Rightarrow> nat \<Rightarrow> real" where
  "vec t b = (\<lambda>k. elem t (b @ [k]))"

definition normalize_eps :: "(nat \<Rightarrow> real) \<Rightarrow> real \<Rightarrow> nat \<Rightarrow> real" where
  "normalize_eps v eps = (\<lambda>i. v i / sqrt (dot3 v v + eps))"

definition cross3 :: "(nat \<Rightarrow> real) \<Rightarrow> (nat \<Rightarrow> real) \<Rightarrow> nat \<Rightarrow> real" where
  "cross3 a b = (\<lambda>i. if i = 0 then a 1 * b 2 - a 2 * b 1
                     else if i = 1 then a 2 * b 0 - a 0 * b 2
                     else a 0 * b 1 - a 1 * b 0)"

definition frame_e0 :: "(nat \<Rightarrow> real) \<Rightarrow> (nat \<Rightarrow> real) \<Rightarrow> real \<Rightarrow> nat \<Rightarrow> real" where
  "frame_e0 x orig eps = normalize_eps (\<lambda>i. orig i - x i) eps"

definition frame_e1 ::
  "(nat \<Rightarrow> real) \<Rightarrow> (nat \<Rightarrow> real) \<Rightarrow> (nat \<Rightarrow> real) \<Rightarrow> real \<Rightarrow> nat \<Rightarrow> real" where
  "frame_e1 x orig p eps =
     (let e0 = frame_e0 x orig eps; u = (\<lambda>i. p i - orig i)
      in normalize_eps (\<lambda>i. u i - e0 i * dot3 e0 u) eps)"

definition frame_e2 ::
  "(nat \<Rightarrow> real) \<Rightarrow> (nat \<Rightarrow> real) \<Rightarrow> (nat \<Rightarrow> real) \<Rightarrow> real \<Rightarrow> nat \<Rightarrow> real" where
  "frame_e2 x orig p eps = cross3 (frame_e0 x orig eps) (frame_e1 x orig p eps)"

text \<open>
  \<open>tensor_is t s g\<close>: the tensor has shape \<open>s\<close> and its in-range elements are given by \<open>g\<close>.
  \<open>vec_is ts s g\<close>: a list of three such tensors, the coordinates of a field of 3-vectors.
\<close>

definition tensor_is :: "tensor \<Rightarrow> nat list \<Rightarrow> (nat list \<Rightarrow> real) \<Rightarrow> bool" where
  "tensor_is t s g \<longleftrightarrow> shape t = s \<and> (\<forall>idx. inb s idx \<longrightarrow> elem t idx = g idx)"

definition vec_is :: "tensor list \<Rightarrow> nat list \<Rightarrow> (nat list \<Rightarrow> nat \<Rightarrow> real) \<Rightarrow> bool" where
  "vec_is ts s g \<longleftrightarrow>
     (\<exists>a b c. ts = [a, b, c] \<and> tensor_is a s (\<lambda>idx. g idx 0) \<and>
        tensor_is b s (\<lambda>idx. g idx 1) \<and> tensor_is c s (\<lambda>idx. g idx 2))"

text \<open>The determinant of the 3 by 3 matrix at batch index \<open>b\<close>.\<close>

definition det3_at :: "tensor \<Rightarrow> nat list \<Rightarrow> real" where
  "det3_at r b =
     elem r (b @ [0, 0]) * (elem r (b @ [1, 1]) * elem r (b @ [2, 2]) - elem r (b @ [1, 2]) * elem r (b @ [2, 1]))
     - elem r (b @ [0, 1]) * (elem r (b @ [1, 0]) * elem r (b @ [2, 2]) - elem r (b @ [1, 2]) * elem r (b @ [2, 0]))
     + elem r (b @ [0, 2]) * (elem r (b @ [1, 0]) * elem r (b @ [2, 1]) - elem r (b @ [1, 1]) * elem r (b @ [2, 0]))"

text \<open>\<open>ok rt s\<close>: the computation returns a tensor, of shape \<open>s\<close>.\<close>

definition ok :: "tensor res \<Rightarrow> nat list \<Rightarrow> bool" where
  "ok rt s \<longleftrightarrow> (\<exists>t. rt = Inr t \<and> shape t = s)"

text \<open>The positions that in-range integer indices \<open>js\<close> select in the dimensions \<open>bs\<close>.\<close>

definition int_pos :: "int list \<Rightarrow> nat list \<Rightarrow> nat list" where
  "int_pos js bs = map2 (\<lambda>i d. nat (if i < 0 then i + int d else i)) js bs"


text \<open>A tensor given by its shape and its elements in row-major order, for concrete inputs.\<close>

definition tensor_of :: "nat list \<Rightarrow> real list \<Rightarrow> tensor" where
  "tensor_of s xs =
     \<lparr>shape = s, elem = \<lambda>idx. if inb s idx \<and> ravel s idx < length xs then xs ! ravel s idx else 0\<rparr>"

text \<open>
  Two transformations of batch shape \<open>[2]\<close>: quarter turns about the z and the x axis with
  translation \<open>(1, 2, 3)\<close>, and the identity rotation with translations \<open>(4, 5, 6)\<close> and
  \<open>(0, 0, 7)\<close>.
\<close>

definition turns :: T where
  "turns = \<lparr>rots = tensor_of [2, 3, 3] [0, -1, 0,  1, 0, 0,  0, 0, 1,
                                         1, 0, 0,  0, 0, -1,  0, 1, 0],
            transl = tensor_of [2, 3] [1, 2, 3,  1, 2, 3]\<rparr>"

definition shifts :: T where
  "shifts = \<lparr>rots = tensor_of [2, 3, 3] [1, 0, 0,  0, 1, 0,  0, 0, 1,
                                          1, 0, 0,  0, 1, 0,  0, 0, 1],
             transl = tensor_of [2, 3] [4, 5, 6,  0, 0, 7]\<rparr>"

text \<open>Two points, one for each batch entry: \<open>(1, 0, 0)\<close> and \<open>(0, 1, 0)\<close>.\<close>

definition pts2 :: tensor where
  "pts2 = tensor_of [2, 3] [1, 0, 0,  0, 1, 0]"

text \<open>An unbatched transformation: a quarter turn about the z axis, translation \<open>(1, 2, 3)\<close>.\<close>

definition lone :: T where
  "lone = \<lparr>rots = tensor_of [3, 3] [0, -1, 0,  1, 0, 0,  0, 0, 1],
           transl = tensor_of [3] [1, 2, 3]\<rparr>"

text \<open>The transformation of the docstring of \<open>__getitem__\<close>, of batch shape \<open>[10, 10]\<close>.\<close>

definition grid :: T where
  "grid = \<lparr>rots = \<lparr>shape = [10, 10, 3, 3], elem = \<lambda>idx. real (ravel [10, 10, 3, 3] idx)\<rparr>,
           transl = \<lparr>shape = [10, 10, 3], elem = \<lambda>idx. real (ravel [10, 10, 3] idx)\<rparr>\<rparr>"

text \<open>
  The points of the specification's example, \<open>A = (1, 0, 0)\<close>, \<open>B = (0, 0, 0)\<close> and
  \<open>C = (0, 1, 0)\<close>, and the default \<open>eps\<close> of \<open>from_3_points\<close>.
\<close>

definition point_A :: tensor where
  "point_A = tensor_of [3] [1, 0, 0]"

definition point_B :: tensor where
  "point_B = tensor_of [3] [0, 0, 0]"

definition point_C :: tensor where
  "point_C = tensor_of [3] [0, 1, 0]"

definition eps_default :: real where
  "eps_default = 1 / 10 ^ 8"

text \<open>
  Two triples of points at once (batch shape \<open>[2]\<close>): \<open>pts2\<close> on the negative x axis, the
  origins \<open>origin2\<close>, and \<open>plane2\<close> in the xy plane.
\<close>

definition origin2 :: tensor where
  "origin2 = tensor_of [2, 3] [0, 0, 0,  0, 0, 0]"

definition plane2 :: tensor where
  "plane2 = tensor_of [2, 3] [0, 1, 0,  0, 0, 1]"

text \<open>
  Backbone atoms for one residue: nitrogen at \<open>(0, 1, 0)\<close>, alpha carbon at the origin,
  carbon at \<open>(1, 0, 0)\<close>; and the default \<open>eps\<close> of \<open>make_transform_from_reference\<close>.
\<close>

definition atom_n :: tensor where
  "atom_n = tensor_of [3] [0, 1, 0]"

definition atom_ca :: tensor where
  "atom_ca = tensor_of [3] [0, 0, 0]"

definition atom_c :: tensor where
  "atom_c = tensor_of [3] [1, 0, 0]"

definition eps_reference :: real where
  "eps_reference = 1 / 10 ^ 20"

section \<open>Results and indices\<close>

lemma ebind_Inr [simp]: "ebind (Inr x) f = f x"
  by (simp add: ebind_def)

lemma ebind_Inl [simp]: "ebind (Inl e) f = Inl e"
  by (simp add: ebind_def)

lemma inb_Nil [simp]: "inb [] idx \<longleftrightarrow> idx = []"
  by (simp add: inb_def)

lemma inb_length: "inb s idx \<Longrightarrow> length idx = length s"
  by (simp add: inb_def list_all2_lengthD)

lemma inb_Cons [simp]: "inb (d # s) (i # b) \<longleftrightarrow> i < d \<and> inb s b"
  by (simp add: inb_def)

lemma inb_snoc [simp]: "inb (s @ [d]) (b @ [i]) \<longleftrightarrow> inb s b \<and> i < d"
proof (cases "length b = length s")
  case True
  then show ?thesis by (simp add: inb_def list_all2_append)
next
  case False
  then show ?thesis by (auto simp: inb_def dest: list_all2_lengthD)
qed

lemma lt3_cases: "i < (3::nat) \<Longrightarrow> i = 0 \<or> i = 1 \<or> i = 2"
  by arith

subsection \<open>Broadcasting between equal shapes reads each operand at the same index\<close>

lemma bidx_rev_id:
  "list_all2 (\<lambda>i d. i < d) ri rs \<Longrightarrow>
   map2 (\<lambda>d i. if d = 1 then 0 else i) rs ri = (ri :: nat list)"
  by (induction ri rs rule: list_all2_induct) auto

lemma bidx_id: "inb s idx \<Longrightarrow> bidx s idx = idx"
  unfolding inb_def bidx_def
  using bidx_rev_id [of "rev idx" "rev s"] by simp

lemma bcast_rev_same: "bcast_rev s s = Some s"
  by (induction s) auto

lemma broadcast_shapes_same [simp]: "broadcast_shapes s s = Some s"
  by (simp add: broadcast_shapes_def bcast_rev_same)

lemma ew2_same:
  "shape a = shape b \<Longrightarrow>
   ew2 f (Inr a) (Inr b) = Inr \<lparr>shape = shape a,
      elem = \<lambda>idx. f (elem a (bidx (shape a) idx)) (elem b (bidx (shape a) idx))\<rparr>"
  by (simp add: ew2_def)

subsection \<open>The primitives on tensors with three trailing entries\<close>

lemma sel1_ok:
  "shape t = bs @ [n] \<Longrightarrow> i < n \<Longrightarrow>
   sel1 t i = Inr \<lparr>shape = bs, elem = \<lambda>idx. elem t (idx @ [i])\<rparr>"
  by (simp add: sel1_def)

lemma sel2_ok:
  "shape t = bs @ [m, n] \<Longrightarrow> i < m \<Longrightarrow> j < n \<Longrightarrow>
   sel2 t i j = Inr \<lparr>shape = bs, elem = \<lambda>idx. elem t (idx @ [i, j])\<rparr>"
  by (simp add: sel2_def butlast_append)

lemma transpose_last2_ok:
  "shape t = bs @ [m, n] \<Longrightarrow>
   transpose_last2 t = Inr \<lparr>shape = bs @ [n, m],
      elem = \<lambda>idx. elem t (butlast (butlast idx) @ [last idx, last (butlast idx)])\<rparr>"
  by (simp add: transpose_last2_def butlast_append)

lemma rot_matmul_ok:
  assumes a: "shape a = bs @ [3, 3]" and b: "shape b = bs @ [3, 3]"
  shows "\<exists>c. rot_matmul a b = Inr c \<and> shape c = bs @ [3, 3] \<and>
     (\<forall>idx i j. inb bs idx \<longrightarrow> i < 3 \<longrightarrow> j < 3 \<longrightarrow>
        elem c (idx @ [i, j]) = dot3 (\<lambda>k. elem a (idx @ [i, k])) (\<lambda>k. elem b (idx @ [k, j])))"
proof -
  have sa: "\<And>i j. i < 3 \<Longrightarrow> j < 3 \<Longrightarrow>
      sel2 a i j = Inr \<lparr>shape = bs, elem = \<lambda>idx. elem a (idx @ [i, j])\<rparr>"
    using sel2_ok [OF a] by simp
  have sb: "\<And>i j. i < 3 \<Longrightarrow> j < 3 \<Longrightarrow>
      sel2 b i j = Inr \<lparr>shape = bs, elem = \<lambda>idx. elem b (idx @ [i, j])\<rparr>"
    using sel2_ok [OF b] by simp
  show ?thesis
    apply (simp add: rot_matmul_def sa sb tadd_def tmul_def ew2_same stack_last_def stack_rows_def)
    apply (intro allI impI)
    subgoal for idx i j
      using lt3_cases [of i] lt3_cases [of j]
      by (auto simp: bidx_id dot3_def butlast_append)
    done
qed

lemma rot_vec_mul_ok:
  assumes r: "shape r = bs @ [3, 3]" and t: "shape t = bs @ [3]"
  shows "\<exists>v. rot_vec_mul r t = Inr v \<and> shape v = bs @ [3] \<and>
     (\<forall>idx i. inb bs idx \<longrightarrow> i < 3 \<longrightarrow>
        elem v (idx @ [i]) = dot3 (\<lambda>k. elem r (idx @ [i, k])) (\<lambda>k. elem t (idx @ [k])))"
proof -
  have sr: "\<And>i j. i < 3 \<Longrightarrow> j < 3 \<Longrightarrow>
      sel2 r i j = Inr \<lparr>shape = bs, elem = \<lambda>idx. elem r (idx @ [i, j])\<rparr>"
    using sel2_ok [OF r] by simp
  have st: "\<And>i. i < 3 \<Longrightarrow> sel1 t i = Inr \<lparr>shape = bs, elem = \<lambda>idx. elem t (idx @ [i])\<rparr>"
    using sel1_ok [OF t] by simp
  show ?thesis
    apply (simp add: rot_vec_mul_def sr st tadd_def tmul_def ew2_same stack_last_def)
    apply (intro allI impI)
    subgoal for idx i
      using lt3_cases [of i]
      by (auto simp: bidx_id dot3_def)
    done
qed

subsection \<open>Well-formed transformations\<close>

lemma wf_T_I:
  "shape (rots t) = bs @ [3, 3] \<Longrightarrow> shape (transl t) = bs @ [3] \<Longrightarrow> wf_T t \<and> batch t = bs"
  by (simp add: wf_T_def batch_def)

lemma T_init_ok:
  "shape r = bs @ [3, 3] \<Longrightarrow> shape t = bs @ [3] \<Longrightarrow>
   T_init (Some r) (Some t) = Inr \<lparr>rots = r, transl = t\<rparr>"
  by (simp add: T_init_def butlast_append)

lemma wf_turns: "wf_T turns \<and> batch turns = [2]"
  by (simp add: wf_T_def batch_def turns_def tensor_of_def)

lemma wf_shifts: "wf_T shifts \<and> batch shifts = [2]"
  by (simp add: wf_T_def batch_def shifts_def tensor_of_def)

lemma elem_tensor_of:
  "elem (tensor_of s xs) idx = (if inb s idx \<and> ravel s idx < length xs then xs ! ravel s idx else 0)"
  by (simp add: tensor_of_def)

subsection \<open>Enumerated indices, scalars, transposition\<close>

lemma set_indices: "idx \<in> set (indices s) \<longleftrightarrow> inb s idx"
proof (induction s arbitrary: idx)
  case Nil
  then show ?case by simp
next
  case (Cons d s)
  show ?case
    by (cases idx) (auto simp: Cons.IH inb_def image_iff)
qed

lemma all_eq_same:
  "shape a = shape b \<Longrightarrow>
   all_eq a b = Inr (\<forall>idx. inb (shape a) idx \<longrightarrow> elem a idx = elem b idx)"
  by (auto simp: all_eq_def list_all_iff set_indices bidx_id)

lemma broadcast_shapes_Nil_left [simp]: "broadcast_shapes [] s = Some s"
  by (simp add: broadcast_shapes_def)

lemma bidx_Nil [simp]: "bidx [] idx = []"
  by (simp add: bidx_def)

lemma ew2_scalar_left:
  "ew2 f (scalar c) (Inr b) = Inr \<lparr>shape = shape b, elem = \<lambda>idx. f c (elem b (bidx (shape b) idx))\<rparr>"
  by (simp add: ew2_def scalar_def)

lemma butlast2_snoc2 [simp]: "butlast (butlast (b @ [i, j])) = b"
  by (simp add: butlast_append)

lemma last_butlast_snoc2 [simp]: "last (butlast (b @ [i, j])) = i"
  by (simp add: butlast_append)


lemma inb_snoc_elim:
  assumes "inb (s @ [d]) idx"
  obtains b i where "idx = b @ [i]" "inb s b" "i < d"
proof -
  from assms have "length idx = Suc (length s)" by (simp add: inb_def list_all2_lengthD)
  then have "idx \<noteq> []" by auto
  then have e: "idx = butlast idx @ [last idx]" by simp
  with assms have "inb (s @ [d]) (butlast idx @ [last idx])" by simp
  then have "inb s (butlast idx)" "last idx < d" by simp_all
  with e show ?thesis using that by blast
qed

lemma all_eq_vec:
  assumes "shape a = bs @ [n]" "shape b = bs @ [n]"
  shows "all_eq a b = Inr (\<forall>idx i. inb bs idx \<longrightarrow> i < n \<longrightarrow> elem a (idx @ [i]) = elem b (idx @ [i]))"
proof -
  have "(\<forall>idx. inb (bs @ [n]) idx \<longrightarrow> elem a idx = elem b idx) \<longleftrightarrow>
        (\<forall>idx i. inb bs idx \<longrightarrow> i < n \<longrightarrow> elem a (idx @ [i]) = elem b (idx @ [i]))"
    by (metis inb_snoc inb_snoc_elim)
  then show ?thesis
    using assms by (simp add: all_eq_same)
qed


lemma orthonormal_atD:
  "orthonormal_at r b \<Longrightarrow> i < 3 \<Longrightarrow> j < 3 \<Longrightarrow>
   dot3 (\<lambda>k. elem r (b @ [k, i])) (\<lambda>k. elem r (b @ [k, j])) = (if i = j then 1 else 0)"
  using lt3_cases [of i] lt3_cases [of j]
  by (auto simp: orthonormal_at_def)

lemma round_trip_real:
  fixes a :: "nat \<Rightarrow> nat \<Rightarrow> real"
  assumes o: "\<And>j. j < 3 \<Longrightarrow> dot3 (\<lambda>k. a k i) (\<lambda>k. a k j) = (if i = j then 1 else 0)"
    and i: "i < 3"
  shows "dot3 (\<lambda>k. a k i) (\<lambda>k. dot3 (\<lambda>m. a k m) p + t k) + - 1 * dot3 (\<lambda>k. a k i) t = p i"
proof -
  have "dot3 (\<lambda>k. a k i) (\<lambda>k. dot3 (\<lambda>m. a k m) p + t k) + - 1 * dot3 (\<lambda>k. a k i) t =
        p 0 * dot3 (\<lambda>k. a k i) (\<lambda>k. a k 0) + p 1 * dot3 (\<lambda>k. a k i) (\<lambda>k. a k 1)
        + p 2 * dot3 (\<lambda>k. a k i) (\<lambda>k. a k 2)"
    by (simp add: dot3_def algebra_simps)
  also have "\<dots> = p i"
    using lt3_cases [OF i] by (auto simp: o)
  finally show ?thesis .
qed


lemma inb_2_cases: "inb [2] b \<Longrightarrow> b = [0] \<or> b = [1]"
  by (cases b) (auto simp: inb_def)

lemma shape_pts2: "shape pts2 = batch turns @ [3]"
  using wf_turns by (simp add: pts2_def tensor_of_def)

lemmas ex_simps = dot3_def turns_def shifts_def pts2_def elem_tensor_of ravel_def

lemma orthonormal_turns:
  assumes "inb (batch turns) b"
  shows "orthonormal_at (rots turns) b"
proof -
  from assms wf_turns have "b = [0] \<or> b = [1]"
    using inb_2_cases [of b] by simp
  then show ?thesis
  proof
    assume "b = [0]"
    then show ?thesis by (simp add: orthonormal_at_def ex_simps)
  next
    assume "b = [1]"
    then show ?thesis by (simp add: orthonormal_at_def ex_simps)
  qed
qed

section \<open>Composition\<close>

lemma T_compose_ok:
  assumes "wf_T outer" and "wf_T inner" and "batch inner = batch outer"
  shows "\<exists>r. T_compose outer inner = Inr r \<and> wf_T r \<and> batch r = batch outer \<and>
     (\<forall>b i j. inb (batch outer) b \<longrightarrow> i < 3 \<longrightarrow> j < 3 \<longrightarrow>
        elem (rots r) (b @ [i, j]) =
          dot3 (\<lambda>k. elem (rots outer) (b @ [i, k])) (\<lambda>k. elem (rots inner) (b @ [k, j]))) \<and>
     (\<forall>b i. inb (batch outer) b \<longrightarrow> i < 3 \<longrightarrow>
        elem (transl r) (b @ [i]) =
          dot3 (\<lambda>k. elem (rots outer) (b @ [i, k])) (\<lambda>k. elem (transl inner) (b @ [k]))
          + elem (transl outer) (b @ [i]))"
proof -
  let ?bs = "batch outer"
  from assms have so: "shape (rots outer) = ?bs @ [3, 3]" "shape (transl outer) = ?bs @ [3]"
    and si: "shape (rots inner) = ?bs @ [3, 3]" "shape (transl inner) = ?bs @ [3]"
    by (simp_all add: wf_T_def)
  from rot_matmul_ok [OF so(1) si(1)] obtain c where
    c: "rot_matmul (rots outer) (rots inner) = Inr c" "shape c = ?bs @ [3, 3]"
      "\<And>idx i j. inb ?bs idx \<Longrightarrow> i < 3 \<Longrightarrow> j < 3 \<Longrightarrow> elem c (idx @ [i, j]) =
          dot3 (\<lambda>k. elem (rots outer) (idx @ [i, k])) (\<lambda>k. elem (rots inner) (idx @ [k, j]))"
    by blast
  from rot_vec_mul_ok [OF so(1) si(2)] obtain v where
    v: "rot_vec_mul (rots outer) (transl inner) = Inr v" "shape v = ?bs @ [3]"
      "\<And>idx i. inb ?bs idx \<Longrightarrow> i < 3 \<Longrightarrow> elem v (idx @ [i]) =
          dot3 (\<lambda>k. elem (rots outer) (idx @ [i, k])) (\<lambda>k. elem (transl inner) (idx @ [k]))"
    by blast
  let ?trn = "\<lparr>shape = ?bs @ [3],
      elem = \<lambda>idx. elem v (bidx (?bs @ [3]) idx) + elem (transl outer) (bidx (?bs @ [3]) idx)\<rparr>"
  have sum: "tadd (Inr v) (Inr (transl outer)) = Inr ?trn"
    by (simp add: tadd_def ew2_same v(2) so(2))
  have res: "T_compose outer inner = Inr \<lparr>rots = c, transl = ?trn\<rparr>"
    by (simp add: T_compose_def c(1) v(1) sum T_init_ok [of c ?bs] c(2))
  have "wf_T \<lparr>rots = c, transl = ?trn\<rparr> \<and> batch \<lparr>rots = c, transl = ?trn\<rparr> = ?bs"
    by (rule wf_T_I) (simp_all add: c(2))
  then show ?thesis
    by (simp add: res c(3) v(3) bidx_id)
qed

text \<open>
  C2. For well-formed transformations \<open>outer\<close> and \<open>inner\<close> of the same batch shape,
  \<open>compose\<close> returns a well-formed transformation of that shape; at every batch index its
  rotation is the matrix product of \<open>outer\<close>'s rotation with \<open>inner\<close>'s, and its translation
  is \<open>outer\<close>'s rotation applied to \<open>inner\<close>'s translation, plus \<open>outer\<close>'s translation.
\<close>

theorem compose_formula:
  assumes "wf_T outer" and "wf_T inner" and "batch inner = batch outer"
  shows "\<exists>r. T_compose outer inner = Inr r \<and> wf_T r \<and> batch r = batch outer \<and>
     (\<forall>b i j. inb (batch outer) b \<longrightarrow> i < 3 \<longrightarrow> j < 3 \<longrightarrow>
        elem (rots r) (b @ [i, j]) =
          dot3 (\<lambda>k. elem (rots outer) (b @ [i, k])) (\<lambda>k. elem (rots inner) (b @ [k, j]))) \<and>
     (\<forall>b i. inb (batch outer) b \<longrightarrow> i < 3 \<longrightarrow>
        elem (transl r) (b @ [i]) =
          dot3 (\<lambda>k. elem (rots outer) (b @ [i, k])) (\<lambda>k. elem (transl inner) (b @ [k]))
          + elem (transl outer) (b @ [i]))"
  using T_compose_ok [OF assms] .

theorem compose_formula_witness:
  "wf_T turns \<and> wf_T shifts \<and> batch shifts = batch turns \<and>
   (\<exists>r. T_compose turns shifts = Inr r \<and> batch r = [2] \<and>
      elem (rots r) [0, 0, 1] = -1 \<and> elem (rots r) [1, 2, 1] = 1 \<and>
      elem (transl r) [0, 0] = -4 \<and> elem (transl r) [1, 1] = -5)"
proof -
  have h: "wf_T turns" "wf_T shifts" "batch shifts = batch turns"
    using wf_turns wf_shifts by simp_all
  from compose_formula [OF h] obtain r where
    r: "T_compose turns shifts = Inr r" "batch r = batch turns"
      "\<And>b i j. inb (batch turns) b \<Longrightarrow> i < 3 \<Longrightarrow> j < 3 \<Longrightarrow> elem (rots r) (b @ [i, j]) =
          dot3 (\<lambda>k. elem (rots turns) (b @ [i, k])) (\<lambda>k. elem (rots shifts) (b @ [k, j]))"
      "\<And>b i. inb (batch turns) b \<Longrightarrow> i < 3 \<Longrightarrow> elem (transl r) (b @ [i]) =
          dot3 (\<lambda>k. elem (rots turns) (b @ [i, k])) (\<lambda>k. elem (transl shifts) (b @ [k]))
          + elem (transl turns) (b @ [i])"
    by blast
  have "elem (rots r) [0, 0, 1] = -1"
    using r(3) [of "[0]" 0 1] wf_turns
    by (simp add: dot3_def turns_def shifts_def elem_tensor_of ravel_def)
  moreover have "elem (rots r) [1, 2, 1] = 1"
    using r(3) [of "[1]" 2 1] wf_turns
    by (simp add: dot3_def turns_def shifts_def elem_tensor_of ravel_def)
  moreover have "elem (transl r) [0, 0] = -4"
    using r(4) [of "[0]" 0] wf_turns
    by (simp add: dot3_def turns_def shifts_def elem_tensor_of ravel_def)
  moreover have "elem (transl r) [1, 1] = -5"
    using r(4) [of "[1]" 1] wf_turns
    by (simp add: dot3_def turns_def shifts_def elem_tensor_of ravel_def)
  ultimately show ?thesis
    using h r(1) r(2) wf_turns by simp
qed

section \<open>Inversion and application\<close>

lemma T_invert_ok:
  assumes "wf_T t"
  shows "\<exists>ti. T_invert t = Inr ti \<and> wf_T ti \<and> batch ti = batch t \<and>
     (\<forall>b i j. inb (batch t) b \<longrightarrow> i < 3 \<longrightarrow> j < 3 \<longrightarrow>
        elem (rots ti) (b @ [i, j]) = elem (rots t) (b @ [j, i])) \<and>
     (\<forall>b i. inb (batch t) b \<longrightarrow> i < 3 \<longrightarrow>
        elem (transl ti) (b @ [i]) =
          - 1 * dot3 (\<lambda>k. elem (rots t) (b @ [k, i])) (\<lambda>k. elem (transl t) (b @ [k])))"
proof -
  let ?bs = "batch t"
  from assms have s: "shape (rots t) = ?bs @ [3, 3]" "shape (transl t) = ?bs @ [3]"
    by (simp_all add: wf_T_def)
  let ?ri = "\<lparr>shape = ?bs @ [3, 3],
      elem = \<lambda>idx. elem (rots t) (butlast (butlast idx) @ [last idx, last (butlast idx)])\<rparr>"
  have tr: "transpose_last2 (rots t) = Inr ?ri"
    using transpose_last2_ok [OF s(1)] by simp
  have "shape ?ri = ?bs @ [3, 3]" by simp
  from rot_vec_mul_ok [OF this s(2)] obtain v where
    v: "rot_vec_mul ?ri (transl t) = Inr v" "shape v = ?bs @ [3]"
      "\<And>idx i. inb ?bs idx \<Longrightarrow> i < 3 \<Longrightarrow> elem v (idx @ [i]) =
          dot3 (\<lambda>k. elem ?ri (idx @ [i, k])) (\<lambda>k. elem (transl t) (idx @ [k]))"
    by blast
  let ?neg = "\<lparr>shape = ?bs @ [3], elem = \<lambda>idx. - 1 * elem v (bidx (?bs @ [3]) idx)\<rparr>"
  have neg: "tmul (scalar (- 1)) (Inr v) = Inr ?neg"
    by (simp add: tmul_def ew2_scalar_left v(2))
  have res: "T_invert t = Inr \<lparr>rots = ?ri, transl = ?neg\<rparr>"
    by (simp add: T_invert_def tr v(1) neg T_init_ok [of ?ri ?bs])
  have "wf_T \<lparr>rots = ?ri, transl = ?neg\<rparr> \<and> batch \<lparr>rots = ?ri, transl = ?neg\<rparr> = ?bs"
    by (rule wf_T_I) simp_all
  then show ?thesis
    by (simp add: res v(3) bidx_id)
qed

lemma T_apply_ok:
  assumes "wf_T t" and p: "shape p = batch t @ [3]"
  shows "\<exists>q. T_apply t p = Inr q \<and> shape q = batch t @ [3] \<and>
     (\<forall>b i. inb (batch t) b \<longrightarrow> i < 3 \<longrightarrow>
        elem q (b @ [i]) =
          dot3 (\<lambda>k. elem (rots t) (b @ [i, k])) (\<lambda>k. elem p (b @ [k])) + elem (transl t) (b @ [i]))"
proof -
  let ?bs = "batch t"
  from assms have s: "shape (rots t) = ?bs @ [3, 3]" "shape (transl t) = ?bs @ [3]"
    by (simp_all add: wf_T_def)
  from rot_vec_mul_ok [OF s(1) p] obtain v where
    v: "rot_vec_mul (rots t) p = Inr v" "shape v = ?bs @ [3]"
      "\<And>idx i. inb ?bs idx \<Longrightarrow> i < 3 \<Longrightarrow> elem v (idx @ [i]) =
          dot3 (\<lambda>k. elem (rots t) (idx @ [i, k])) (\<lambda>k. elem p (idx @ [k]))"
    by blast
  show ?thesis
    by (simp add: T_apply_def v tadd_def ew2_same s(2) bidx_id)
qed

lemma T_invert_apply_ok:
  assumes "wf_T t" and p: "shape p = batch t @ [3]"
  shows "\<exists>q. T_invert_apply t p = Inr q \<and> shape q = batch t @ [3] \<and>
     (\<forall>b i. inb (batch t) b \<longrightarrow> i < 3 \<longrightarrow>
        elem q (b @ [i]) =
          dot3 (\<lambda>k. elem (rots t) (b @ [k, i])) (\<lambda>k. elem p (b @ [k]) - elem (transl t) (b @ [k])))"
proof -
  let ?bs = "batch t"
  from assms have s: "shape (rots t) = ?bs @ [3, 3]" "shape (transl t) = ?bs @ [3]"
    by (simp_all add: wf_T_def)
  let ?d = "\<lparr>shape = ?bs @ [3],
      elem = \<lambda>idx. elem p (bidx (?bs @ [3]) idx) - elem (transl t) (bidx (?bs @ [3]) idx)\<rparr>"
  have d: "tsub (Inr p) (Inr (transl t)) = Inr ?d"
    by (simp add: tsub_def ew2_same p s(2))
  let ?ri = "\<lparr>shape = ?bs @ [3, 3],
      elem = \<lambda>idx. elem (rots t) (butlast (butlast idx) @ [last idx, last (butlast idx)])\<rparr>"
  have tr: "transpose_last2 (rots t) = Inr ?ri"
    using transpose_last2_ok [OF s(1)] by simp
  have "shape ?ri = ?bs @ [3, 3]" "shape ?d = ?bs @ [3]" by simp_all
  from rot_vec_mul_ok [OF this] obtain v where
    v: "rot_vec_mul ?ri ?d = Inr v" "shape v = ?bs @ [3]"
      "\<And>idx i. inb ?bs idx \<Longrightarrow> i < 3 \<Longrightarrow> elem v (idx @ [i]) =
          dot3 (\<lambda>k. elem ?ri (idx @ [i, k])) (\<lambda>k. elem ?d (idx @ [k]))"
    by blast
  show ?thesis
    by (simp add: T_invert_apply_def d tr v bidx_id dot3_def)
qed

text \<open>
  C6. For a well-formed transformation \<open>t\<close> and points \<open>p\<close> of its batch shape,
  \<open>invert_apply\<close>, which multiplies the transposed rotation with \<open>p - t.trans\<close>, returns
  the same points as \<open>apply\<close> of the inverted transformation: the comparison of the two
  results, element by element, is true.
\<close>

theorem invert_apply_agrees:
  assumes "wf_T t" and "shape p = batch t @ [3]"
  shows "\<exists>ti q1 q2. T_invert t = Inr ti \<and> T_invert_apply t p = Inr q1 \<and> T_apply ti p = Inr q2 \<and>
     shape q1 = batch t @ [3] \<and> shape q2 = batch t @ [3] \<and> all_eq q1 q2 = Inr True \<and>
     (\<forall>b i. inb (batch t) b \<longrightarrow> i < 3 \<longrightarrow>
        elem q1 (b @ [i]) = dot3 (\<lambda>k. elem (rots t) (b @ [k, i]))
                              (\<lambda>k. elem p (b @ [k]) - elem (transl t) (b @ [k])))"
proof -
  let ?bs = "batch t"
  from T_invert_ok [OF assms(1)] obtain ti where
    ti: "T_invert t = Inr ti" "wf_T ti" "batch ti = ?bs"
      "\<And>b i j. inb ?bs b \<Longrightarrow> i < 3 \<Longrightarrow> j < 3 \<Longrightarrow> elem (rots ti) (b @ [i, j]) = elem (rots t) (b @ [j, i])"
      "\<And>b i. inb ?bs b \<Longrightarrow> i < 3 \<Longrightarrow> elem (transl ti) (b @ [i]) =
          - 1 * dot3 (\<lambda>k. elem (rots t) (b @ [k, i])) (\<lambda>k. elem (transl t) (b @ [k]))"
    by blast
  from T_invert_apply_ok [OF assms] obtain q1 where
    q1: "T_invert_apply t p = Inr q1" "shape q1 = ?bs @ [3]"
      "\<And>b i. inb ?bs b \<Longrightarrow> i < 3 \<Longrightarrow> elem q1 (b @ [i]) =
          dot3 (\<lambda>k. elem (rots t) (b @ [k, i])) (\<lambda>k. elem p (b @ [k]) - elem (transl t) (b @ [k]))"
    by blast
  from ti(3) assms(2) have "shape p = batch ti @ [3]" by simp
  from T_apply_ok [OF ti(2) this] obtain q2 where
    q2: "T_apply ti p = Inr q2" "shape q2 = ?bs @ [3]"
      "\<And>b i. inb ?bs b \<Longrightarrow> i < 3 \<Longrightarrow> elem q2 (b @ [i]) =
          dot3 (\<lambda>k. elem (rots ti) (b @ [i, k])) (\<lambda>k. elem p (b @ [k])) + elem (transl ti) (b @ [i])"
    unfolding ti(3) by blast
  have eq: "elem q1 (b @ [i]) = elem q2 (b @ [i])" if "inb ?bs b" "i < 3" for b i
    using that by (simp add: q1(3) q2(3) ti(4) ti(5) dot3_def algebra_simps)
  have "all_eq q1 q2 = Inr True"
    using eq by (simp add: all_eq_vec [OF q1(2) q2(2)])
  then show ?thesis
    using ti(1) q1 q2(1,2) by simp
qed

theorem invert_apply_agrees_witness:
  "wf_T turns \<and> shape pts2 = batch turns @ [3] \<and>
   (\<exists>ti q1 q2. T_invert turns = Inr ti \<and> T_invert_apply turns pts2 = Inr q1 \<and>
      T_apply ti pts2 = Inr q2 \<and> all_eq q1 q2 = Inr True \<and> elem q1 [0, 0] = - 2)"
proof -
  have h: "wf_T turns" "shape pts2 = batch turns @ [3]"
    using wf_turns shape_pts2 by simp_all
  from invert_apply_agrees [OF h] obtain ti q1 q2 where
    r: "T_invert turns = Inr ti" "T_invert_apply turns pts2 = Inr q1" "T_apply ti pts2 = Inr q2"
      "all_eq q1 q2 = Inr True"
      "\<And>b i. inb (batch turns) b \<Longrightarrow> i < 3 \<Longrightarrow> elem q1 (b @ [i]) =
         dot3 (\<lambda>k. elem (rots turns) (b @ [k, i])) (\<lambda>k. elem pts2 (b @ [k]) - elem (transl turns) (b @ [k]))"
    by blast
  have "elem q1 [0, 0] = - 2"
    using r(5) [of "[0]" 0] wf_turns by (simp add: ex_simps)
  then show ?thesis
    using h r(1-4) by simp
qed

text \<open>
  C1. For a well-formed transformation \<open>t\<close> and points \<open>p\<close> of its batch shape, \<open>invert\<close>
  returns the transposed rotation and the negated product of the transposed rotation with
  the translation. Applying \<open>t\<close> and then its inverse returns \<open>p\<close> at every batch index
  where the rotation is orthonormal; when it is orthonormal at every index, the result
  equals \<open>p\<close> element by element. The arithmetic is exact (real numbers).
\<close>

theorem apply_invert_round_trip:
  assumes "wf_T t" and "shape p = batch t @ [3]"
  shows "\<exists>ti q r. T_invert t = Inr ti \<and> wf_T ti \<and> batch ti = batch t \<and>
     (\<forall>b i j. inb (batch t) b \<longrightarrow> i < 3 \<longrightarrow> j < 3 \<longrightarrow>
        elem (rots ti) (b @ [i, j]) = elem (rots t) (b @ [j, i])) \<and>
     (\<forall>b i. inb (batch t) b \<longrightarrow> i < 3 \<longrightarrow>
        elem (transl ti) (b @ [i]) =
          - dot3 (\<lambda>k. elem (rots t) (b @ [k, i])) (\<lambda>k. elem (transl t) (b @ [k]))) \<and>
     T_apply t p = Inr q \<and> T_apply ti q = Inr r \<and> shape r = shape p \<and>
     (\<forall>b i. inb (batch t) b \<longrightarrow> orthonormal_at (rots t) b \<longrightarrow> i < 3 \<longrightarrow>
        elem r (b @ [i]) = elem p (b @ [i])) \<and>
     ((\<forall>b. inb (batch t) b \<longrightarrow> orthonormal_at (rots t) b) \<longrightarrow> all_eq r p = Inr True)"
proof -
  let ?bs = "batch t"
  from T_invert_ok [OF assms(1)] obtain ti where
    ti: "T_invert t = Inr ti" "wf_T ti" "batch ti = ?bs"
      "\<And>b i j. inb ?bs b \<Longrightarrow> i < 3 \<Longrightarrow> j < 3 \<Longrightarrow> elem (rots ti) (b @ [i, j]) = elem (rots t) (b @ [j, i])"
      "\<And>b i. inb ?bs b \<Longrightarrow> i < 3 \<Longrightarrow> elem (transl ti) (b @ [i]) =
          - 1 * dot3 (\<lambda>k. elem (rots t) (b @ [k, i])) (\<lambda>k. elem (transl t) (b @ [k]))"
    by blast
  from T_apply_ok [OF assms] obtain q where
    q: "T_apply t p = Inr q" "shape q = ?bs @ [3]"
      "\<And>b i. inb ?bs b \<Longrightarrow> i < 3 \<Longrightarrow> elem q (b @ [i]) =
          dot3 (\<lambda>k. elem (rots t) (b @ [i, k])) (\<lambda>k. elem p (b @ [k])) + elem (transl t) (b @ [i])"
    by blast
  from ti(3) q(2) have "shape q = batch ti @ [3]" by simp
  from T_apply_ok [OF ti(2) this] obtain r where
    r: "T_apply ti q = Inr r" "shape r = ?bs @ [3]"
      "\<And>b i. inb ?bs b \<Longrightarrow> i < 3 \<Longrightarrow> elem r (b @ [i]) =
          dot3 (\<lambda>k. elem (rots ti) (b @ [i, k])) (\<lambda>k. elem q (b @ [k])) + elem (transl ti) (b @ [i])"
    unfolding ti(3) by blast
  have same: "elem r (b @ [i]) = elem p (b @ [i])"
    if b: "inb ?bs b" and o: "orthonormal_at (rots t) b" and i: "i < 3" for b i
  proof -
    have "elem r (b @ [i]) =
        dot3 (\<lambda>k. elem (rots t) (b @ [k, i]))
             (\<lambda>k. dot3 (\<lambda>m. elem (rots t) (b @ [k, m])) (\<lambda>m. elem p (b @ [m])) + elem (transl t) (b @ [k]))
        + - 1 * dot3 (\<lambda>k. elem (rots t) (b @ [k, i])) (\<lambda>k. elem (transl t) (b @ [k]))"
      using b i by (simp add: r(3) ti(4) ti(5) q(3) dot3_def)
    also have "\<dots> = elem p (b @ [i])"
      by (rule round_trip_real [where a = "\<lambda>k m. elem (rots t) (b @ [k, m])" and p = "\<lambda>m. elem p (b @ [m])"])
         (simp_all add: orthonormal_atD [OF o i] i)
    finally show ?thesis .
  qed
  have "all_eq r p = Inr True" if "\<forall>b. inb ?bs b \<longrightarrow> orthonormal_at (rots t) b"
    using that same by (simp add: all_eq_vec [OF r(2) assms(2)])
  then show ?thesis
    using ti(1-4) q(1) r(1,2) assms(2) same by (simp add: ti(5))
qed

theorem apply_invert_round_trip_witness:
  "wf_T turns \<and> shape pts2 = batch turns @ [3] \<and> inb (batch turns) [1] \<and>
   orthonormal_at (rots turns) [1] \<and>
   (\<exists>ti q r. T_invert turns = Inr ti \<and> T_apply turns pts2 = Inr q \<and> T_apply ti q = Inr r \<and>
      elem q [1, 1] = 2 \<and> elem r [1, 1] = 1 \<and> all_eq r pts2 = Inr True)"
proof -
  have h: "wf_T turns" "shape pts2 = batch turns @ [3]"
    using wf_turns shape_pts2 by simp_all
  have b: "inb (batch turns) [1]"
    using wf_turns by simp
  from apply_invert_round_trip [OF h] obtain ti q r where
    r: "T_invert turns = Inr ti" "T_apply turns pts2 = Inr q" "T_apply ti q = Inr r"
      "\<And>b i. inb (batch turns) b \<Longrightarrow> orthonormal_at (rots turns) b \<Longrightarrow> i < 3 \<Longrightarrow>
         elem r (b @ [i]) = elem pts2 (b @ [i])"
      "(\<forall>b. inb (batch turns) b \<longrightarrow> orthonormal_at (rots turns) b) \<longrightarrow> all_eq r pts2 = Inr True"
    by blast
  from T_apply_ok [OF h] r(2) have
    q: "\<And>b i. inb (batch turns) b \<Longrightarrow> i < 3 \<Longrightarrow> elem q (b @ [i]) =
          dot3 (\<lambda>k. elem (rots turns) (b @ [i, k])) (\<lambda>k. elem pts2 (b @ [k])) + elem (transl turns) (b @ [i])"
    by auto
  have "elem q [1, 1] = 2"
    using q [OF b, of 1] by (simp add: ex_simps)
  moreover have "elem r [1, 1] = 1"
    using r(4) [OF b orthonormal_turns [OF b], of 1] by (simp add: ex_simps)
  moreover have "all_eq r pts2 = Inr True"
    using r(5) orthonormal_turns by blast
  ultimately show ?thesis
    using h b orthonormal_turns [OF b] r(1-3) by simp
qed

section \<open>The identity transformation\<close>

lemma expand_rev_ones: "expand_rev (replicate (length xs) 1) (map int xs) = Some xs"
  by (induction xs) auto

lemma ravel_snoc:
  "length s = length b \<Longrightarrow> ravel (s @ [d]) (b @ [i]) = ravel s b * d + i"
  by (simp add: ravel_def)

lemma ravel_ones_zeros: "ravel (replicate n 1) (replicate n 0) = 0"
proof -
  have "foldl (\<lambda>acc (d, i). acc * d + i) 0 (replicate n (1::nat, 0::nat)) = 0"
    by (induction n) simp_all
  then show ?thesis by (simp add: ravel_def zip_replicate)
qed

lemma bidx_snoc:
  "bidx (s @ [d]) (idx @ [i]) = bidx s idx @ [if d = 1 then 0 else i]"
  by (simp add: bidx_def)

lemma bidx_ones: "length b = n \<Longrightarrow> bidx (replicate n 1) b = replicate n 0"
proof -
  assume l: "length b = n"
  have "map2 (\<lambda>d i. if d = 1 then 0 else i) (replicate (length rb) (1::nat)) rb = replicate (length rb) (0::nat)" for rb
    by (induction rb) simp_all
  from this [of "rev b"] show ?thesis
    using l by (simp add: bidx_def)
qed

lemma unravel_33: "i < 3 \<Longrightarrow> j < 3 \<Longrightarrow> unravel [3, 3] (i * 3 + j) = [i, j]"
  by (simp add: unravel_def)

lemma identity_rot_ok:
  "\<exists>r. identity_rot shp = Inr r \<and> shape r = shp @ [3, 3] \<and>
     (\<forall>b i j. inb shp b \<longrightarrow> i < 3 \<longrightarrow> j < 3 \<longrightarrow>
        elem r (b @ [i, j]) = (if i = j then 1 else 0))"
proof -
  let ?n = "length shp"
  let ?v = "\<lparr>shape = replicate ?n 1 @ [3, 3],
      elem = \<lambda>idx. elem (eye 3) (unravel (shape (eye 3)) (ravel (replicate ?n 1 @ [3, 3]) idx))\<rparr>"
  have v: "reshape (eye 3) (replicate ?n 1 @ [3, 3]) = Inr ?v"
    by (simp add: reshape_def eye_def)
  have e: "expand_rev (rev (shape ?v)) (rev (map int shp @ [- 1, - 1])) = Some (3 # 3 # rev shp)"
    using expand_rev_ones [of "rev shp"] by (simp add: rev_map)
  have x: "expand ?v (map int shp @ [- 1, - 1]) =
      Inr \<lparr>shape = shp @ [3, 3], elem = \<lambda>idx. elem ?v (bidx (shape ?v) idx)\<rparr>"
    unfolding expand_def e by simp
  have el: "elem ?v (bidx (shape ?v) (b @ [i, j])) = (if i = j then 1 else 0)"
    if "inb shp b" "i < 3" "j < 3" for b i j
  proof -
    have l: "length b = ?n" using that(1) by (rule inb_length)
    have "bidx (shape ?v) (b @ [i, j]) = replicate ?n 0 @ [i, j]"
      using bidx_snoc [of "replicate ?n 1 @ [3]" 3 "b @ [i]" j] bidx_snoc [of "replicate ?n 1" 3 b i]
        bidx_ones [OF l]
      by simp
    moreover have "ravel (replicate ?n 1 @ [3, 3]) (replicate ?n 0 @ [i, j]) = i * 3 + j"
      using ravel_snoc [of "replicate ?n 1 @ [3]" "replicate ?n 0 @ [i]" 3 j]
        ravel_snoc [of "replicate ?n 1" "replicate ?n 0" 3 i] ravel_ones_zeros [of ?n]
      by simp
    ultimately show ?thesis
      using that(2,3) by (simp add: eye_def unravel_33)
  qed
  have res: "identity_rot shp =
      Inr \<lparr>shape = shp @ [3, 3], elem = \<lambda>idx. elem ?v (bidx (shape ?v) idx)\<rparr>"
    unfolding identity_rot_def v ebind_Inr x ..
  show ?thesis
    unfolding res using el by auto
qed

lemma T_identity_ok:
  "\<exists>t. T_identity shp = Inr t \<and> wf_T t \<and> batch t = shp \<and>
     (\<forall>b i j. inb shp b \<longrightarrow> i < 3 \<longrightarrow> j < 3 \<longrightarrow>
        elem (rots t) (b @ [i, j]) = (if i = j then 1 else 0)) \<and>
     (\<forall>idx. elem (transl t) idx = 0)"
proof -
  from identity_rot_ok [of shp] obtain r where
    r: "identity_rot shp = Inr r" "shape r = shp @ [3, 3]"
      "\<And>b i j. inb shp b \<Longrightarrow> i < 3 \<Longrightarrow> j < 3 \<Longrightarrow> elem r (b @ [i, j]) = (if i = j then 1 else 0)"
    by blast
  have res: "T_identity shp = Inr \<lparr>rots = r, transl = zeros (shp @ [3])\<rparr>"
    by (simp add: T_identity_def r(1) identity_trans_def T_init_ok [of r shp] r(2) zeros_def)
  have "wf_T \<lparr>rots = r, transl = zeros (shp @ [3])\<rparr> \<and>
      batch \<lparr>rots = r, transl = zeros (shp @ [3])\<rparr> = shp"
    by (rule wf_T_I) (simp_all add: r(2) zeros_def)
  then show ?thesis
    by (simp add: res r(3) zeros_def)
qed

section \<open>Broadcasting between different shapes\<close>

lemma broadcast_shapes_snoc:
  "broadcast_shapes (s1 @ [d]) (s2 @ [d]) = map_option (\<lambda>s. s @ [d]) (broadcast_shapes s1 s2)"
  by (simp add: broadcast_shapes_def option.map_comp comp_def)

lemma bcast_rev_absorb_left: "bcast_rev xs ys = Some zs \<Longrightarrow> bcast_rev zs xs = Some zs"
proof (induction xs ys arbitrary: zs rule: bcast_rev.induct)
  case (1 ys)
  then show ?case by (cases ys) auto
next
  case (2 x xs)
  then show ?case by (auto simp: bcast_rev_same)
next
  case (3 x xs y ys)
  then show ?case by (auto split: if_splits)
qed

lemma bcast_rev_absorb_right: "bcast_rev xs ys = Some zs \<Longrightarrow> bcast_rev zs ys = Some zs"
proof (induction xs ys arbitrary: zs rule: bcast_rev.induct)
  case (1 ys)
  then show ?case by (auto simp: bcast_rev_same)
next
  case (2 x xs)
  then show ?case by auto
next
  case (3 x xs y ys)
  then show ?case by (auto split: if_splits)
qed

lemma broadcast_absorb_left: "broadcast_shapes s1 s2 = Some s \<Longrightarrow> broadcast_shapes s s1 = Some s"
  by (auto simp: broadcast_shapes_def dest: bcast_rev_absorb_left)

lemma broadcast_absorb_right: "broadcast_shapes s1 s2 = Some s \<Longrightarrow> broadcast_shapes s s2 = Some s"
  by (auto simp: broadcast_shapes_def dest: bcast_rev_absorb_right)

lemma rot_matmul_bc:
  assumes a: "shape a = s1 @ [3, 3]" and b: "shape b = s2 @ [3, 3]"
    and bc: "broadcast_shapes s1 s2 = Some s"
  shows "\<exists>c. rot_matmul a b = Inr c \<and> shape c = s @ [3, 3] \<and>
     (\<forall>idx i j. inb s idx \<longrightarrow> i < 3 \<longrightarrow> j < 3 \<longrightarrow>
        elem c (idx @ [i, j]) =
          dot3 (\<lambda>k. elem a (bidx s1 idx @ [i, k])) (\<lambda>k. elem b (bidx s2 idx @ [k, j])))"
proof -
  have sa: "\<And>i j. i < 3 \<Longrightarrow> j < 3 \<Longrightarrow>
      sel2 a i j = Inr \<lparr>shape = s1, elem = \<lambda>idx. elem a (idx @ [i, j])\<rparr>"
    using sel2_ok [OF a] by simp
  have sb: "\<And>i j. i < 3 \<Longrightarrow> j < 3 \<Longrightarrow>
      sel2 b i j = Inr \<lparr>shape = s2, elem = \<lambda>idx. elem b (idx @ [i, j])\<rparr>"
    using sel2_ok [OF b] by simp
  show ?thesis
    apply (simp add: rot_matmul_def sa sb tadd_def tmul_def ew2_def bc stack_last_def stack_rows_def)
    apply (intro allI impI)
    subgoal for idx i j
      using lt3_cases [of i] lt3_cases [of j]
      by (auto simp: bidx_id dot3_def butlast_append)
    done
qed

lemma rot_vec_mul_bc:
  assumes r: "shape r = s1 @ [3, 3]" and t: "shape t = s2 @ [3]"
    and bc: "broadcast_shapes s1 s2 = Some s"
  shows "\<exists>v. rot_vec_mul r t = Inr v \<and> shape v = s @ [3] \<and>
     (\<forall>idx i. inb s idx \<longrightarrow> i < 3 \<longrightarrow>
        elem v (idx @ [i]) =
          dot3 (\<lambda>k. elem r (bidx s1 idx @ [i, k])) (\<lambda>k. elem t (bidx s2 idx @ [k])))"
proof -
  have sr: "\<And>i j. i < 3 \<Longrightarrow> j < 3 \<Longrightarrow>
      sel2 r i j = Inr \<lparr>shape = s1, elem = \<lambda>idx. elem r (idx @ [i, j])\<rparr>"
    using sel2_ok [OF r] by simp
  have st: "\<And>i. i < 3 \<Longrightarrow> sel1 t i = Inr \<lparr>shape = s2, elem = \<lambda>idx. elem t (idx @ [i])\<rparr>"
    using sel1_ok [OF t] by simp
  show ?thesis
    apply (simp add: rot_vec_mul_def sr st tadd_def tmul_def ew2_def bc stack_last_def)
    apply (intro allI impI)
    subgoal for idx i
      using lt3_cases [of i]
      by (auto simp: bidx_id dot3_def)
    done
qed

lemma T_compose_bc:
  assumes "wf_T outer" and "wf_T inner"
    and bc: "broadcast_shapes (batch outer) (batch inner) = Some s"
  shows "\<exists>r. T_compose outer inner = Inr r \<and> wf_T r \<and> batch r = s \<and>
     (\<forall>b i j. inb s b \<longrightarrow> i < 3 \<longrightarrow> j < 3 \<longrightarrow>
        elem (rots r) (b @ [i, j]) =
          dot3 (\<lambda>k. elem (rots outer) (bidx (batch outer) b @ [i, k]))
               (\<lambda>k. elem (rots inner) (bidx (batch inner) b @ [k, j]))) \<and>
     (\<forall>b i. inb s b \<longrightarrow> i < 3 \<longrightarrow>
        elem (transl r) (b @ [i]) =
          dot3 (\<lambda>k. elem (rots outer) (bidx (batch outer) b @ [i, k]))
               (\<lambda>k. elem (transl inner) (bidx (batch inner) b @ [k]))
          + elem (transl outer) (bidx (batch outer) b @ [i]))"
proof -
  let ?s1 = "batch outer" and ?s2 = "batch inner"
  from assms have so: "shape (rots outer) = ?s1 @ [3, 3]" "shape (transl outer) = ?s1 @ [3]"
    and si: "shape (rots inner) = ?s2 @ [3, 3]" "shape (transl inner) = ?s2 @ [3]"
    by (simp_all add: wf_T_def)
  from rot_matmul_bc [OF so(1) si(1) bc] obtain c where
    c: "rot_matmul (rots outer) (rots inner) = Inr c" "shape c = s @ [3, 3]"
      "\<And>idx i j. inb s idx \<Longrightarrow> i < 3 \<Longrightarrow> j < 3 \<Longrightarrow> elem c (idx @ [i, j]) =
          dot3 (\<lambda>k. elem (rots outer) (bidx ?s1 idx @ [i, k]))
               (\<lambda>k. elem (rots inner) (bidx ?s2 idx @ [k, j]))"
    by blast
  from rot_vec_mul_bc [OF so(1) si(2) bc] obtain v where
    v: "rot_vec_mul (rots outer) (transl inner) = Inr v" "shape v = s @ [3]"
      "\<And>idx i. inb s idx \<Longrightarrow> i < 3 \<Longrightarrow> elem v (idx @ [i]) =
          dot3 (\<lambda>k. elem (rots outer) (bidx ?s1 idx @ [i, k]))
               (\<lambda>k. elem (transl inner) (bidx ?s2 idx @ [k]))"
    by blast
  have b3: "broadcast_shapes (s @ [3]) (?s1 @ [3]) = Some (s @ [3])"
    by (simp add: broadcast_shapes_snoc broadcast_absorb_left [OF bc])
  let ?trn = "\<lparr>shape = s @ [3],
      elem = \<lambda>idx. elem v (bidx (s @ [3]) idx) + elem (transl outer) (bidx (?s1 @ [3]) idx)\<rparr>"
  have sum: "tadd (Inr v) (Inr (transl outer)) = Inr ?trn"
    by (simp add: tadd_def ew2_def v(2) so(2) b3)
  have res: "T_compose outer inner = Inr \<lparr>rots = c, transl = ?trn\<rparr>"
    by (simp add: T_compose_def c(1) v(1) sum T_init_ok [of c s] c(2))
  have "wf_T \<lparr>rots = c, transl = ?trn\<rparr> \<and> batch \<lparr>rots = c, transl = ?trn\<rparr> = s"
    by (rule wf_T_I) (simp_all add: c(2))
  then show ?thesis
    by (simp add: res c(3) v(3) bidx_id bidx_snoc)
qed

lemma all_eq_bc:
  assumes "broadcast_shapes (shape a) (shape b) = Some (shape a)"
  shows "all_eq a b = Inr (\<forall>idx. inb (shape a) idx \<longrightarrow> elem a idx = elem b (bidx (shape b) idx))"
  using assms by (auto simp: all_eq_def list_all_iff set_indices bidx_id)

lemma inb_snoc2_elim:
  assumes "inb (s @ [m, n]) idx"
  obtains b i j where "idx = b @ [i, j]" "inb s b" "i < m" "j < n"
proof -
  from assms have "inb ((s @ [m]) @ [n]) idx" by simp
  then obtain c j where c: "idx = c @ [j]" "inb (s @ [m]) c" "j < n"
    by (rule inb_snoc_elim)
  from c(2) obtain b i where b: "c = b @ [i]" "inb s b" "i < m"
    by (rule inb_snoc_elim)
  from c b have "idx = b @ [i, j]" by simp
  with b c show ?thesis using that by blast
qed

lemma all_eq_mat_bc:
  assumes a: "shape a = s @ [3, 3]" and b: "shape b = bs @ [3, 3]"
    and bc: "broadcast_shapes s bs = Some s"
  shows "all_eq a b = Inr (\<forall>c i j. inb s c \<longrightarrow> i < 3 \<longrightarrow> j < 3 \<longrightarrow>
            elem a (c @ [i, j]) = elem b (bidx bs c @ [i, j]))"
proof -
  have "broadcast_shapes (shape a) (shape b) = Some (shape a)"
    using broadcast_shapes_snoc [of "s @ [3]" 3 "bs @ [3]"] broadcast_shapes_snoc [of s 3 bs]
    by (simp add: a b bc)
  from all_eq_bc [OF this] have
    e: "all_eq a b = Inr (\<forall>idx. inb (s @ [3, 3]) idx \<longrightarrow> elem a idx = elem b (bidx (bs @ [3, 3]) idx))"
    by (simp add: a b)
  have x: "bidx (bs @ [3, 3]) (c @ [i, j]) = bidx bs c @ [i, j]" for c i j
    using bidx_snoc [of "bs @ [3]" 3 "c @ [i]" j] bidx_snoc [of bs 3 c i] by simp
  have "(\<forall>idx. inb (s @ [3, 3]) idx \<longrightarrow> elem a idx = elem b (bidx (bs @ [3, 3]) idx)) \<longleftrightarrow>
        (\<forall>c i j. inb s c \<longrightarrow> i < 3 \<longrightarrow> j < 3 \<longrightarrow> elem a (c @ [i, j]) = elem b (bidx bs c @ [i, j]))"
    (is "?L \<longleftrightarrow> ?R")
  proof
    assume l: ?L
    show ?R
    proof (intro allI impI)
      fix c i j assume "inb s c" "i < (3::nat)" "j < (3::nat)"
      then have "inb (s @ [3, 3]) (c @ [i, j])"
        using inb_snoc [of "s @ [3]" 3 "c @ [i]" j] by simp
      with l have "elem a (c @ [i, j]) = elem b (bidx (bs @ [3, 3]) (c @ [i, j]))" by blast
      then show "elem a (c @ [i, j]) = elem b (bidx bs c @ [i, j])" by (simp add: x)
    qed
  next
    assume r: ?R
    show ?L
    proof (intro allI impI)
      fix idx assume "inb (s @ [3, 3]) idx"
      then obtain c i j where "idx = c @ [i, j]" "inb s c" "i < 3" "j < 3"
        by (rule inb_snoc2_elim)
      with r show "elem a idx = elem b (bidx (bs @ [3, 3]) idx)" by (simp add: x)
    qed
  qed
  with e show ?thesis by simp
qed

lemma all_eq_vec_bc:
  assumes a: "shape a = s @ [3]" and b: "shape b = bs @ [3]"
    and bc: "broadcast_shapes s bs = Some s"
  shows "all_eq a b = Inr (\<forall>c i. inb s c \<longrightarrow> i < 3 \<longrightarrow>
            elem a (c @ [i]) = elem b (bidx bs c @ [i]))"
proof -
  have "broadcast_shapes (shape a) (shape b) = Some (shape a)"
    by (simp add: a b bc broadcast_shapes_snoc)
  from all_eq_bc [OF this] have
    e: "all_eq a b = Inr (\<forall>idx. inb (s @ [3]) idx \<longrightarrow> elem a idx = elem b (bidx (bs @ [3]) idx))"
    by (simp add: a b)
  have "(\<forall>idx. inb (s @ [3]) idx \<longrightarrow> elem a idx = elem b (bidx (bs @ [3]) idx)) \<longleftrightarrow>
        (\<forall>c i. inb s c \<longrightarrow> i < 3 \<longrightarrow> elem a (c @ [i]) = elem b (bidx bs c @ [i]))"
    (is "?L \<longleftrightarrow> ?R")
  proof
    assume l: ?L
    show ?R
    proof (intro allI impI)
      fix c i assume "inb s c" "i < (3::nat)"
      then have "inb (s @ [3]) (c @ [i])" by simp
      with l have "elem a (c @ [i]) = elem b (bidx (bs @ [3]) (c @ [i]))" by blast
      then show "elem a (c @ [i]) = elem b (bidx bs c @ [i])" by (simp add: bidx_snoc)
    qed
  next
    assume r: ?R
    show ?L
    proof (intro allI impI)
      fix idx assume "inb (s @ [3]) idx"
      then obtain c i where "idx = c @ [i]" "inb s c" "i < 3"
        by (rule inb_snoc_elim)
      with r show "elem a idx = elem b (bidx (bs @ [3]) idx)" by (simp add: bidx_snoc)
    qed
  qed
  with e show ?thesis by simp
qed

lemma T_shape_wf: "wf_T t \<Longrightarrow> T_shape t = (if batch t = [] then [1] else batch t)"
  by (simp add: T_shape_def wf_T_def Let_def)

lemma T_shape_broadcast:
  assumes "wf_T t"
  shows "broadcast_shapes (batch t) (T_shape t) = Some (T_shape t)"
    and "broadcast_shapes (T_shape t) (batch t) = Some (T_shape t)"
proof -
  have "broadcast_shapes [] [1] = Some [1]" "broadcast_shapes [1] [] = Some [1]"
    by (simp_all add: broadcast_shapes_def)
  then show "broadcast_shapes (batch t) (T_shape t) = Some (T_shape t)"
    and "broadcast_shapes (T_shape t) (batch t) = Some (T_shape t)"
    using assms by (simp_all add: T_shape_wf)
qed

lemma dot3_delta_right: "j < 3 \<Longrightarrow> dot3 f (\<lambda>k. if k = j then 1 else 0) = f j"
  using lt3_cases [of j] by (auto simp: dot3_def)

lemma dot3_delta_left: "i < 3 \<Longrightarrow> dot3 (\<lambda>k. if i = k then 1 else 0) g = g i"
  using lt3_cases [of i] by (auto simp: dot3_def)

lemma dot3_zero_right: "dot3 f (\<lambda>k. 0) = 0"
  by (simp add: dot3_def)


section \<open>Composition with the identity\<close>

text \<open>
  C7. For a well-formed transformation \<open>t\<close>, the identity of shape \<open>t.shape\<close> is built
  without error, and composing \<open>t\<close> with it on either side returns a transformation that
  \<open>==\<close> finds pointwise equal to \<open>t\<close>. For an unbatched \<open>t\<close> the shape property is
  \<open>[1]\<close>, the composition has batch shape \<open>[1]\<close>, and the comparison broadcasts.
\<close>

theorem compose_identity:
  assumes "wf_T t"
  shows "\<exists>e. T_identity (T_shape t) = Inr e \<and> wf_T e \<and> batch e = T_shape t \<and>
     (\<exists>c. T_compose t e = Inr c \<and> batch c = T_shape t \<and> T_eq c t = Inr True) \<and>
     (\<exists>c. T_compose e t = Inr c \<and> batch c = T_shape t \<and> T_eq c t = Inr True)"
proof -
  let ?s = "T_shape t" and ?bs = "batch t"
  from assms have st: "shape (rots t) = ?bs @ [3, 3]" "shape (transl t) = ?bs @ [3]"
    by (simp_all add: wf_T_def)
  from T_identity_ok [of ?s] obtain e where
    e: "T_identity ?s = Inr e" "wf_T e" "batch e = ?s"
      "\<And>b i j. inb ?s b \<Longrightarrow> i < 3 \<Longrightarrow> j < 3 \<Longrightarrow> elem (rots e) (b @ [i, j]) = (if i = j then 1 else 0)"
      "\<And>idx. elem (transl e) idx = 0"
    by blast
  have bc1: "broadcast_shapes ?bs (batch e) = Some ?s"
    and bc2: "broadcast_shapes (batch e) ?bs = Some ?s"
    using T_shape_broadcast [OF assms] by (simp_all add: e(3))
  have bc3: "broadcast_shapes ?s ?bs = Some ?s"
    using bc2 by (simp add: e(3))
  from T_compose_bc [OF assms e(2) bc1] obtain c1 where
    c1: "T_compose t e = Inr c1" "wf_T c1" "batch c1 = ?s"
      "\<And>b i j. inb ?s b \<Longrightarrow> i < 3 \<Longrightarrow> j < 3 \<Longrightarrow> elem (rots c1) (b @ [i, j]) =
          dot3 (\<lambda>k. elem (rots t) (bidx ?bs b @ [i, k])) (\<lambda>k. elem (rots e) (bidx (batch e) b @ [k, j]))"
      "\<And>b i. inb ?s b \<Longrightarrow> i < 3 \<Longrightarrow> elem (transl c1) (b @ [i]) =
          dot3 (\<lambda>k. elem (rots t) (bidx ?bs b @ [i, k])) (\<lambda>k. elem (transl e) (bidx (batch e) b @ [k]))
          + elem (transl t) (bidx ?bs b @ [i])"
    by blast
  from T_compose_bc [OF e(2) assms bc2] obtain c2 where
    c2: "T_compose e t = Inr c2" "wf_T c2" "batch c2 = ?s"
      "\<And>b i j. inb ?s b \<Longrightarrow> i < 3 \<Longrightarrow> j < 3 \<Longrightarrow> elem (rots c2) (b @ [i, j]) =
          dot3 (\<lambda>k. elem (rots e) (bidx (batch e) b @ [i, k])) (\<lambda>k. elem (rots t) (bidx ?bs b @ [k, j]))"
      "\<And>b i. inb ?s b \<Longrightarrow> i < 3 \<Longrightarrow> elem (transl c2) (b @ [i]) =
          dot3 (\<lambda>k. elem (rots e) (bidx (batch e) b @ [i, k])) (\<lambda>k. elem (transl t) (bidx ?bs b @ [k]))
          + elem (transl e) (bidx (batch e) b @ [i])"
    by blast
  have er: "elem (rots e) (bidx (batch e) b @ [i, j]) = (if i = j then 1 else 0)"
    if "inb ?s b" "i < 3" "j < 3" for b i j
    using that by (simp add: e(3) bidx_id e(4))
  have r1: "elem (rots c1) (b @ [i, j]) = elem (rots t) (bidx ?bs b @ [i, j])"
    if "inb ?s b" "i < 3" "j < 3" for b i j
  proof -
    have "(\<lambda>k. elem (rots e) (bidx (batch e) b @ [k, j])) 0 = (\<lambda>k. if k = j then 1 else 0) 0"
      "(\<lambda>k. elem (rots e) (bidx (batch e) b @ [k, j])) 1 = (\<lambda>k. if k = j then 1 else 0) 1"
      "(\<lambda>k. elem (rots e) (bidx (batch e) b @ [k, j])) 2 = (\<lambda>k. if k = j then 1 else 0) 2"
      using that by (simp_all add: er)
    then have "dot3 (\<lambda>k. elem (rots t) (bidx ?bs b @ [i, k])) (\<lambda>k. elem (rots e) (bidx (batch e) b @ [k, j]))
        = dot3 (\<lambda>k. elem (rots t) (bidx ?bs b @ [i, k])) (\<lambda>k. if k = j then 1 else 0)"
      by (simp add: dot3_def)
    then show ?thesis
      using that by (simp add: c1(4) dot3_delta_right)
  qed
  have r2: "elem (rots c2) (b @ [i, j]) = elem (rots t) (bidx ?bs b @ [i, j])"
    if "inb ?s b" "i < 3" "j < 3" for b i j
  proof -
    have "(\<lambda>k. elem (rots e) (bidx (batch e) b @ [i, k])) 0 = (\<lambda>k. if i = k then 1 else 0) 0"
      "(\<lambda>k. elem (rots e) (bidx (batch e) b @ [i, k])) 1 = (\<lambda>k. if i = k then 1 else 0) 1"
      "(\<lambda>k. elem (rots e) (bidx (batch e) b @ [i, k])) 2 = (\<lambda>k. if i = k then 1 else 0) 2"
      using that by (simp_all add: er)
    then have "dot3 (\<lambda>k. elem (rots e) (bidx (batch e) b @ [i, k])) (\<lambda>k. elem (rots t) (bidx ?bs b @ [k, j]))
        = dot3 (\<lambda>k. if i = k then 1 else 0) (\<lambda>k. elem (rots t) (bidx ?bs b @ [k, j]))"
      by (simp add: dot3_def)
    then show ?thesis
      using that by (simp add: c2(4) dot3_delta_left)
  qed
  have t1: "elem (transl c1) (b @ [i]) = elem (transl t) (bidx ?bs b @ [i])"
    if "inb ?s b" "i < 3" for b i
    using that by (simp add: c1(5) e(5) dot3_zero_right)
  have t2: "elem (transl c2) (b @ [i]) = elem (transl t) (bidx ?bs b @ [i])"
    if "inb ?s b" "i < 3" for b i
  proof -
    have "(\<lambda>k. elem (rots e) (bidx (batch e) b @ [i, k])) 0 = (\<lambda>k. if i = k then 1 else 0) 0"
      "(\<lambda>k. elem (rots e) (bidx (batch e) b @ [i, k])) 1 = (\<lambda>k. if i = k then 1 else 0) 1"
      "(\<lambda>k. elem (rots e) (bidx (batch e) b @ [i, k])) 2 = (\<lambda>k. if i = k then 1 else 0) 2"
      using that by (simp_all add: er)
    then have "dot3 (\<lambda>k. elem (rots e) (bidx (batch e) b @ [i, k])) (\<lambda>k. elem (transl t) (bidx ?bs b @ [k]))
        = dot3 (\<lambda>k. if i = k then 1 else 0) (\<lambda>k. elem (transl t) (bidx ?bs b @ [k]))"
      by (simp add: dot3_def)
    then show ?thesis
      using that by (simp add: c2(5) e(5) dot3_delta_left)
  qed
  have s1: "shape (rots c1) = ?s @ [3, 3]" "shape (transl c1) = ?s @ [3]"
    and s2: "shape (rots c2) = ?s @ [3, 3]" "shape (transl c2) = ?s @ [3]"
    using c1(2,3) c2(2,3) by (simp_all add: wf_T_def)
  have "T_eq c1 t = Inr True"
    using r1 t1
    by (simp add: T_eq_def all_eq_mat_bc [OF s1(1) st(1) bc3] all_eq_vec_bc [OF s1(2) st(2) bc3])
  moreover have "T_eq c2 t = Inr True"
    using r2 t2
    by (simp add: T_eq_def all_eq_mat_bc [OF s2(1) st(1) bc3] all_eq_vec_bc [OF s2(2) st(2) bc3])
  ultimately show ?thesis
    using e(1-3) c1(1,3) c2(1,3) by simp
qed

lemma wf_lone: "wf_T lone \<and> batch lone = []"
  by (simp add: wf_T_def batch_def lone_def tensor_of_def)

theorem compose_identity_witness:
  "wf_T turns \<and> wf_T lone \<and> T_shape turns = [2] \<and> T_shape lone = [1] \<and>
   (\<exists>e c. T_identity [2] = Inr e \<and> T_compose turns e = Inr c \<and> T_eq c turns = Inr True) \<and>
   (\<exists>e c. T_identity [2] = Inr e \<and> T_compose e turns = Inr c \<and> T_eq c turns = Inr True) \<and>
   (\<exists>e c. T_identity [1] = Inr e \<and> T_compose lone e = Inr c \<and> batch c = [1] \<and>
      T_eq c lone = Inr True)"
proof -
  have h: "wf_T turns" "wf_T lone"
    using wf_turns wf_lone by simp_all
  have s: "T_shape turns = [2]" "T_shape lone = [1]"
    using wf_turns wf_lone by (simp_all add: T_shape_wf)
  from compose_identity [OF h(1)] compose_identity [OF h(2)] show ?thesis
    unfolding s using h by auto
qed

section \<open>Addition\<close>

text \<open>
  C9. For well-formed transformations \<open>a\<close> and \<open>b\<close> of the same batch shape, \<open>add\<close> returns
  the rotation \<open>compose\<close> returns (the matrix product) and the translation
  \<open>b.trans + a.trans\<close>, not rotated. The result equals that of \<open>compose\<close> exactly when
  \<open>a\<close>'s rotation leaves \<open>b\<close>'s translation unchanged at every batch index.
\<close>

theorem add_formula:
  assumes "wf_T a" and "wf_T b" and "batch b = batch a"
  shows "\<exists>s c. T_add a b = Inr s \<and> T_compose a b = Inr c \<and> wf_T s \<and> batch s = batch a \<and>
     all_eq (rots s) (rots c) = Inr True \<and>
     (\<forall>idx i j. inb (batch a) idx \<longrightarrow> i < 3 \<longrightarrow> j < 3 \<longrightarrow>
        elem (rots s) (idx @ [i, j]) =
          dot3 (\<lambda>k. elem (rots a) (idx @ [i, k])) (\<lambda>k. elem (rots b) (idx @ [k, j]))) \<and>
     (\<forall>idx i. inb (batch a) idx \<longrightarrow> i < 3 \<longrightarrow>
        elem (transl s) (idx @ [i]) = elem (transl b) (idx @ [i]) + elem (transl a) (idx @ [i])) \<and>
     T_eq s c = Inr (\<forall>idx i. inb (batch a) idx \<longrightarrow> i < 3 \<longrightarrow>
        dot3 (\<lambda>k. elem (rots a) (idx @ [i, k])) (\<lambda>k. elem (transl b) (idx @ [k]))
          = elem (transl b) (idx @ [i]))"
proof -
  let ?bs = "batch a"
  from assms have sa: "shape (rots a) = ?bs @ [3, 3]" "shape (transl a) = ?bs @ [3]"
    and sb: "shape (rots b) = ?bs @ [3, 3]" "shape (transl b) = ?bs @ [3]"
    by (simp_all add: wf_T_def)
  from rot_matmul_ok [OF sa(1) sb(1)] obtain m where
    m: "rot_matmul (rots a) (rots b) = Inr m" "shape m = ?bs @ [3, 3]"
      "\<And>idx i j. inb ?bs idx \<Longrightarrow> i < 3 \<Longrightarrow> j < 3 \<Longrightarrow> elem m (idx @ [i, j]) =
          dot3 (\<lambda>k. elem (rots a) (idx @ [i, k])) (\<lambda>k. elem (rots b) (idx @ [k, j]))"
    by blast
  from rot_vec_mul_ok [OF sa(1) sb(2)] obtain v where
    v: "rot_vec_mul (rots a) (transl b) = Inr v" "shape v = ?bs @ [3]"
      "\<And>idx i. inb ?bs idx \<Longrightarrow> i < 3 \<Longrightarrow> elem v (idx @ [i]) =
          dot3 (\<lambda>k. elem (rots a) (idx @ [i, k])) (\<lambda>k. elem (transl b) (idx @ [k]))"
    by blast
  let ?ts = "\<lparr>shape = ?bs @ [3],
      elem = \<lambda>idx. elem (transl b) (bidx (?bs @ [3]) idx) + elem (transl a) (bidx (?bs @ [3]) idx)\<rparr>"
  let ?tc = "\<lparr>shape = ?bs @ [3],
      elem = \<lambda>idx. elem v (bidx (?bs @ [3]) idx) + elem (transl a) (bidx (?bs @ [3]) idx)\<rparr>"
  have s: "T_add a b = Inr \<lparr>rots = m, transl = ?ts\<rparr>"
    by (simp add: T_add_def m(1,2) tadd_def ew2_same sa(2) sb(2) T_init_ok [of m ?bs])
  have c: "T_compose a b = Inr \<lparr>rots = m, transl = ?tc\<rparr>"
    by (simp add: T_compose_def m(1,2) v(1,2) tadd_def ew2_same sa(2) T_init_ok [of m ?bs])
  have w: "wf_T \<lparr>rots = m, transl = ?ts\<rparr> \<and> batch \<lparr>rots = m, transl = ?ts\<rparr> = ?bs"
    by (rule wf_T_I) (simp_all add: m(2))
  have r: "all_eq m m = Inr True"
    by (simp add: all_eq_same)
  have e: "all_eq ?ts ?tc = Inr (\<forall>idx i. inb ?bs idx \<longrightarrow> i < 3 \<longrightarrow>
        dot3 (\<lambda>k. elem (rots a) (idx @ [i, k])) (\<lambda>k. elem (transl b) (idx @ [k]))
          = elem (transl b) (idx @ [i]))"
    by (subst all_eq_vec [where bs = ?bs and n = 3]) (auto simp: bidx_id v(3))
  show ?thesis
    using w by (simp add: s c T_eq_def r e m(3) bidx_id)
qed

theorem add_formula_witness:
  "wf_T turns \<and> wf_T shifts \<and> batch shifts = batch turns \<and>
   (\<exists>s c. T_add turns shifts = Inr s \<and> T_compose turns shifts = Inr c \<and>
      elem (transl s) [0, 0] = 5 \<and> elem (transl c) [0, 0] = - 4 \<and> T_eq s c = Inr False) \<and>
   (\<exists>s c. T_add shifts shifts = Inr s \<and> T_compose shifts shifts = Inr c \<and> T_eq s c = Inr True)"
proof -
  have h: "wf_T turns" "wf_T shifts" "batch shifts = batch turns"
    using wf_turns wf_shifts by simp_all
  from add_formula [OF h] obtain s c where
    r: "T_add turns shifts = Inr s" "T_compose turns shifts = Inr c"
      "\<And>idx i. inb (batch turns) idx \<Longrightarrow> i < 3 \<Longrightarrow>
        elem (transl s) (idx @ [i]) = elem (transl shifts) (idx @ [i]) + elem (transl turns) (idx @ [i])"
      "T_eq s c = Inr (\<forall>idx i. inb (batch turns) idx \<longrightarrow> i < 3 \<longrightarrow>
        dot3 (\<lambda>k. elem (rots turns) (idx @ [i, k])) (\<lambda>k. elem (transl shifts) (idx @ [k]))
          = elem (transl shifts) (idx @ [i]))"
    by blast
  have s00: "elem (transl s) [0, 0] = 5"
    using r(3) [of "[0]" 0] wf_turns by (simp add: ex_simps)
  from T_compose_ok [OF h] r(2) have
    "\<And>b i. inb (batch turns) b \<Longrightarrow> i < 3 \<Longrightarrow> elem (transl c) (b @ [i]) =
        dot3 (\<lambda>k. elem (rots turns) (b @ [i, k])) (\<lambda>k. elem (transl shifts) (b @ [k]))
        + elem (transl turns) (b @ [i])"
    by auto
  from this [of "[0]" 0] have c00: "elem (transl c) [0, 0] = - 4"
    using wf_turns by (simp add: ex_simps)
  have "\<not> (\<forall>idx i. inb (batch turns) idx \<longrightarrow> i < 3 \<longrightarrow>
        dot3 (\<lambda>k. elem (rots turns) (idx @ [i, k])) (\<lambda>k. elem (transl shifts) (idx @ [k]))
          = elem (transl shifts) (idx @ [i]))"
  proof
    assume a: "\<forall>idx i. inb (batch turns) idx \<longrightarrow> i < 3 \<longrightarrow>
        dot3 (\<lambda>k. elem (rots turns) (idx @ [i, k])) (\<lambda>k. elem (transl shifts) (idx @ [k]))
          = elem (transl shifts) (idx @ [i])"
    have "inb (batch turns) [0]" using wf_turns by simp
    from a [rule_format, of "[0]" 0] this show False by (simp add: ex_simps)
  qed
  with r(4) have ne: "T_eq s c = Inr False" by simp
  have h2: "wf_T shifts" "wf_T shifts" "batch shifts = batch shifts"
    using wf_shifts by simp_all
  from add_formula [OF h2] obtain s' c' where
    r': "T_add shifts shifts = Inr s'" "T_compose shifts shifts = Inr c'"
      "T_eq s' c' = Inr (\<forall>idx i. inb (batch shifts) idx \<longrightarrow> i < 3 \<longrightarrow>
        dot3 (\<lambda>k. elem (rots shifts) (idx @ [i, k])) (\<lambda>k. elem (transl shifts) (idx @ [k]))
          = elem (transl shifts) (idx @ [i]))"
    by blast
  have "dot3 (\<lambda>k. elem (rots shifts) (idx @ [i, k])) (\<lambda>k. elem (transl shifts) (idx @ [k]))
          = elem (transl shifts) (idx @ [i])" if "inb (batch shifts) idx" "i < 3" for idx i
  proof -
    from that wf_shifts have "idx = [0] \<or> idx = [1]"
      using inb_2_cases [of idx] by simp
    moreover note lt3_cases [OF that(2)]
    ultimately consider "idx = [0]" "i = 0" | "idx = [0]" "i = 1" | "idx = [0]" "i = 2"
      | "idx = [1]" "i = 0" | "idx = [1]" "i = 1" | "idx = [1]" "i = 2"
      by blast
    then show ?thesis
      by cases (simp_all add: ex_simps)
  qed
  with r'(3) have "T_eq s' c' = Inr True" by simp
  then show ?thesis
    using h r(1,2) s00 c00 ne r'(1,2) by simp
qed

section \<open>The shape property and indexing\<close>

lemma index_walk_slices2:
  "\<exists>g. index_walk [IdxSlice None None None, IdxSlice None None None] [m, n] = Inr ([m, n], g) \<and>
       (\<forall>i j. g [i, j] = [i, j])"
  by (simp add: slice_bound_def Let_def)

lemma index_walk_slices1:
  "\<exists>g. index_walk [IdxSlice None None None] [n] = Inr ([n], g) \<and> (\<forall>i. g [i] = [i])"
  by (simp add: slice_bound_def Let_def)

lemma index_walk_ints:
  assumes "list_all2 (\<lambda>i d. - int d \<le> i \<and> i < int d) js bs"
    and "index_walk rest s = Inr (s', g)"
  shows "\<exists>f. index_walk (map IdxInt js @ rest) (bs @ s) = Inr (s', f) \<and>
           (\<forall>idx. f idx = int_pos js bs @ g idx)"
  using assms(1)
proof (induction js bs rule: list_all2_induct)
  case Nil
  then show ?case by (simp add: assms(2) int_pos_def)
next
  case (Cons i js d bs)
  then obtain f where f: "index_walk (map IdxInt js @ rest) (bs @ s) = Inr (s', f)"
      "\<And>idx. f idx = int_pos js bs @ g idx"
    by blast
  from Cons(1) show ?case
    by (simp add: f int_pos_def)
qed

lemma T_getitem_ints:
  assumes "wf_T t" and js: "list_all2 (\<lambda>i d. - int d \<le> i \<and> i < int d) js (batch t)"
  shows "\<exists>u. T_getitem t (map IdxInt js) = Inr u \<and> wf_T u \<and> batch u = [] \<and>
     shape (rots u) = [3, 3] \<and> shape (transl u) = [3] \<and>
     (\<forall>i j. elem (rots u) [i, j] = elem (rots t) (int_pos js (batch t) @ [i, j])) \<and>
     (\<forall>i. elem (transl u) [i] = elem (transl t) (int_pos js (batch t) @ [i]))"
proof -
  let ?bs = "batch t"
  from assms have st: "shape (rots t) = ?bs @ [3, 3]" "shape (transl t) = ?bs @ [3]"
    by (simp_all add: wf_T_def)
  from index_walk_slices2 [of 3 3] obtain g2 where
    g2: "index_walk [IdxSlice None None None, IdxSlice None None None] [3, 3] = Inr ([3, 3], g2)"
      "\<And>i j. g2 [i, j] = [i, j]"
    by blast
  from index_walk_slices1 [of 3] obtain g1 where
    g1: "index_walk [IdxSlice None None None] [3] = Inr ([3], g1)" "\<And>i. g1 [i] = [i]"
    by blast
  from index_walk_ints [OF js g2(1)] obtain f2 where
    f2: "index_walk (map IdxInt js @ [IdxSlice None None None, IdxSlice None None None]) (?bs @ [3, 3])
           = Inr ([3, 3], f2)"
      "\<And>idx. f2 idx = int_pos js ?bs @ g2 idx"
    by blast
  from index_walk_ints [OF js g1(1)] obtain f1 where
    f1: "index_walk (map IdxInt js @ [IdxSlice None None None]) (?bs @ [3]) = Inr ([3], f1)"
      "\<And>idx. f1 idx = int_pos js ?bs @ g1 idx"
    by blast
  let ?r = "\<lparr>shape = [3, 3], elem = \<lambda>idx. elem (rots t) (f2 idx)\<rparr>"
  let ?tr = "\<lparr>shape = [3], elem = \<lambda>idx. elem (transl t) (f1 idx)\<rparr>"
  have "T_init (Some ?r) (Some ?tr) = Inr \<lparr>rots = ?r, transl = ?tr\<rparr>"
    using T_init_ok [of ?r "[]" ?tr] by simp
  then have res: "T_getitem t (map IdxInt js) = Inr \<lparr>rots = ?r, transl = ?tr\<rparr>"
    by (simp add: T_getitem_def tensor_getitem_def st f2(1) f1(1))
  have "wf_T \<lparr>rots = ?r, transl = ?tr\<rparr> \<and> batch \<lparr>rots = ?r, transl = ?tr\<rparr> = []"
    by (rule wf_T_I) simp_all
  then show ?thesis
    by (simp add: res f2(2) f1(2) g2(2) g1(2))
qed

text \<open>The example of the docstring of \<open>__getitem__\<close>: \<open>t[3, 4:6]\<close> for \<open>t\<close> of shape \<open>[10, 10]\<close>.\<close>

lemma getitem_docstring_example:
  "\<exists>u. T_getitem grid [IdxInt 3, IdxSlice (Some 4) (Some 6) None] = Inr u \<and>
     T_shape u = [2] \<and> shape (rots u) = [2, 3, 3] \<and> shape (transl u) = [2, 3] \<and>
     elem (rots u) [1, 2, 1] = elem (rots grid) [3, 5, 2, 1] \<and>
     elem (transl u) [0, 2] = elem (transl grid) [3, 4, 2]"
  by (simp add: T_getitem_def tensor_getitem_def grid_def slice_bound_def Let_def T_init_def
      T_shape_def)

text \<open>
  C10. For a well-formed transformation the shape property returns the shared batch
  dimensions when there are any, and \<open>[1]\<close> when the transformation is unbatched. Indexing
  away every batch dimension with in-range integers returns a well-formed unbatched
  transformation (rotation \<open>[3, 3]\<close>, translation \<open>[3]\<close>), whose shape property is \<open>[1]\<close>
  and not the empty shape.
\<close>

theorem shape_property:
  assumes "wf_T t"
  shows "T_shape t = (if batch t = [] then [1] else batch t) \<and>
     (\<forall>js. list_all2 (\<lambda>i d. - int d \<le> i \<and> i < int d) js (batch t) \<longrightarrow>
        (\<exists>u. T_getitem t (map IdxInt js) = Inr u \<and> wf_T u \<and> batch u = [] \<and>
           shape (rots u) = [3, 3] \<and> shape (transl u) = [3] \<and> T_shape u = [1]))"
proof (intro conjI allI impI)
  show "T_shape t = (if batch t = [] then [1] else batch t)"
    using assms by (simp add: T_shape_wf)
next
  fix js assume "list_all2 (\<lambda>i d. - int d \<le> i \<and> i < int d) js (batch t)"
  from T_getitem_ints [OF assms this] obtain u where
    u: "T_getitem t (map IdxInt js) = Inr u" "wf_T u" "batch u = []"
      "shape (rots u) = [3, 3]" "shape (transl u) = [3]"
    by blast
  from u(2,3) have "T_shape u = [1]" by (simp add: T_shape_wf)
  with u show "\<exists>u. T_getitem t (map IdxInt js) = Inr u \<and> wf_T u \<and> batch u = [] \<and>
           shape (rots u) = [3, 3] \<and> shape (transl u) = [3] \<and> T_shape u = [1]"
    by simp
qed

theorem shape_property_witness:
  "wf_T turns \<and> wf_T lone \<and> T_shape turns = [2] \<and> T_shape lone = [1] \<and>
   list_all2 (\<lambda>i d. - int d \<le> i \<and> i < int d) [1] (batch turns) \<and>
   (\<exists>u. T_getitem turns [IdxInt 1] = Inr u \<and> shape (rots u) = [3, 3] \<and> shape (transl u) = [3] \<and>
      T_shape u = [1])"
proof -
  have h: "wf_T turns" "wf_T lone"
    using wf_turns wf_lone by simp_all
  have l: "list_all2 (\<lambda>i d. - int d \<le> i \<and> i < int d) [1] (batch turns)"
    using wf_turns by simp
  from shape_property [OF h(1)] l have
    "\<exists>u. T_getitem turns (map IdxInt [1]) = Inr u \<and> wf_T u \<and> batch u = [] \<and>
           shape (rots u) = [3, 3] \<and> shape (transl u) = [3] \<and> T_shape u = [1]"
    by blast
  moreover have "T_shape turns = [2]" "T_shape lone = [1]"
    using shape_property [OF h(1)] shape_property [OF h(2)] wf_turns wf_lone by simp_all
  ultimately show ?thesis
    using h l by auto
qed

section \<open>Frames from three points\<close>

lemma unravel_snoc: "unravel (s @ [d]) n = unravel s (n div d) @ [n mod d]"
  by (simp add: unravel_def)

lemma unravel_ravel: "inb s b \<Longrightarrow> unravel s (ravel s b) = b"
proof (induction s arbitrary: b rule: rev_induct)
  case Nil
  then show ?case by (simp add: unravel_def ravel_def)
next
  case (snoc d s)
  from snoc.prems obtain c i where c: "b = c @ [i]" "inb s c" "i < d"
    by (rule inb_snoc_elim)
  have l: "length s = length c" using c(2) by (simp add: inb_length)
  show ?case
    using c(3) by (simp add: c(1) ravel_snoc [OF l] unravel_snoc snoc.IH [OF c(2)])
qed

lemma unravel_ravel_33:
  assumes "inb bs b" "i < 3" "j < 3"
  shows "unravel (bs @ [9]) (ravel (bs @ [3, 3]) (b @ [i, j])) = b @ [i * 3 + j]"
proof -
  have l: "length bs = length b" using assms(1) by (simp add: inb_length)
  have "ravel (bs @ [3, 3]) (b @ [i, j]) = (ravel bs b * 3 + i) * 3 + j"
    using ravel_snoc [of "bs @ [3]" "b @ [i]" 3 j] ravel_snoc [OF l, of 3 i] l by simp
  also have "\<dots> = ravel bs b * 9 + (i * 3 + j)" by simp
  finally have r: "ravel (bs @ [3, 3]) (b @ [i, j]) = ravel bs b * 9 + (i * 3 + j)" .
  have "i * 3 + j < 9" using assms(2,3) by simp
  then show ?thesis
    by (simp add: r unravel_snoc unravel_ravel [OF assms(1)])
qed

lemma upt_3: "[0..<3] = [0, 1, 2]"
  by (simp add: upt_rec)

lemma unbind_last_3:
  "shape t = bs @ [3] \<Longrightarrow>
   unbind_last t = Inr [\<lparr>shape = bs, elem = \<lambda>idx. elem t (idx @ [0])\<rparr>,
                        \<lparr>shape = bs, elem = \<lambda>idx. elem t (idx @ [1])\<rparr>,
                        \<lparr>shape = bs, elem = \<lambda>idx. elem t (idx @ [2])\<rparr>]"
  by (simp add: unbind_last_def upt_3)

lemma broadcast_shapes_Nil_right [simp]: "broadcast_shapes s [] = Some s"
  by (cases "rev s") (simp_all add: broadcast_shapes_def)

lemma ew2_scalar_right:
  "ew2 f (Inr a) (scalar c) = Inr \<lparr>shape = shape a, elem = \<lambda>idx. f (elem a (bidx (shape a) idx)) c\<rparr>"
  by (simp add: ew2_def scalar_def)

lemma tensor_isD: "tensor_is t s g \<Longrightarrow> shape t = s" "tensor_is t s g \<Longrightarrow> inb s idx \<Longrightarrow> elem t idx = g idx"
  by (simp_all add: tensor_is_def)

lemma ew2_is:
  assumes "tensor_is a s f" and "tensor_is b s g"
  shows "\<exists>c. ew2 h (Inr a) (Inr b) = Inr c \<and> tensor_is c s (\<lambda>idx. h (f idx) (g idx))"
  using assms by (simp add: tensor_is_def ew2_same bidx_id)

lemma ew2_is_scalar_right:
  assumes "tensor_is a s f"
  shows "\<exists>c. ew2 h (Inr a) (scalar k) = Inr c \<and> tensor_is c s (\<lambda>idx. h (f idx) k)"
  using assms by (simp add: tensor_is_def ew2_scalar_right bidx_id)

lemma ew2_is_scalar_left:
  assumes "tensor_is a s f"
  shows "\<exists>c. ew2 h (scalar k) (Inr a) = Inr c \<and> tensor_is c s (\<lambda>idx. h k (f idx))"
  using assms by (simp add: tensor_is_def ew2_scalar_left bidx_id)

lemma sqrt_is:
  assumes "tensor_is a s f"
  shows "\<exists>c. torch_sqrt (Inr a) = Inr c \<and> tensor_is c s (\<lambda>idx. sqrt (f idx))"
  using assms by (simp add: tensor_is_def torch_sqrt_def)

lemma unbind_vec:
  assumes "shape t = bs @ [3]"
  shows "\<exists>ts. unbind_last t = Inr ts \<and> vec_is ts bs (vec t)"
  by (simp add: unbind_last_3 [OF assms] vec_is_def tensor_is_def vec_def)

lemma vec_ew2:
  assumes "vec_is xs s f" and "vec_is ys s g"
  shows "\<exists>zs. sequence_res (map2 (\<lambda>c1 c2. ew2 h (Inr c1) (Inr c2)) xs ys) = Inr zs \<and>
           vec_is zs s (\<lambda>idx k. h (f idx k) (g idx k))"
proof -
  from assms(1) obtain a0 a1 a2 where a: "xs = [a0, a1, a2]" "tensor_is a0 s (\<lambda>idx. f idx 0)"
      "tensor_is a1 s (\<lambda>idx. f idx 1)" "tensor_is a2 s (\<lambda>idx. f idx 2)"
    unfolding vec_is_def by blast
  from assms(2) obtain b0 b1 b2 where b: "ys = [b0, b1, b2]" "tensor_is b0 s (\<lambda>idx. g idx 0)"
      "tensor_is b1 s (\<lambda>idx. g idx 1)" "tensor_is b2 s (\<lambda>idx. g idx 2)"
    unfolding vec_is_def by blast
  from ew2_is [OF a(2) b(2), of h] obtain c0 where
    c0: "ew2 h (Inr a0) (Inr b0) = Inr c0" "tensor_is c0 s (\<lambda>idx. h (f idx 0) (g idx 0))" by blast
  from ew2_is [OF a(3) b(3), of h] obtain c1 where
    c1: "ew2 h (Inr a1) (Inr b1) = Inr c1" "tensor_is c1 s (\<lambda>idx. h (f idx 1) (g idx 1))" by blast
  from ew2_is [OF a(4) b(4), of h] obtain c2 where
    c2: "ew2 h (Inr a2) (Inr b2) = Inr c2" "tensor_is c2 s (\<lambda>idx. h (f idx 2) (g idx 2))" by blast
  show ?thesis
    using c0(2) c1(2) c2(2) by (simp add: a(1) b(1) c0(1) c1(1) c2(1) vec_is_def)
qed

lemma vec_ew2_tensor:
  assumes "vec_is xs s f" and "tensor_is d s g"
  shows "\<exists>zs. sequence_res (map (\<lambda>c. ew2 h (Inr c) (Inr d)) xs) = Inr zs \<and>
           vec_is zs s (\<lambda>idx k. h (f idx k) (g idx))"
proof -
  from assms(1) obtain a0 a1 a2 where a: "xs = [a0, a1, a2]" "tensor_is a0 s (\<lambda>idx. f idx 0)"
      "tensor_is a1 s (\<lambda>idx. f idx 1)" "tensor_is a2 s (\<lambda>idx. f idx 2)"
    unfolding vec_is_def by blast
  from ew2_is [OF a(2) assms(2), of h] obtain c0 where
    c0: "ew2 h (Inr a0) (Inr d) = Inr c0" "tensor_is c0 s (\<lambda>idx. h (f idx 0) (g idx))" by blast
  from ew2_is [OF a(3) assms(2), of h] obtain c1 where
    c1: "ew2 h (Inr a1) (Inr d) = Inr c1" "tensor_is c1 s (\<lambda>idx. h (f idx 1) (g idx))" by blast
  from ew2_is [OF a(4) assms(2), of h] obtain c2 where
    c2: "ew2 h (Inr a2) (Inr d) = Inr c2" "tensor_is c2 s (\<lambda>idx. h (f idx 2) (g idx))" by blast
  show ?thesis
    using c0(2) c1(2) c2(2) by (simp add: a(1) c0(1) c1(1) c2(1) vec_is_def)
qed

lemma vec_dot:
  assumes "vec_is xs s f" and "vec_is ys s g"
  shows "\<exists>d. py_sum (map2 (\<lambda>c1 c2. tmul (Inr c1) (Inr c2)) xs ys) = Inr d \<and>
           tensor_is d s (\<lambda>idx. dot3 (f idx) (g idx))"
proof -
  from assms(1) obtain a0 a1 a2 where a: "xs = [a0, a1, a2]" "tensor_is a0 s (\<lambda>idx. f idx 0)"
      "tensor_is a1 s (\<lambda>idx. f idx 1)" "tensor_is a2 s (\<lambda>idx. f idx 2)"
    unfolding vec_is_def by blast
  from assms(2) obtain b0 b1 b2 where b: "ys = [b0, b1, b2]" "tensor_is b0 s (\<lambda>idx. g idx 0)"
      "tensor_is b1 s (\<lambda>idx. g idx 1)" "tensor_is b2 s (\<lambda>idx. g idx 2)"
    unfolding vec_is_def by blast
  from ew2_is [OF a(2) b(2)] obtain c0 where
    c0: "tmul (Inr a0) (Inr b0) = Inr c0" "tensor_is c0 s (\<lambda>idx. f idx 0 * g idx 0)"
    unfolding tmul_def by blast
  from ew2_is [OF a(3) b(3)] obtain c1 where
    c1: "tmul (Inr a1) (Inr b1) = Inr c1" "tensor_is c1 s (\<lambda>idx. f idx 1 * g idx 1)"
    unfolding tmul_def by blast
  from ew2_is [OF a(4) b(4)] obtain c2 where
    c2: "tmul (Inr a2) (Inr b2) = Inr c2" "tensor_is c2 s (\<lambda>idx. f idx 2 * g idx 2)"
    unfolding tmul_def by blast
  from ew2_is_scalar_left [OF c0(2)] obtain s0 where
    s0: "tadd (scalar 0) (Inr c0) = Inr s0" "tensor_is s0 s (\<lambda>idx. 0 + f idx 0 * g idx 0)"
    unfolding tadd_def by blast
  from ew2_is [OF s0(2) c1(2)] obtain s1 where
    s1: "tadd (Inr s0) (Inr c1) = Inr s1"
      "tensor_is s1 s (\<lambda>idx. 0 + f idx 0 * g idx 0 + f idx 1 * g idx 1)"
    unfolding tadd_def by blast
  from ew2_is [OF s1(2) c2(2)] obtain s2 where
    s2: "tadd (Inr s1) (Inr c2) = Inr s2"
      "tensor_is s2 s (\<lambda>idx. 0 + f idx 0 * g idx 0 + f idx 1 * g idx 1 + f idx 2 * g idx 2)"
    unfolding tadd_def by blast
  show ?thesis
    using s2(2) by (simp add: a(1) b(1) py_sum_def c0(1) c1(1) c2(1) s0(1) s1(1) s2(1) dot3_def)
qed

lemma vec_not_Nil: "vec_is xs s f \<Longrightarrow> xs \<noteq> []"
  by (auto simp: vec_is_def)

lemma map_is_map2: "map (\<lambda>c. h c c) xs = map2 h xs xs"
  by (induction xs) simp_all

lemma vec_denom:
  assumes "vec_is xs s f"
  shows "\<exists>d. torch_sqrt (tadd (py_sum (map (\<lambda>c. tmul (Inr c) (Inr c)) xs)) (scalar eps)) = Inr d \<and>
           tensor_is d s (\<lambda>idx. sqrt (dot3 (f idx) (f idx) + eps))"
proof -
  from vec_dot [OF assms assms] obtain q where
    q: "py_sum (map (\<lambda>c. tmul (Inr c) (Inr c)) xs) = Inr q" "tensor_is q s (\<lambda>idx. dot3 (f idx) (f idx))"
    unfolding map_is_map2 [of "\<lambda>c1 c2. tmul (Inr c1) (Inr c2)"] by blast
  from ew2_is_scalar_right [OF q(2)] obtain r where
    r: "tadd (Inr q) (scalar eps) = Inr r" "tensor_is r s (\<lambda>idx. dot3 (f idx) (f idx) + eps)"
    unfolding tadd_def by blast
  from sqrt_is [OF r(2)] show ?thesis
    by (simp add: q(1) r(1))
qed

lemma vec_project:
  assumes "vec_is xs s f" and "vec_is ys s g" and d: "tensor_is d s q"
  shows "\<exists>zs. sequence_res (map2 (\<lambda>c1 c2. tsub (Inr c2) (tmul (Inr c1) (Inr d))) xs ys) = Inr zs \<and>
           vec_is zs s (\<lambda>idx k. g idx k - f idx k * q idx)"
proof -
  from assms(1) obtain a0 a1 a2 where a: "xs = [a0, a1, a2]" "tensor_is a0 s (\<lambda>idx. f idx 0)"
      "tensor_is a1 s (\<lambda>idx. f idx 1)" "tensor_is a2 s (\<lambda>idx. f idx 2)"
    unfolding vec_is_def by blast
  from assms(2) obtain b0 b1 b2 where b: "ys = [b0, b1, b2]" "tensor_is b0 s (\<lambda>idx. g idx 0)"
      "tensor_is b1 s (\<lambda>idx. g idx 1)" "tensor_is b2 s (\<lambda>idx. g idx 2)"
    unfolding vec_is_def by blast
  have pr: "\<exists>c. tsub (Inr v) (tmul (Inr u) (Inr d)) = Inr c \<and>
              tensor_is c s (\<lambda>idx. fv idx - fu idx * q idx)"
    if "tensor_is u s fu" "tensor_is v s fv" for u v fu fv
  proof -
    from ew2_is [OF that(1) d] obtain m where
      m: "tmul (Inr u) (Inr d) = Inr m" "tensor_is m s (\<lambda>idx. fu idx * q idx)"
      unfolding tmul_def by blast
    from ew2_is [OF that(2) m(2)] show ?thesis
      unfolding tsub_def m(1) by blast
  qed
  from pr [OF a(2) b(2)] obtain c0 where
    c0: "tsub (Inr b0) (tmul (Inr a0) (Inr d)) = Inr c0"
      "tensor_is c0 s (\<lambda>idx. g idx 0 - f idx 0 * q idx)" by blast
  from pr [OF a(3) b(3)] obtain c1 where
    c1: "tsub (Inr b1) (tmul (Inr a1) (Inr d)) = Inr c1"
      "tensor_is c1 s (\<lambda>idx. g idx 1 - f idx 1 * q idx)" by blast
  from pr [OF a(4) b(4)] obtain c2 where
    c2: "tsub (Inr b2) (tmul (Inr a2) (Inr d)) = Inr c2"
      "tensor_is c2 s (\<lambda>idx. g idx 2 - f idx 2 * q idx)" by blast
  show ?thesis
    using c0(2) c1(2) c2(2) by (simp add: a(1) b(1) c0(1) c1(1) c2(1) vec_is_def)
qed

lemma vec_cross:
  assumes "vec_is xs s f" and "vec_is ys s g"
  shows "\<exists>zs. sequence_res
          [tsub (tmul (list_get xs 1) (list_get ys 2)) (tmul (list_get xs 2) (list_get ys 1)),
           tsub (tmul (list_get xs 2) (list_get ys 0)) (tmul (list_get xs 0) (list_get ys 2)),
           tsub (tmul (list_get xs 0) (list_get ys 1)) (tmul (list_get xs 1) (list_get ys 0))] = Inr zs \<and>
        vec_is zs s (\<lambda>idx. cross3 (f idx) (g idx))"
proof -
  from assms(1) obtain a0 a1 a2 where a: "xs = [a0, a1, a2]" "tensor_is a0 s (\<lambda>idx. f idx 0)"
      "tensor_is a1 s (\<lambda>idx. f idx 1)" "tensor_is a2 s (\<lambda>idx. f idx 2)"
    unfolding vec_is_def by blast
  from assms(2) obtain b0 b1 b2 where b: "ys = [b0, b1, b2]" "tensor_is b0 s (\<lambda>idx. g idx 0)"
      "tensor_is b1 s (\<lambda>idx. g idx 1)" "tensor_is b2 s (\<lambda>idx. g idx 2)"
    unfolding vec_is_def by blast
  have pr: "\<exists>c. tsub (tmul (Inr u) (Inr v)) (tmul (Inr w) (Inr z)) = Inr c \<and>
              tensor_is c s (\<lambda>idx. fu idx * fv idx - fw idx * fz idx)"
    if "tensor_is u s fu" "tensor_is v s fv" "tensor_is w s fw" "tensor_is z s fz"
    for u v w z fu fv fw fz
  proof -
    from ew2_is [OF that(1,2)] obtain m1 where
      m1: "tmul (Inr u) (Inr v) = Inr m1" "tensor_is m1 s (\<lambda>idx. fu idx * fv idx)"
      unfolding tmul_def by blast
    from ew2_is [OF that(3,4)] obtain m2 where
      m2: "tmul (Inr w) (Inr z) = Inr m2" "tensor_is m2 s (\<lambda>idx. fw idx * fz idx)"
      unfolding tmul_def by blast
    from ew2_is [OF m1(2) m2(2)] show ?thesis
      unfolding tsub_def m1(1) m2(1) by blast
  qed
  from pr [OF a(3) b(4) a(4) b(3)] obtain c0 where
    c0: "tsub (tmul (Inr a1) (Inr b2)) (tmul (Inr a2) (Inr b1)) = Inr c0"
      "tensor_is c0 s (\<lambda>idx. f idx 1 * g idx 2 - f idx 2 * g idx 1)" by blast
  from pr [OF a(4) b(2) a(2) b(4)] obtain c1 where
    c1: "tsub (tmul (Inr a2) (Inr b0)) (tmul (Inr a0) (Inr b2)) = Inr c1"
      "tensor_is c1 s (\<lambda>idx. f idx 2 * g idx 0 - f idx 0 * g idx 2)" by blast
  from pr [OF a(2) b(3) a(3) b(2)] obtain c2 where
    c2: "tsub (tmul (Inr a0) (Inr b1)) (tmul (Inr a1) (Inr b0)) = Inr c2"
      "tensor_is c2 s (\<lambda>idx. f idx 0 * g idx 1 - f idx 1 * g idx 0)" by blast
  show ?thesis
    using c0(2) c1(2) c2(2)
    by (simp add: a(1) b(1) list_get_def c0(1) c1(1) c2(1) vec_is_def cross3_def)
qed

lemma vec_stack:
  assumes "vec_is xs s f"
  shows "\<exists>t. stack_last (map Inr xs) = Inr t \<and> shape t = s @ [3] \<and>
           (\<forall>b i. inb s b \<longrightarrow> i < 3 \<longrightarrow> elem t (b @ [i]) = f b i)"
proof -
  from assms obtain a0 a1 a2 where a: "xs = [a0, a1, a2]" "tensor_is a0 s (\<lambda>idx. f idx 0)"
      "tensor_is a1 s (\<lambda>idx. f idx 1)" "tensor_is a2 s (\<lambda>idx. f idx 2)"
    unfolding vec_is_def by blast
  show ?thesis
    apply (simp add: a(1) stack_last_def tensor_isD(1) [OF a(2)] tensor_isD(1) [OF a(3)]
        tensor_isD(1) [OF a(4)])
    apply (intro allI impI)
    subgoal for b i
      using lt3_cases [of i] tensor_isD(2) [OF a(2), of b] tensor_isD(2) [OF a(3), of b]
        tensor_isD(2) [OF a(4), of b]
      by auto
    done
qed

lemma frame_stack:
  assumes "vec_is xs s f" and "vec_is ys s g" and "vec_is zs s h"
  shows "\<exists>r0 r1. stack_last (map Inr (concat (map (\<lambda>(a, b, c). [a, b, c]) (zip xs (zip ys zs))))) = Inr r0 \<and>
           reshape r0 (butlast (shape r0) @ [3, 3]) = Inr r1 \<and> shape r1 = s @ [3, 3] \<and>
           (\<forall>b i. inb s b \<longrightarrow> i < 3 \<longrightarrow>
              elem r1 (b @ [i, 0]) = f b i \<and> elem r1 (b @ [i, 1]) = g b i \<and> elem r1 (b @ [i, 2]) = h b i)"
proof -
  from assms(1) obtain a0 a1 a2 where a: "xs = [a0, a1, a2]" "tensor_is a0 s (\<lambda>idx. f idx 0)"
      "tensor_is a1 s (\<lambda>idx. f idx 1)" "tensor_is a2 s (\<lambda>idx. f idx 2)"
    unfolding vec_is_def by blast
  from assms(2) obtain b0 b1 b2 where b: "ys = [b0, b1, b2]" "tensor_is b0 s (\<lambda>idx. g idx 0)"
      "tensor_is b1 s (\<lambda>idx. g idx 1)" "tensor_is b2 s (\<lambda>idx. g idx 2)"
    unfolding vec_is_def by blast
  from assms(3) obtain c0 c1 c2 where c: "zs = [c0, c1, c2]" "tensor_is c0 s (\<lambda>idx. h idx 0)"
      "tensor_is c1 s (\<lambda>idx. h idx 1)" "tensor_is c2 s (\<lambda>idx. h idx 2)"
    unfolding vec_is_def by blast
  let ?ts = "[a0, b0, c0, a1, b1, c1, a2, b2, c2]"
  let ?r0 = "\<lparr>shape = s @ [9],
      elem = \<lambda>idx. if idx \<noteq> [] \<and> last idx < length ?ts then elem (?ts ! last idx) (butlast idx) else 0\<rparr>"
  have sh: "shape a0 = s" "shape a1 = s" "shape a2 = s" "shape b0 = s" "shape b1 = s" "shape b2 = s"
      "shape c0 = s" "shape c1 = s" "shape c2 = s"
    using a b c by (simp_all add: tensor_is_def)
  have r0: "stack_last (map Inr (concat (map (\<lambda>(a, b, c). [a, b, c]) (zip xs (zip ys zs))))) = Inr ?r0"
    by (simp add: a(1) b(1) c(1) stack_last_def sh)
  let ?r1 = "\<lparr>shape = s @ [3, 3], elem = \<lambda>idx. elem ?r0 (unravel (s @ [9]) (ravel (s @ [3, 3]) idx))\<rparr>"
  have r1: "reshape ?r0 (butlast (shape ?r0) @ [3, 3]) = Inr ?r1"
    by (simp add: reshape_def)
  have el: "elem ?r1 (b @ [i, j]) = elem (?ts ! (i * 3 + j)) b" if "inb s b" "i < 3" "j < 3" for b i j
  proof -
    have "i * 3 + j < 9" using that(2,3) by simp
    then show ?thesis
      using unravel_ravel_33 [OF that] by simp
  qed
  have "elem ?r1 (b @ [i, 0]) = f b i \<and> elem ?r1 (b @ [i, 1]) = g b i \<and> elem ?r1 (b @ [i, 2]) = h b i"
    if "inb s b" "i < 3" for b i
  proof -
    note e = el [OF that, of 0] el [OF that, of 1] el [OF that, of 2]
    note v = tensor_isD(2) [OF a(2) that(1)] tensor_isD(2) [OF a(3) that(1)] tensor_isD(2) [OF a(4) that(1)]
      tensor_isD(2) [OF b(2) that(1)] tensor_isD(2) [OF b(3) that(1)] tensor_isD(2) [OF b(4) that(1)]
      tensor_isD(2) [OF c(2) that(1)] tensor_isD(2) [OF c(3) that(1)] tensor_isD(2) [OF c(4) that(1)]
    from lt3_cases [OF that(2)] show ?thesis
    proof (elim disjE)
      assume "i = 0" with e v show ?thesis by simp
    next
      assume "i = 1" with e v show ?thesis by simp
    next
      assume "i = 2" with e v show ?thesis by simp
    qed
  qed
  then show ?thesis
    unfolding r0 using r1 by (intro exI [of _ ?r0] exI [of _ ?r1]) simp
qed

lemma from_3_points_ok:
  assumes x: "shape x = bs @ [3]" and o: "shape orig = bs @ [3]" and p: "shape p = bs @ [3]"
  shows "\<exists>t. from_3_points x orig p eps = Inr t \<and> wf_T t \<and> batch t = bs \<and>
     (\<forall>b i. inb bs b \<longrightarrow> i < 3 \<longrightarrow> elem (transl t) (b @ [i]) = elem orig (b @ [i])) \<and>
     (\<forall>b i. inb bs b \<longrightarrow> i < 3 \<longrightarrow>
        elem (rots t) (b @ [i, 0]) = frame_e0 (vec x b) (vec orig b) eps i \<and>
        elem (rots t) (b @ [i, 1]) = frame_e1 (vec x b) (vec orig b) (vec p b) eps i \<and>
        elem (rots t) (b @ [i, 2]) = frame_e2 (vec x b) (vec orig b) (vec p b) eps i)"
proof -
  define E0 where "E0 = (\<lambda>idx. frame_e0 (vec x idx) (vec orig idx) eps)"
  define E1 where "E1 = (\<lambda>idx. frame_e1 (vec x idx) (vec orig idx) (vec p idx) eps)"
  define E2 where "E2 = (\<lambda>idx. frame_e2 (vec x idx) (vec orig idx) (vec p idx) eps)"
  define U where "U = (\<lambda>idx k. vec p idx k - vec orig idx k)"
  define W where "W = (\<lambda>idx k. U idx k - E0 idx k * dot3 (E0 idx) (U idx))"
  from unbind_vec [OF x] obtain xs where xs: "unbind_last x = Inr xs" "vec_is xs bs (vec x)" by blast
  from unbind_vec [OF o] obtain os where os: "unbind_last orig = Inr os" "vec_is os bs (vec orig)" by blast
  from unbind_vec [OF p] obtain ps where ps: "unbind_last p = Inr ps" "vec_is ps bs (vec p)" by blast
  from vec_ew2 [OF os(2) xs(2), of "\<lambda>x y. x - y"] obtain e0a where
    e0a: "sequence_res (map2 (\<lambda>c1 c2. tsub (Inr c1) (Inr c2)) os xs) = Inr e0a"
      "vec_is e0a bs (\<lambda>idx k. vec orig idx k - vec x idx k)"
    unfolding tsub_def by blast
  from vec_ew2 [OF ps(2) os(2), of "\<lambda>x y. x - y"] obtain e1a where
    e1a: "sequence_res (map2 (\<lambda>c1 c2. tsub (Inr c1) (Inr c2)) ps os) = Inr e1a" "vec_is e1a bs U"
    unfolding tsub_def U_def by blast
  from vec_denom [OF e0a(2), of eps] obtain d0 where
    d0: "torch_sqrt (tadd (py_sum (map (\<lambda>c. tmul (Inr c) (Inr c)) e0a)) (scalar eps)) = Inr d0"
      "tensor_is d0 bs (\<lambda>idx. sqrt (dot3 (\<lambda>k. vec orig idx k - vec x idx k)
                                          (\<lambda>k. vec orig idx k - vec x idx k) + eps))"
    by blast
  from vec_ew2_tensor [OF e0a(2) d0(2), of "\<lambda>x y. x / y"] obtain e0 where
    e0: "sequence_res (map (\<lambda>c. tdiv (Inr c) (Inr d0)) e0a) = Inr e0" "vec_is e0 bs E0"
    unfolding tdiv_def E0_def frame_e0_def normalize_eps_def by blast
  from vec_dot [OF e0(2) e1a(2)] obtain dt where
    dt: "py_sum (map2 (\<lambda>c1 c2. tmul (Inr c1) (Inr c2)) e0 e1a) = Inr dt"
      "tensor_is dt bs (\<lambda>idx. dot3 (E0 idx) (U idx))"
    by blast
  from vec_project [OF e0(2) e1a(2) dt(2)] obtain e1b where
    e1b: "sequence_res (map2 (\<lambda>c1 c2. tsub (Inr c2) (tmul (Inr c1) (Inr dt))) e0 e1a) = Inr e1b"
      "vec_is e1b bs W"
    unfolding W_def by blast
  from vec_denom [OF e1b(2), of eps] obtain d1 where
    d1: "torch_sqrt (tadd (py_sum (map (\<lambda>c. tmul (Inr c) (Inr c)) e1b)) (scalar eps)) = Inr d1"
      "tensor_is d1 bs (\<lambda>idx. sqrt (dot3 (W idx) (W idx) + eps))"
    by blast
  have E1: "E1 = (\<lambda>idx k. W idx k / sqrt (dot3 (W idx) (W idx) + eps))"
    by (simp add: E1_def frame_e1_def Let_def normalize_eps_def W_def U_def E0_def)
  from vec_ew2_tensor [OF e1b(2) d1(2), of "\<lambda>x y. x / y"] obtain e1 where
    e1: "sequence_res (map (\<lambda>c. tdiv (Inr c) (Inr d1)) e1b) = Inr e1" "vec_is e1 bs E1"
    unfolding tdiv_def E1 by blast
  have E2: "E2 = (\<lambda>idx. cross3 (E0 idx) (E1 idx))"
    by (simp add: E2_def frame_e2_def E0_def E1_def)
  from vec_cross [OF e0(2) e1(2)] obtain e2 where
    e2: "sequence_res
          [tsub (tmul (list_get e0 1) (list_get e1 2)) (tmul (list_get e0 2) (list_get e1 1)),
           tsub (tmul (list_get e0 2) (list_get e1 0)) (tmul (list_get e0 0) (list_get e1 2)),
           tsub (tmul (list_get e0 0) (list_get e1 1)) (tmul (list_get e0 1) (list_get e1 0))] = Inr e2"
      "vec_is e2 bs E2"
    unfolding E2 by blast
  from frame_stack [OF e0(2) e1(2) e2(2)] obtain r0 r1 where
    r: "stack_last (map Inr (concat (map (\<lambda>(a, b, c). [a, b, c]) (zip e0 (zip e1 e2))))) = Inr r0"
      "reshape r0 (butlast (shape r0) @ [3, 3]) = Inr r1" "shape r1 = bs @ [3, 3]"
      "\<And>b i. inb bs b \<Longrightarrow> i < 3 \<Longrightarrow>
         elem r1 (b @ [i, 0]) = E0 b i \<and> elem r1 (b @ [i, 1]) = E1 b i \<and> elem r1 (b @ [i, 2]) = E2 b i"
    by blast
  from vec_stack [OF os(2)] obtain tr where
    tr: "stack_last (map Inr os) = Inr tr" "shape tr = bs @ [3]"
      "\<And>b i. inb bs b \<Longrightarrow> i < 3 \<Longrightarrow> elem tr (b @ [i]) = vec orig b i"
    by blast
  have ne: "e0a \<noteq> []" "e1b \<noteq> []"
    using vec_not_Nil [OF e0a(2)] vec_not_Nil [OF e1b(2)] by simp_all
  have res: "from_3_points x orig p eps = Inr \<lparr>rots = r1, transl = tr\<rparr>"
    unfolding from_3_points_def
    by (simp only: xs(1) os(1) ps(1) e0a(1) e1a(1) d0(1) e0(1) dt(1) e1b(1) d1(1) e1(1) e2(1)
        r(1,2) tr(1) ebind_Inr ne if_False T_init_ok [OF r(3) tr(2)])
  have "wf_T \<lparr>rots = r1, transl = tr\<rparr> \<and> batch \<lparr>rots = r1, transl = tr\<rparr> = bs"
    by (rule wf_T_I) (simp_all add: r(3) tr(2))
  then show ?thesis
    unfolding res using r(4) tr(3)
    by (simp add: E0_def E1_def E2_def vec_def)
qed

lemma inv_sqrt_bounds:
  fixes e :: real
  assumes "0 < e"
  shows "1 - e < 1 / sqrt (1 + e)" and "1 / sqrt (1 + e) < 1"
proof -
  have s1: "1 < sqrt (1 + e)" using assms by simp
  have "1 + e \<le> (1 + e)\<^sup>2" using assms by (simp add: power2_eq_square algebra_simps)
  then have s2: "sqrt (1 + e) \<le> 1 + e" using assms by (intro real_le_lsqrt) simp_all
  show "1 / sqrt (1 + e) < 1" using s1 by simp
  have "(1 - e) * (1 + e) < 1" using assms by (simp add: algebra_simps)
  then have "1 - e < 1 / (1 + e)" using assms by (simp add: pos_less_divide_eq)
  also have "1 / (1 + e) \<le> 1 / sqrt (1 + e)"
    using s1 s2 by (intro divide_left_mono) simp_all
  finally show "1 - e < 1 / sqrt (1 + e)" .
qed

lemma example_frame:
  "\<exists>t. from_3_points point_A point_B point_C eps_default = Inr t \<and> batch t = [] \<and>
     elem (transl t) [0] = 0 \<and> elem (transl t) [1] = 0 \<and> elem (transl t) [2] = 0 \<and>
     elem (rots t) [0, 0] = - 1 / sqrt (1 + eps_default) \<and>
     elem (rots t) [1, 0] = 0 \<and> elem (rots t) [2, 0] = 0 \<and>
     elem (rots t) [0, 1] = 0 \<and> elem (rots t) [1, 1] = 1 / sqrt (1 + eps_default) \<and>
     elem (rots t) [2, 1] = 0 \<and>
     elem (rots t) [0, 2] = 0 \<and> elem (rots t) [1, 2] = 0 \<and>
     elem (rots t) [2, 2] = - 1 / (1 + eps_default)"
proof -
  have sh: "shape point_A = [] @ [3]" "shape point_B = [] @ [3]" "shape point_C = [] @ [3]"
    by (simp_all add: point_A_def point_B_def point_C_def tensor_of_def)
  from from_3_points_ok [OF sh, of eps_default] obtain t where
    t: "from_3_points point_A point_B point_C eps_default = Inr t" "batch t = []"
      "\<And>i. i < 3 \<Longrightarrow> elem (transl t) [i] = elem point_B [i]"
      "\<And>i. i < 3 \<Longrightarrow>
        elem (rots t) [i, 0] = frame_e0 (vec point_A []) (vec point_B []) eps_default i \<and>
        elem (rots t) [i, 1] = frame_e1 (vec point_A []) (vec point_B []) (vec point_C []) eps_default i \<and>
        elem (rots t) [i, 2] = frame_e2 (vec point_A []) (vec point_B []) (vec point_C []) eps_default i"
    by force
  have va: "vec point_A [] 0 = 1" "vec point_A [] 1 = 0" "vec point_A [] 2 = 0"
    and vb: "vec point_B [] 0 = 0" "vec point_B [] 1 = 0" "vec point_B [] 2 = 0"
    and vc: "vec point_C [] 0 = 0" "vec point_C [] 1 = 1" "vec point_C [] 2 = 0"
    by (simp_all add: vec_def point_A_def point_B_def point_C_def elem_tensor_of ravel_def)
  have pos: "0 < 1 + eps_default" by (simp add: eps_default_def)
  have e0: "frame_e0 (vec point_A []) (vec point_B []) eps_default 0 = - 1 / sqrt (1 + eps_default)"
      "frame_e0 (vec point_A []) (vec point_B []) eps_default 1 = 0"
      "frame_e0 (vec point_A []) (vec point_B []) eps_default 2 = 0"
    by (simp_all add: frame_e0_def normalize_eps_def dot3_def va vb del: One_nat_def)
  have e1: "frame_e1 (vec point_A []) (vec point_B []) (vec point_C []) eps_default 0 = 0"
      "frame_e1 (vec point_A []) (vec point_B []) (vec point_C []) eps_default 1 = 1 / sqrt (1 + eps_default)"
      "frame_e1 (vec point_A []) (vec point_B []) (vec point_C []) eps_default 2 = 0"
    by (simp_all add: frame_e1_def Let_def e0 normalize_eps_def dot3_def vb vc del: One_nat_def)
  have sq: "\<bar>1 + eps_default\<bar> = 1 + eps_default"
    using pos by simp
  have e2: "frame_e2 (vec point_A []) (vec point_B []) (vec point_C []) eps_default 0 = 0"
      "frame_e2 (vec point_A []) (vec point_B []) (vec point_C []) eps_default 1 = 0"
      "frame_e2 (vec point_A []) (vec point_B []) (vec point_C []) eps_default 2 = - 1 / (1 + eps_default)"
    by (simp_all add: frame_e2_def cross3_def e0 e1 sq del: One_nat_def)
  have pb: "elem point_B [0] = 0" "elem point_B [1] = 0" "elem point_B [2] = 0"
    by (simp_all add: point_B_def elem_tensor_of ravel_def)
  show ?thesis
    using t(1,2) t(3) [of 0] t(3) [of 1] t(3) [of 2] t(4) [of 0] t(4) [of 1] t(4) [of 2]
    by (simp add: e0 e1 e2 pb del: One_nat_def)
qed

text \<open>
  C5. For points of a common shape \<open>bs @ [3]\<close>, \<open>from_3_points\<close> returns a well-formed
  transformation whose translation is \<open>origin\<close> and whose rotation has, at every batch
  index, the columns \<open>frame_e0\<close> (\<open>origin - p_neg_x_axis\<close> normalised with \<open>eps\<close> inside
  the square root), \<open>frame_e1\<close> (\<open>p_xy_plane - origin\<close> made orthogonal to the first and
  normalised) and \<open>frame_e2\<close> (their cross product). For \<open>A = (1, 0, 0)\<close>,
  \<open>B = (0, 0, 0)\<close>, \<open>C = (0, 1, 0)\<close> and the default \<open>eps\<close> the translation is zero, the
  first column is \<open>(-1, 0, 0)\<close> to within \<open>1e-8\<close>, the columns are pairwise orthogonal and
  their squared lengths are 1 to within \<open>1e-7\<close>.
\<close>

theorem from_3_points_frame:
  assumes "shape x = bs @ [3]" and "shape orig = bs @ [3]" and "shape p = bs @ [3]"
  shows "(\<exists>t. from_3_points x orig p eps = Inr t \<and> wf_T t \<and> batch t = bs \<and>
     (\<forall>b i. inb bs b \<longrightarrow> i < 3 \<longrightarrow> elem (transl t) (b @ [i]) = elem orig (b @ [i])) \<and>
     (\<forall>b i. inb bs b \<longrightarrow> i < 3 \<longrightarrow>
        elem (rots t) (b @ [i, 0]) = frame_e0 (vec x b) (vec orig b) eps i \<and>
        elem (rots t) (b @ [i, 1]) = frame_e1 (vec x b) (vec orig b) (vec p b) eps i \<and>
        elem (rots t) (b @ [i, 2]) = frame_e2 (vec x b) (vec orig b) (vec p b) eps i)) \<and>
   (\<exists>t. from_3_points point_A point_B point_C eps_default = Inr t \<and>
     elem (transl t) [0] = 0 \<and> elem (transl t) [1] = 0 \<and> elem (transl t) [2] = 0 \<and>
     \<bar>elem (rots t) [0, 0] - (- 1)\<bar> < 1 / 10 ^ 8 \<and>
     elem (rots t) [1, 0] = 0 \<and> elem (rots t) [2, 0] = 0 \<and>
     dot3 (\<lambda>k. elem (rots t) [k, 0]) (\<lambda>k. elem (rots t) [k, 1]) = 0 \<and>
     dot3 (\<lambda>k. elem (rots t) [k, 0]) (\<lambda>k. elem (rots t) [k, 2]) = 0 \<and>
     dot3 (\<lambda>k. elem (rots t) [k, 1]) (\<lambda>k. elem (rots t) [k, 2]) = 0 \<and>
     \<bar>dot3 (\<lambda>k. elem (rots t) [k, 0]) (\<lambda>k. elem (rots t) [k, 0]) - 1\<bar> < 1 / 10 ^ 7 \<and>
     \<bar>dot3 (\<lambda>k. elem (rots t) [k, 1]) (\<lambda>k. elem (rots t) [k, 1]) - 1\<bar> < 1 / 10 ^ 7 \<and>
     \<bar>dot3 (\<lambda>k. elem (rots t) [k, 2]) (\<lambda>k. elem (rots t) [k, 2]) - 1\<bar> < 1 / 10 ^ 7)"
proof (rule conjI)
  show "\<exists>t. from_3_points x orig p eps = Inr t \<and> wf_T t \<and> batch t = bs \<and>
     (\<forall>b i. inb bs b \<longrightarrow> i < 3 \<longrightarrow> elem (transl t) (b @ [i]) = elem orig (b @ [i])) \<and>
     (\<forall>b i. inb bs b \<longrightarrow> i < 3 \<longrightarrow>
        elem (rots t) (b @ [i, 0]) = frame_e0 (vec x b) (vec orig b) eps i \<and>
        elem (rots t) (b @ [i, 1]) = frame_e1 (vec x b) (vec orig b) (vec p b) eps i \<and>
        elem (rots t) (b @ [i, 2]) = frame_e2 (vec x b) (vec orig b) (vec p b) eps i)"
    by (rule from_3_points_ok [OF assms])
next
  from example_frame obtain t where
    t: "from_3_points point_A point_B point_C eps_default = Inr t"
      "elem (transl t) [0] = 0" "elem (transl t) [1] = 0" "elem (transl t) [2] = 0"
      "elem (rots t) [0, 0] = - 1 / sqrt (1 + eps_default)"
      "elem (rots t) [1, 0] = 0" "elem (rots t) [2, 0] = 0"
      "elem (rots t) [0, 1] = 0" "elem (rots t) [1, 1] = 1 / sqrt (1 + eps_default)"
      "elem (rots t) [2, 1] = 0"
      "elem (rots t) [0, 2] = 0" "elem (rots t) [1, 2] = 0"
      "elem (rots t) [2, 2] = - 1 / (1 + eps_default)"
    by blast
  have e: "0 < eps_default" by (simp add: eps_default_def)
  note b = inv_sqrt_bounds [OF e]
  have near: "\<bar>elem (rots t) [0, 0] - (- 1)\<bar> < 1 / 10 ^ 8"
    using b by (simp add: t(5) eps_default_def abs_if)
  have sq: "1 / sqrt (1 + eps_default) * (1 / sqrt (1 + eps_default)) = 1 / (1 + eps_default)"
    using e by simp
  have d00: "dot3 (\<lambda>k. elem (rots t) [k, 0]) (\<lambda>k. elem (rots t) [k, 0]) = 1 / (1 + eps_default)"
    using sq by (simp add: dot3_def t del: One_nat_def)
  have d11: "dot3 (\<lambda>k. elem (rots t) [k, 1]) (\<lambda>k. elem (rots t) [k, 1]) = 1 / (1 + eps_default)"
    using sq by (simp add: dot3_def t del: One_nat_def)
  have d22: "dot3 (\<lambda>k. elem (rots t) [k, 2]) (\<lambda>k. elem (rots t) [k, 2])
      = 1 / ((1 + eps_default) * (1 + eps_default))"
    by (simp add: dot3_def t del: One_nat_def)
  have u0: "\<bar>1 / (1 + eps_default) - 1\<bar> < 1 / 10 ^ 7"
    by (simp add: eps_default_def)
  have u2: "\<bar>1 / ((1 + eps_default) * (1 + eps_default)) - 1\<bar> < 1 / 10 ^ 7"
    by (simp add: eps_default_def)
  have o: "dot3 (\<lambda>k. elem (rots t) [k, 0]) (\<lambda>k. elem (rots t) [k, 1]) = 0"
      "dot3 (\<lambda>k. elem (rots t) [k, 0]) (\<lambda>k. elem (rots t) [k, 2]) = 0"
      "dot3 (\<lambda>k. elem (rots t) [k, 1]) (\<lambda>k. elem (rots t) [k, 2]) = 0"
    by (simp_all add: dot3_def t del: One_nat_def)
  show "\<exists>t. from_3_points point_A point_B point_C eps_default = Inr t \<and>
     elem (transl t) [0] = 0 \<and> elem (transl t) [1] = 0 \<and> elem (transl t) [2] = 0 \<and>
     \<bar>elem (rots t) [0, 0] - (- 1)\<bar> < 1 / 10 ^ 8 \<and>
     elem (rots t) [1, 0] = 0 \<and> elem (rots t) [2, 0] = 0 \<and>
     dot3 (\<lambda>k. elem (rots t) [k, 0]) (\<lambda>k. elem (rots t) [k, 1]) = 0 \<and>
     dot3 (\<lambda>k. elem (rots t) [k, 0]) (\<lambda>k. elem (rots t) [k, 2]) = 0 \<and>
     dot3 (\<lambda>k. elem (rots t) [k, 1]) (\<lambda>k. elem (rots t) [k, 2]) = 0 \<and>
     \<bar>dot3 (\<lambda>k. elem (rots t) [k, 0]) (\<lambda>k. elem (rots t) [k, 0]) - 1\<bar> < 1 / 10 ^ 7 \<and>
     \<bar>dot3 (\<lambda>k. elem (rots t) [k, 1]) (\<lambda>k. elem (rots t) [k, 1]) - 1\<bar> < 1 / 10 ^ 7 \<and>
     \<bar>dot3 (\<lambda>k. elem (rots t) [k, 2]) (\<lambda>k. elem (rots t) [k, 2]) - 1\<bar> < 1 / 10 ^ 7"
    apply (rule exI [of _ t])
    using t(1-4,6,7) near o u0 u2 unfolding d00 d11 d22 by simp
qed

theorem from_3_points_frame_witness:
  "shape pts2 = [2] @ [3] \<and> shape origin2 = [2] @ [3] \<and> shape plane2 = [2] @ [3] \<and>
   (\<exists>t. from_3_points pts2 origin2 plane2 0 = Inr t \<and> batch t = [2] \<and>
      elem (transl t) [1, 0] = 0 \<and>
      elem (rots t) [0, 0, 0] = - 1 \<and> elem (rots t) [0, 1, 1] = 1 \<and> elem (rots t) [0, 2, 2] = - 1 \<and>
      elem (rots t) [1, 1, 0] = - 1 \<and> elem (rots t) [1, 2, 1] = 1 \<and> elem (rots t) [1, 0, 2] = - 1)"
proof -
  have sh: "shape pts2 = [2] @ [3]" "shape origin2 = [2] @ [3]" "shape plane2 = [2] @ [3]"
    by (simp_all add: pts2_def origin2_def plane2_def tensor_of_def)
  from from_3_points_frame [OF sh, of 0] obtain t where
    t: "from_3_points pts2 origin2 plane2 0 = Inr t" "batch t = [2]"
      "\<And>b i. inb [2] b \<Longrightarrow> i < 3 \<Longrightarrow> elem (transl t) (b @ [i]) = elem origin2 (b @ [i])"
      "\<And>b i. inb [2] b \<Longrightarrow> i < 3 \<Longrightarrow>
        elem (rots t) (b @ [i, 0]) = frame_e0 (vec pts2 b) (vec origin2 b) 0 i \<and>
        elem (rots t) (b @ [i, 1]) = frame_e1 (vec pts2 b) (vec origin2 b) (vec plane2 b) 0 i \<and>
        elem (rots t) (b @ [i, 2]) = frame_e2 (vec pts2 b) (vec origin2 b) (vec plane2 b) 0 i"
    by blast
  have v: "vec pts2 [0] 0 = 1" "vec pts2 [0] 1 = 0" "vec pts2 [0] 2 = 0"
      "vec pts2 [1] 0 = 0" "vec pts2 [1] 1 = 1" "vec pts2 [1] 2 = 0"
      "vec origin2 [0] 0 = 0" "vec origin2 [0] 1 = 0" "vec origin2 [0] 2 = 0"
      "vec origin2 [1] 0 = 0" "vec origin2 [1] 1 = 0" "vec origin2 [1] 2 = 0"
      "vec plane2 [0] 0 = 0" "vec plane2 [0] 1 = 1" "vec plane2 [0] 2 = 0"
      "vec plane2 [1] 0 = 0" "vec plane2 [1] 1 = 0" "vec plane2 [1] 2 = 1"
    by (simp_all add: vec_def pts2_def origin2_def plane2_def elem_tensor_of ravel_def)
  have e0: "frame_e0 (vec pts2 [0]) (vec origin2 [0]) 0 0 = - 1"
      "frame_e0 (vec pts2 [0]) (vec origin2 [0]) 0 1 = 0"
      "frame_e0 (vec pts2 [0]) (vec origin2 [0]) 0 2 = 0"
      "frame_e0 (vec pts2 [1]) (vec origin2 [1]) 0 0 = 0"
      "frame_e0 (vec pts2 [1]) (vec origin2 [1]) 0 1 = - 1"
      "frame_e0 (vec pts2 [1]) (vec origin2 [1]) 0 2 = 0"
    by (simp_all add: frame_e0_def normalize_eps_def dot3_def v del: One_nat_def)
  have e1: "frame_e1 (vec pts2 [0]) (vec origin2 [0]) (vec plane2 [0]) 0 0 = 0"
      "frame_e1 (vec pts2 [0]) (vec origin2 [0]) (vec plane2 [0]) 0 1 = 1"
      "frame_e1 (vec pts2 [0]) (vec origin2 [0]) (vec plane2 [0]) 0 2 = 0"
      "frame_e1 (vec pts2 [1]) (vec origin2 [1]) (vec plane2 [1]) 0 0 = 0"
      "frame_e1 (vec pts2 [1]) (vec origin2 [1]) (vec plane2 [1]) 0 1 = 0"
      "frame_e1 (vec pts2 [1]) (vec origin2 [1]) (vec plane2 [1]) 0 2 = 1"
    by (simp_all add: frame_e1_def Let_def e0 normalize_eps_def dot3_def v del: One_nat_def)
  have e2: "frame_e2 (vec pts2 [0]) (vec origin2 [0]) (vec plane2 [0]) 0 2 = - 1"
      "frame_e2 (vec pts2 [1]) (vec origin2 [1]) (vec plane2 [1]) 0 0 = - 1"
    by (simp_all add: frame_e2_def cross3_def e0 e1 del: One_nat_def)
  have o: "elem origin2 [1, 0] = 0"
    by (simp add: origin2_def elem_tensor_of ravel_def)
  show ?thesis
    using sh t(1,2) t(3) [of "[1]" 0] t(4) [of "[0]" 0] t(4) [of "[0]" 1] t(4) [of "[0]" 2]
      t(4) [of "[1]" 1] t(4) [of "[1]" 2] t(4) [of "[1]" 0]
    by (simp add: e0 e1 e2 o del: One_nat_def)
qed

section \<open>The frame from reference backbone atoms\<close>

lemma ok_Inr: "shape t = s \<Longrightarrow> ok (Inr t) s"
  by (simp add: ok_def)

lemma ok_ew2: "ok a s \<Longrightarrow> ok b s \<Longrightarrow> ok (ew2 h a b) s"
  by (auto simp: ok_def ew2_def)

lemma ok_scalar_left: "ok a s \<Longrightarrow> ok (ew2 h (scalar k) a) s"
  by (auto simp: ok_def ew2_def scalar_def)

lemma ok_sqrt: "ok a s \<Longrightarrow> ok (torch_sqrt a) s"
  by (auto simp: ok_def torch_sqrt_def)

lemma ok_neg: "ok a s \<Longrightarrow> ok (tneg a) s"
  by (auto simp: ok_def tneg_def)

lemma ok_square: "ok a s \<Longrightarrow> ok (tsquare a) s"
  by (auto simp: ok_def tsquare_def)

lemma ok_sel1: "shape t = s @ [3] \<Longrightarrow> i < 3 \<Longrightarrow> ok (sel1 t i) s"
  by (simp add: ok_def sel1_def)

lemmas ok_arith = ok_ew2 [of _ _ _ "\<lambda>x y. x + y", folded tadd_def]
  ok_ew2 [of _ _ _ "\<lambda>x y. x * y", folded tmul_def]
  ok_ew2 [of _ _ _ "\<lambda>x y. x / y", folded tdiv_def]
  ok_scalar_left [of _ _ "\<lambda>x y. x + y", folded tadd_def]
  ok_scalar_left [of _ _ "\<lambda>x y. x * y", folded tmul_def]
  ok_sqrt ok_neg ok_square ok_Inr

lemma set2_ok:
  assumes "shape t = s @ [3, 3]" and "ok rv s" and "i < 3" and "j < 3"
  shows "\<exists>u. set2 t i j rv = Inr u \<and> shape u = s @ [3, 3] \<and>
     (\<forall>b k l. (k \<noteq> i \<or> l \<noteq> j) \<longrightarrow> elem u (b @ [k, l]) = elem t (b @ [k, l]))"
  using assms by (auto simp: ok_def set2_def butlast_append)

lemma set2_scalar_ok:
  assumes "shape t = s @ [3, 3]" and "i < 3" and "j < 3"
  shows "\<exists>u. set2 t i j (scalar c) = Inr u \<and> shape u = s @ [3, 3] \<and>
     (\<forall>b k l. (k \<noteq> i \<or> l \<noteq> j) \<longrightarrow> elem u (b @ [k, l]) = elem t (b @ [k, l]))"
  using assms by (auto simp: scalar_def set2_def butlast_append)

lemma ebind_ok:
  assumes "ok m s" and "\<And>v. m = Inr v \<Longrightarrow> shape v = s \<Longrightarrow> P (f v)"
  shows "P (ebind m f)"
  using assms by (auto simp: ok_def)

lemma gram_det:
  fixes a b c d e f g h k :: real
  shows "(a * (e * k - f * h) - b * (d * k - f * g) + c * (d * h - e * g))\<^sup>2 =
     (a * a + d * d + g * g) * ((b * b + e * e + h * h) * (c * c + f * f + k * k) - (b * c + e * f + h * k) * (b * c + e * f + h * k))
     - (a * b + d * e + g * h) * ((a * b + d * e + g * h) * (c * c + f * f + k * k) - (b * c + e * f + h * k) * (a * c + d * f + g * k))
     + (a * c + d * f + g * k) * ((a * b + d * e + g * h) * (b * c + e * f + h * k) - (b * b + e * e + h * h) * (a * c + d * f + g * k))"
  by (simp add: power2_eq_square algebra_simps)

lemma orthonormal_det:
  assumes "orthonormal_at r b"
  shows "(det3_at r b)\<^sup>2 = 1"
proof -
  note o = orthonormal_atD [OF assms]
  have g: "elem r (b @ [0, 0]) * elem r (b @ [0, 0]) + elem r (b @ [1, 0]) * elem r (b @ [1, 0]) + elem r (b @ [2, 0]) * elem r (b @ [2, 0]) = 1"
    "elem r (b @ [0, 1]) * elem r (b @ [0, 1]) + elem r (b @ [1, 1]) * elem r (b @ [1, 1]) + elem r (b @ [2, 1]) * elem r (b @ [2, 1]) = 1"
    "elem r (b @ [0, 2]) * elem r (b @ [0, 2]) + elem r (b @ [1, 2]) * elem r (b @ [1, 2]) + elem r (b @ [2, 2]) * elem r (b @ [2, 2]) = 1"
    "elem r (b @ [0, 0]) * elem r (b @ [0, 1]) + elem r (b @ [1, 0]) * elem r (b @ [1, 1]) + elem r (b @ [2, 0]) * elem r (b @ [2, 1]) = 0"
    "elem r (b @ [0, 0]) * elem r (b @ [0, 2]) + elem r (b @ [1, 0]) * elem r (b @ [1, 2]) + elem r (b @ [2, 0]) * elem r (b @ [2, 2]) = 0"
    "elem r (b @ [0, 1]) * elem r (b @ [0, 2]) + elem r (b @ [1, 1]) * elem r (b @ [1, 2]) + elem r (b @ [2, 1]) * elem r (b @ [2, 2]) = 0"
    using o [of 0 0] o [of 1 1] o [of 2 2] o [of 0 1] o [of 0 2] o [of 1 2]
    by (simp_all add: dot3_def del: One_nat_def)
  show ?thesis
    unfolding det3_at_def gram_det g by simp
qed

lemma ok_set2: "shape t = s @ [3, 3] \<Longrightarrow> ok rv s \<Longrightarrow> i < 3 \<Longrightarrow> j < 3 \<Longrightarrow> ok (set2 t i j rv) (s @ [3, 3])"
  using set2_ok [of t s rv i j] by (auto simp: ok_def)

lemma ok_set2_scalar: "shape t = s @ [3, 3] \<Longrightarrow> i < 3 \<Longrightarrow> j < 3 \<Longrightarrow> ok (set2 t i j (scalar c)) (s @ [3, 3])"
  using set2_scalar_ok [of t s i j c] by (auto simp: ok_def)

lemmas ok_rules = ok_set2_scalar ok_set2 ok_sel1 ok_arith

lemma det3_rank2:
  fixes m n c :: "nat \<Rightarrow> nat \<Rightarrow> real"
  assumes "\<And>i j. i < 3 \<Longrightarrow> j < 3 \<Longrightarrow> m i j = n i 0 * c 0 j + n i 1 * c 1 j"
  shows "m 0 0 * (m 1 1 * m 2 2 - m 2 1 * m 1 2) - m 1 0 * (m 0 1 * m 2 2 - m 2 1 * m 0 2)
       + m 2 0 * (m 0 1 * m 1 2 - m 1 1 * m 0 2) = 0"
  using assms [of 0 0] assms [of 0 1] assms [of 0 2] assms [of 1 0] assms [of 1 1] assms [of 1 2]
    assms [of 2 0] assms [of 2 1] assms [of 2 2]
  by (simp add: algebra_simps)

lemma make_transform_from_reference_ok:
  assumes n0: "shape n_xyz0 = bs @ [3]" and ca: "shape ca_xyz = bs @ [3]" and c0: "shape c_xyz0 = bs @ [3]"
  shows "\<exists>t. make_transform_from_reference n_xyz0 ca_xyz c_xyz0 eps = Inr t \<and> wf_T t \<and> batch t = bs \<and>
     (\<forall>b i. inb bs b \<longrightarrow> i < 3 \<longrightarrow> elem (transl t) (b @ [i]) = elem ca_xyz (b @ [i])) \<and>
     (\<forall>b. inb bs b \<longrightarrow> det3_at (rots t) b = 0)"
proof -
  have "tensor_is ca_xyz (bs @ [3]) (elem ca_xyz)"
    by (simp add: tensor_is_def ca)
  from ew2_is_scalar_left [OF this, of "\<lambda>x y. x * y" "- 1"] obtain translation where
    translation: "tmul (scalar (- 1)) (Inr ca_xyz) = Inr translation" "shape translation = bs @ [3]"
      "tensor_is translation (bs @ [3]) (\<lambda>idx. - 1 * elem ca_xyz idx)"
    unfolding tmul_def by (auto simp: tensor_is_def)
  have "ok (tadd (Inr n_xyz0) (Inr translation)) (bs @ [3])"
    by (intro ok_rules) (simp_all add: zeros_def n0 ca c0 translation(2))
  then obtain n_xyz1 where n_xyz1: "tadd (Inr n_xyz0) (Inr translation) = Inr n_xyz1" "shape n_xyz1 = bs @ [3]"
    unfolding ok_def by blast
  have "ok (tadd (Inr c_xyz0) (Inr translation)) (bs @ [3])"
    by (intro ok_rules) (simp_all add: zeros_def n0 ca c0 translation(2) n_xyz1(2))
  then obtain c_xyz where c_xyz: "tadd (Inr c_xyz0) (Inr translation) = Inr c_xyz" "shape c_xyz = bs @ [3]"
    unfolding ok_def by blast
  have "ok (sel1 c_xyz 0) (bs)"
    by (intro ok_rules) (simp_all add: zeros_def n0 ca c0 translation(2) n_xyz1(2) c_xyz(2))
  then obtain c_x where c_x: "sel1 c_xyz 0 = Inr c_x" "shape c_x = bs"
    unfolding ok_def by blast
  have "ok (sel1 c_xyz 1) (bs)"
    by (intro ok_rules) (simp_all add: zeros_def n0 ca c0 translation(2) n_xyz1(2) c_xyz(2) c_x(2))
  then obtain c_y where c_y: "sel1 c_xyz 1 = Inr c_y" "shape c_y = bs"
    unfolding ok_def by blast
  have "ok (sel1 c_xyz 2) (bs)"
    by (intro ok_rules) (simp_all add: zeros_def n0 ca c0 translation(2) n_xyz1(2) c_xyz(2) c_x(2) c_y(2))
  then obtain c_z where c_z: "sel1 c_xyz 2 = Inr c_z" "shape c_z = bs"
    unfolding ok_def by blast
  have "ok (torch_sqrt (tadd (tadd (scalar eps) (tsquare (Inr c_x))) (tsquare (Inr c_y)))) (bs)"
    by (intro ok_rules) (simp_all add: zeros_def n0 ca c0 translation(2) n_xyz1(2) c_xyz(2) c_x(2) c_y(2) c_z(2))
  then obtain norm1 where norm1: "torch_sqrt (tadd (tadd (scalar eps) (tsquare (Inr c_x))) (tsquare (Inr c_y))) = Inr norm1" "shape norm1 = bs"
    unfolding ok_def by blast
  have "ok (tdiv (tneg (Inr c_y)) (Inr norm1)) (bs)"
    by (intro ok_rules) (simp_all add: zeros_def n0 ca c0 translation(2) n_xyz1(2) c_xyz(2) c_x(2) c_y(2) c_z(2) norm1(2))
  then obtain sin_c1 where sin_c1: "tdiv (tneg (Inr c_y)) (Inr norm1) = Inr sin_c1" "shape sin_c1 = bs"
    unfolding ok_def by blast
  have "ok (tdiv (Inr c_x) (Inr norm1)) (bs)"
    by (intro ok_rules) (simp_all add: zeros_def n0 ca c0 translation(2) n_xyz1(2) c_xyz(2) c_x(2) c_y(2) c_z(2) norm1(2) sin_c1(2))
  then obtain cos_c1 where cos_c1: "tdiv (Inr c_x) (Inr norm1) = Inr cos_c1" "shape cos_c1 = bs"
    unfolding ok_def by blast
  have "ok (set2 (zeros (shape sin_c1 @ [3, 3])) 0 0 (Inr cos_c1)) (bs @ [3, 3])"
    by (intro ok_rules) (simp_all add: zeros_def n0 ca c0 translation(2) n_xyz1(2) c_xyz(2) c_x(2) c_y(2) c_z(2) norm1(2) sin_c1(2) cos_c1(2))
  then obtain c1_rots_a where c1_rots_a: "set2 (zeros (shape sin_c1 @ [3, 3])) 0 0 (Inr cos_c1) = Inr c1_rots_a" "shape c1_rots_a = bs @ [3, 3]"
    unfolding ok_def by blast
  have "ok (set2 c1_rots_a 0 1 (tmul (scalar (- 1)) (Inr sin_c1))) (bs @ [3, 3])"
    by (intro ok_rules) (simp_all add: zeros_def n0 ca c0 translation(2) n_xyz1(2) c_xyz(2) c_x(2) c_y(2) c_z(2) norm1(2) sin_c1(2) cos_c1(2) c1_rots_a(2))
  then obtain c1_rots_b where c1_rots_b: "set2 c1_rots_a 0 1 (tmul (scalar (- 1)) (Inr sin_c1)) = Inr c1_rots_b" "shape c1_rots_b = bs @ [3, 3]"
    unfolding ok_def by blast
  have "ok (set2 c1_rots_b 1 0 (Inr sin_c1)) (bs @ [3, 3])"
    by (intro ok_rules) (simp_all add: zeros_def n0 ca c0 translation(2) n_xyz1(2) c_xyz(2) c_x(2) c_y(2) c_z(2) norm1(2) sin_c1(2) cos_c1(2) c1_rots_a(2) c1_rots_b(2))
  then obtain c1_rots_c where c1_rots_c: "set2 c1_rots_b 1 0 (Inr sin_c1) = Inr c1_rots_c" "shape c1_rots_c = bs @ [3, 3]"
    unfolding ok_def by blast
  have "ok (set2 c1_rots_c 1 1 (Inr cos_c1)) (bs @ [3, 3])"
    by (intro ok_rules) (simp_all add: zeros_def n0 ca c0 translation(2) n_xyz1(2) c_xyz(2) c_x(2) c_y(2) c_z(2) norm1(2) sin_c1(2) cos_c1(2) c1_rots_a(2) c1_rots_b(2) c1_rots_c(2))
  then obtain c1_rots_d where c1_rots_d: "set2 c1_rots_c 1 1 (Inr cos_c1) = Inr c1_rots_d" "shape c1_rots_d = bs @ [3, 3]"
    unfolding ok_def by blast
  have "ok (set2 c1_rots_d 2 2 (scalar 1)) (bs @ [3, 3])"
    by (intro ok_rules) (simp_all add: zeros_def n0 ca c0 translation(2) n_xyz1(2) c_xyz(2) c_x(2) c_y(2) c_z(2) norm1(2) sin_c1(2) cos_c1(2) c1_rots_a(2) c1_rots_b(2) c1_rots_c(2) c1_rots_d(2))
  then obtain c1_rots_e where c1_rots_e: "set2 c1_rots_d 2 2 (scalar 1) = Inr c1_rots_e" "shape c1_rots_e = bs @ [3, 3]"
    unfolding ok_def by blast
  have "ok (torch_sqrt (tadd (tadd (tadd (scalar eps) (tsquare (Inr c_x))) (tsquare (Inr c_y))) (tsquare (Inr c_z)))) (bs)"
    by (intro ok_rules) (simp_all add: zeros_def n0 ca c0 translation(2) n_xyz1(2) c_xyz(2) c_x(2) c_y(2) c_z(2) norm1(2) sin_c1(2) cos_c1(2) c1_rots_a(2) c1_rots_b(2) c1_rots_c(2) c1_rots_d(2) c1_rots_e(2))
  then obtain norm2 where norm2: "torch_sqrt (tadd (tadd (tadd (scalar eps) (tsquare (Inr c_x))) (tsquare (Inr c_y))) (tsquare (Inr c_z))) = Inr norm2" "shape norm2 = bs"
    unfolding ok_def by blast
  have "ok (tdiv (Inr c_z) (Inr norm2)) (bs)"
    by (intro ok_rules) (simp_all add: zeros_def n0 ca c0 translation(2) n_xyz1(2) c_xyz(2) c_x(2) c_y(2) c_z(2) norm1(2) sin_c1(2) cos_c1(2) c1_rots_a(2) c1_rots_b(2) c1_rots_c(2) c1_rots_d(2) c1_rots_e(2) norm2(2))
  then obtain sin_c2 where sin_c2: "tdiv (Inr c_z) (Inr norm2) = Inr sin_c2" "shape sin_c2 = bs"
    unfolding ok_def by blast
  have "ok (tdiv (torch_sqrt (tadd (tsquare (Inr c_x)) (tsquare (Inr c_y)))) (Inr norm2)) (bs)"
    by (intro ok_rules) (simp_all add: zeros_def n0 ca c0 translation(2) n_xyz1(2) c_xyz(2) c_x(2) c_y(2) c_z(2) norm1(2) sin_c1(2) cos_c1(2) c1_rots_a(2) c1_rots_b(2) c1_rots_c(2) c1_rots_d(2) c1_rots_e(2) norm2(2) sin_c2(2))
  then obtain cos_c2 where cos_c2: "tdiv (torch_sqrt (tadd (tsquare (Inr c_x)) (tsquare (Inr c_y)))) (Inr norm2) = Inr cos_c2" "shape cos_c2 = bs"
    unfolding ok_def by blast
  have z: "shape (zeros (shape sin_c2 @ [3, 3])) = bs @ [3, 3]"
    by (simp add: zeros_def sin_c2(2))
  from set2_ok [OF z ok_Inr [OF cos_c2(2)], of 0 0] obtain c2_rots_a where
    c2_rots_a: "set2 (zeros (shape sin_c2 @ [3, 3])) 0 0 (Inr cos_c2) = Inr c2_rots_a"
      "shape c2_rots_a = bs @ [3, 3]"
      "\<And>b k l. k \<noteq> 0 \<or> l \<noteq> 0 \<Longrightarrow>
         elem c2_rots_a (b @ [k, l]) = elem (zeros (shape sin_c2 @ [3, 3])) (b @ [k, l])"
    by auto
  from set2_ok [OF c2_rots_a(2) ok_Inr [OF sin_c2(2)], of 0 2] obtain c2_rots_b where
    c2_rots_b: "set2 c2_rots_a 0 2 (Inr sin_c2) = Inr c2_rots_b" "shape c2_rots_b = bs @ [3, 3]"
      "\<And>b k l. k \<noteq> 0 \<or> l \<noteq> 2 \<Longrightarrow> elem c2_rots_b (b @ [k, l]) = elem c2_rots_a (b @ [k, l])"
    by auto
  from set2_scalar_ok [OF c2_rots_b(2), of 1 1 1] obtain c2_rots where
    c2_rots: "set2 c2_rots_b 1 1 (scalar 1) = Inr c2_rots" "shape c2_rots = bs @ [3, 3]"
      "\<And>b k l. k \<noteq> 1 \<or> l \<noteq> 1 \<Longrightarrow> elem c2_rots (b @ [k, l]) = elem c2_rots_b (b @ [k, l])"
    by auto
  have row: "elem c2_rots (b @ [2, l]) = 0" for b l
    by (simp add: c2_rots(3) c2_rots_b(3) c2_rots_a(3) zeros_def)
  have "ok (set2 c1_rots_e 2 0 (tmul (scalar (- 1)) (Inr sin_c2))) (bs @ [3, 3])"
    by (intro ok_rules) (simp_all add: zeros_def n0 ca c0 translation(2) n_xyz1(2) c_xyz(2) c_x(2) c_y(2) c_z(2) norm1(2) sin_c1(2) cos_c1(2) c1_rots_a(2) c1_rots_b(2) c1_rots_c(2) c1_rots_d(2) c1_rots_e(2) norm2(2) sin_c2(2) cos_c2(2) c2_rots_a(2) c2_rots_b(2) c2_rots(2))
  then obtain c1_rots_f where c1_rots_f: "set2 c1_rots_e 2 0 (tmul (scalar (- 1)) (Inr sin_c2)) = Inr c1_rots_f" "shape c1_rots_f = bs @ [3, 3]"
    unfolding ok_def by blast
  have "ok (set2 c1_rots_f 2 2 (Inr cos_c2)) (bs @ [3, 3])"
    by (intro ok_rules) (simp_all add: zeros_def n0 ca c0 translation(2) n_xyz1(2) c_xyz(2) c_x(2) c_y(2) c_z(2) norm1(2) sin_c1(2) cos_c1(2) c1_rots_a(2) c1_rots_b(2) c1_rots_c(2) c1_rots_d(2) c1_rots_e(2) norm2(2) sin_c2(2) cos_c2(2) c2_rots_a(2) c2_rots_b(2) c2_rots(2) c1_rots_f(2))
  then obtain c1_rots where c1_rots: "set2 c1_rots_f 2 2 (Inr cos_c2) = Inr c1_rots" "shape c1_rots = bs @ [3, 3]"
    unfolding ok_def by blast
  from rot_matmul_ok [OF c2_rots(2) c1_rots(2)] obtain c_rots where
    c_rots: "rot_matmul c2_rots c1_rots = Inr c_rots" "shape c_rots = bs @ [3, 3]"
      "\<And>idx i j. inb bs idx \<Longrightarrow> i < 3 \<Longrightarrow> j < 3 \<Longrightarrow> elem c_rots (idx @ [i, j]) =
          dot3 (\<lambda>k. elem c2_rots (idx @ [i, k])) (\<lambda>k. elem c1_rots (idx @ [k, j]))"
    by blast
  have crow: "elem c_rots (b @ [2, j]) = 0" if "inb bs b" "j < 3" for b j
    using that by (simp add: c_rots(3) row dot3_def)
  from rot_vec_mul_ok [OF c_rots(2) n_xyz1(2)] obtain n_xyz where
    n_xyz: "rot_vec_mul c_rots n_xyz1 = Inr n_xyz" "shape n_xyz = bs @ [3]"
    by blast
  have "ok (sel1 n_xyz 0) (bs)"
    by (intro ok_rules) (simp_all add: zeros_def n0 ca c0 translation(2) n_xyz1(2) c_xyz(2) c_x(2) c_y(2) c_z(2) norm1(2) sin_c1(2) cos_c1(2) c1_rots_a(2) c1_rots_b(2) c1_rots_c(2) c1_rots_d(2) c1_rots_e(2) norm2(2) sin_c2(2) cos_c2(2) c2_rots_a(2) c2_rots_b(2) c2_rots(2) c1_rots_f(2) c1_rots(2) c_rots(2) n_xyz(2))
  then obtain n_x where n_x: "sel1 n_xyz 0 = Inr n_x" "shape n_x = bs"
    unfolding ok_def by blast
  have "ok (sel1 n_xyz 1) (bs)"
    by (intro ok_rules) (simp_all add: zeros_def n0 ca c0 translation(2) n_xyz1(2) c_xyz(2) c_x(2) c_y(2) c_z(2) norm1(2) sin_c1(2) cos_c1(2) c1_rots_a(2) c1_rots_b(2) c1_rots_c(2) c1_rots_d(2) c1_rots_e(2) norm2(2) sin_c2(2) cos_c2(2) c2_rots_a(2) c2_rots_b(2) c2_rots(2) c1_rots_f(2) c1_rots(2) c_rots(2) n_xyz(2) n_x(2))
  then obtain n_y where n_y: "sel1 n_xyz 1 = Inr n_y" "shape n_y = bs"
    unfolding ok_def by blast
  have "ok (sel1 n_xyz 2) (bs)"
    by (intro ok_rules) (simp_all add: zeros_def n0 ca c0 translation(2) n_xyz1(2) c_xyz(2) c_x(2) c_y(2) c_z(2) norm1(2) sin_c1(2) cos_c1(2) c1_rots_a(2) c1_rots_b(2) c1_rots_c(2) c1_rots_d(2) c1_rots_e(2) norm2(2) sin_c2(2) cos_c2(2) c2_rots_a(2) c2_rots_b(2) c2_rots(2) c1_rots_f(2) c1_rots(2) c_rots(2) n_xyz(2) n_x(2) n_y(2))
  then obtain n_z where n_z: "sel1 n_xyz 2 = Inr n_z" "shape n_z = bs"
    unfolding ok_def by blast
  have "ok (torch_sqrt (tadd (tadd (scalar eps) (tsquare (Inr n_y))) (tsquare (Inr n_z)))) (bs)"
    by (intro ok_rules) (simp_all add: zeros_def n0 ca c0 translation(2) n_xyz1(2) c_xyz(2) c_x(2) c_y(2) c_z(2) norm1(2) sin_c1(2) cos_c1(2) c1_rots_a(2) c1_rots_b(2) c1_rots_c(2) c1_rots_d(2) c1_rots_e(2) norm2(2) sin_c2(2) cos_c2(2) c2_rots_a(2) c2_rots_b(2) c2_rots(2) c1_rots_f(2) c1_rots(2) c_rots(2) n_xyz(2) n_x(2) n_y(2) n_z(2))
  then obtain norm3 where norm3: "torch_sqrt (tadd (tadd (scalar eps) (tsquare (Inr n_y))) (tsquare (Inr n_z))) = Inr norm3" "shape norm3 = bs"
    unfolding ok_def by blast
  have "ok (tdiv (tneg (Inr n_z)) (Inr norm3)) (bs)"
    by (intro ok_rules) (simp_all add: zeros_def n0 ca c0 translation(2) n_xyz1(2) c_xyz(2) c_x(2) c_y(2) c_z(2) norm1(2) sin_c1(2) cos_c1(2) c1_rots_a(2) c1_rots_b(2) c1_rots_c(2) c1_rots_d(2) c1_rots_e(2) norm2(2) sin_c2(2) cos_c2(2) c2_rots_a(2) c2_rots_b(2) c2_rots(2) c1_rots_f(2) c1_rots(2) c_rots(2) n_xyz(2) n_x(2) n_y(2) n_z(2) norm3(2))
  then obtain sin_n where sin_n: "tdiv (tneg (Inr n_z)) (Inr norm3) = Inr sin_n" "shape sin_n = bs"
    unfolding ok_def by blast
  have "ok (tdiv (Inr n_y) (Inr norm3)) (bs)"
    by (intro ok_rules) (simp_all add: zeros_def n0 ca c0 translation(2) n_xyz1(2) c_xyz(2) c_x(2) c_y(2) c_z(2) norm1(2) sin_c1(2) cos_c1(2) c1_rots_a(2) c1_rots_b(2) c1_rots_c(2) c1_rots_d(2) c1_rots_e(2) norm2(2) sin_c2(2) cos_c2(2) c2_rots_a(2) c2_rots_b(2) c2_rots(2) c1_rots_f(2) c1_rots(2) c_rots(2) n_xyz(2) n_x(2) n_y(2) n_z(2) norm3(2) sin_n(2))
  then obtain cos_n where cos_n: "tdiv (Inr n_y) (Inr norm3) = Inr cos_n" "shape cos_n = bs"
    unfolding ok_def by blast
  have "ok (set2 (zeros (shape sin_c2 @ [3, 3])) 0 0 (scalar 1)) (bs @ [3, 3])"
    by (intro ok_rules) (simp_all add: zeros_def n0 ca c0 translation(2) n_xyz1(2) c_xyz(2) c_x(2) c_y(2) c_z(2) norm1(2) sin_c1(2) cos_c1(2) c1_rots_a(2) c1_rots_b(2) c1_rots_c(2) c1_rots_d(2) c1_rots_e(2) norm2(2) sin_c2(2) cos_c2(2) c2_rots_a(2) c2_rots_b(2) c2_rots(2) c1_rots_f(2) c1_rots(2) c_rots(2) n_xyz(2) n_x(2) n_y(2) n_z(2) norm3(2) sin_n(2) cos_n(2))
  then obtain n_rots_a where n_rots_a: "set2 (zeros (shape sin_c2 @ [3, 3])) 0 0 (scalar 1) = Inr n_rots_a" "shape n_rots_a = bs @ [3, 3]"
    unfolding ok_def by blast
  have "ok (set2 n_rots_a 1 1 (Inr cos_n)) (bs @ [3, 3])"
    by (intro ok_rules) (simp_all add: zeros_def n0 ca c0 translation(2) n_xyz1(2) c_xyz(2) c_x(2) c_y(2) c_z(2) norm1(2) sin_c1(2) cos_c1(2) c1_rots_a(2) c1_rots_b(2) c1_rots_c(2) c1_rots_d(2) c1_rots_e(2) norm2(2) sin_c2(2) cos_c2(2) c2_rots_a(2) c2_rots_b(2) c2_rots(2) c1_rots_f(2) c1_rots(2) c_rots(2) n_xyz(2) n_x(2) n_y(2) n_z(2) norm3(2) sin_n(2) cos_n(2) n_rots_a(2))
  then obtain n_rots_b where n_rots_b: "set2 n_rots_a 1 1 (Inr cos_n) = Inr n_rots_b" "shape n_rots_b = bs @ [3, 3]"
    unfolding ok_def by blast
  have "ok (set2 n_rots_b 1 2 (tmul (scalar (- 1)) (Inr sin_n))) (bs @ [3, 3])"
    by (intro ok_rules) (simp_all add: zeros_def n0 ca c0 translation(2) n_xyz1(2) c_xyz(2) c_x(2) c_y(2) c_z(2) norm1(2) sin_c1(2) cos_c1(2) c1_rots_a(2) c1_rots_b(2) c1_rots_c(2) c1_rots_d(2) c1_rots_e(2) norm2(2) sin_c2(2) cos_c2(2) c2_rots_a(2) c2_rots_b(2) c2_rots(2) c1_rots_f(2) c1_rots(2) c_rots(2) n_xyz(2) n_x(2) n_y(2) n_z(2) norm3(2) sin_n(2) cos_n(2) n_rots_a(2) n_rots_b(2))
  then obtain n_rots_c where n_rots_c: "set2 n_rots_b 1 2 (tmul (scalar (- 1)) (Inr sin_n)) = Inr n_rots_c" "shape n_rots_c = bs @ [3, 3]"
    unfolding ok_def by blast
  have "ok (set2 n_rots_c 2 1 (Inr sin_n)) (bs @ [3, 3])"
    by (intro ok_rules) (simp_all add: zeros_def n0 ca c0 translation(2) n_xyz1(2) c_xyz(2) c_x(2) c_y(2) c_z(2) norm1(2) sin_c1(2) cos_c1(2) c1_rots_a(2) c1_rots_b(2) c1_rots_c(2) c1_rots_d(2) c1_rots_e(2) norm2(2) sin_c2(2) cos_c2(2) c2_rots_a(2) c2_rots_b(2) c2_rots(2) c1_rots_f(2) c1_rots(2) c_rots(2) n_xyz(2) n_x(2) n_y(2) n_z(2) norm3(2) sin_n(2) cos_n(2) n_rots_a(2) n_rots_b(2) n_rots_c(2))
  then obtain n_rots_d where n_rots_d: "set2 n_rots_c 2 1 (Inr sin_n) = Inr n_rots_d" "shape n_rots_d = bs @ [3, 3]"
    unfolding ok_def by blast
  have "ok (set2 n_rots_d 2 2 (Inr cos_n)) (bs @ [3, 3])"
    by (intro ok_rules) (simp_all add: zeros_def n0 ca c0 translation(2) n_xyz1(2) c_xyz(2) c_x(2) c_y(2) c_z(2) norm1(2) sin_c1(2) cos_c1(2) c1_rots_a(2) c1_rots_b(2) c1_rots_c(2) c1_rots_d(2) c1_rots_e(2) norm2(2) sin_c2(2) cos_c2(2) c2_rots_a(2) c2_rots_b(2) c2_rots(2) c1_rots_f(2) c1_rots(2) c_rots(2) n_xyz(2) n_x(2) n_y(2) n_z(2) norm3(2) sin_n(2) cos_n(2) n_rots_a(2) n_rots_b(2) n_rots_c(2) n_rots_d(2))
  then obtain n_rots where n_rots: "set2 n_rots_d 2 2 (Inr cos_n) = Inr n_rots" "shape n_rots = bs @ [3, 3]"
    unfolding ok_def by blast
  from rot_matmul_ok [OF n_rots(2) c_rots(2)] obtain rots0 where
    rots0: "rot_matmul n_rots c_rots = Inr rots0" "shape rots0 = bs @ [3, 3]"
      "\<And>idx i j. inb bs idx \<Longrightarrow> i < 3 \<Longrightarrow> j < 3 \<Longrightarrow> elem rots0 (idx @ [i, j]) =
          dot3 (\<lambda>k. elem n_rots (idx @ [i, k])) (\<lambda>k. elem c_rots (idx @ [k, j]))"
    by blast
  let ?rots1 = "\<lparr>shape = bs @ [3, 3],
      elem = \<lambda>idx. elem rots0 (butlast (butlast idx) @ [last idx, last (butlast idx)])\<rparr>"
  have rots1: "transpose_last2 rots0 = Inr ?rots1"
    using transpose_last2_ok [OF rots0(2)] by simp
  from ew2_is_scalar_left [OF translation(3), of "\<lambda>x y. x * y" "- 1"] obtain translation1 where
    translation1: "tmul (scalar (- 1)) (Inr translation) = Inr translation1"
      "shape translation1 = bs @ [3]"
      "\<And>idx. inb (bs @ [3]) idx \<Longrightarrow> elem translation1 idx = elem ca_xyz idx"
    unfolding tmul_def by (auto simp: tensor_is_def)
  have res: "make_transform_from_reference n_xyz0 ca_xyz c_xyz0 eps = Inr \<lparr>rots = ?rots1, transl = translation1\<rparr>"
    unfolding make_transform_from_reference_def
    by (simp only: translation(1) n_xyz1(1) c_xyz(1) c_x(1) c_y(1) c_z(1) norm1(1) sin_c1(1) cos_c1(1) c1_rots_a(1) c1_rots_b(1) c1_rots_c(1) c1_rots_d(1) c1_rots_e(1) norm2(1) sin_c2(1) cos_c2(1) c2_rots_a(1) c2_rots_b(1) c2_rots(1) c1_rots_f(1) c1_rots(1) c_rots(1) n_xyz(1) n_x(1) n_y(1) n_z(1) norm3(1) sin_n(1) cos_n(1) n_rots_a(1) n_rots_b(1) n_rots_c(1) n_rots_d(1) n_rots(1) rots0(1) rots1 translation1(1) ebind_Inr
        T_init_ok [of ?rots1 bs translation1, OF _ translation1(2), simplified])
  have w: "wf_T \<lparr>rots = ?rots1, transl = translation1\<rparr> \<and> batch \<lparr>rots = ?rots1, transl = translation1\<rparr> = bs"
    by (rule wf_T_I) (simp_all add: translation1(2))
  have d: "det3_at ?rots1 b = 0" if b: "inb bs b" for b
  proof -
    have m: "elem rots0 (b @ [i, j]) = elem n_rots (b @ [i, 0]) * elem c_rots (b @ [0, j])
        + elem n_rots (b @ [i, 1]) * elem c_rots (b @ [1, j])" if "i < 3" "j < 3" for i j
      using that b by (simp add: rots0(3) dot3_def crow del: One_nat_def)
    from det3_rank2 [of "\<lambda>i j. elem rots0 (b @ [i, j])" "\<lambda>i k. elem n_rots (b @ [i, k])"
        "\<lambda>k j. elem c_rots (b @ [k, j])", OF m]
    show ?thesis
      by (simp add: det3_at_def del: One_nat_def)
  qed
  show ?thesis
    unfolding res using w d by (simp add: translation1(3))
qed

text \<open>
  C3, for \<open>make_transform_from_reference\<close>. On backbone coordinates of a common shape
  \<open>bs @ [3]\<close> the routine returns a well-formed transformation whose translation is the
  alpha carbon, but whose rotation has determinant 0 at every batch index and is therefore
  not orthonormal: \<open>c2_rots\<close> keeps a zero third row, because the assignments meant for it
  go to \<open>c1_rots\<close>.
\<close>

theorem make_transform_from_reference_singular:
  assumes "shape n_xyz0 = bs @ [3]" and "shape ca_xyz = bs @ [3]" and "shape c_xyz0 = bs @ [3]"
  shows "\<exists>t. make_transform_from_reference n_xyz0 ca_xyz c_xyz0 eps = Inr t \<and> wf_T t \<and> batch t = bs \<and>
     (\<forall>b i. inb bs b \<longrightarrow> i < 3 \<longrightarrow> elem (transl t) (b @ [i]) = elem ca_xyz (b @ [i])) \<and>
     (\<forall>b. inb bs b \<longrightarrow> det3_at (rots t) b = 0 \<and> \<not> orthonormal_at (rots t) b)"
proof -
  from make_transform_from_reference_ok [OF assms, of eps] obtain t where
    t: "make_transform_from_reference n_xyz0 ca_xyz c_xyz0 eps = Inr t" "wf_T t" "batch t = bs"
      "\<And>b i. inb bs b \<Longrightarrow> i < 3 \<Longrightarrow> elem (transl t) (b @ [i]) = elem ca_xyz (b @ [i])"
      "\<And>b. inb bs b \<Longrightarrow> det3_at (rots t) b = 0"
    by blast
  have "\<not> orthonormal_at (rots t) b" if "inb bs b" for b
  proof
    assume "orthonormal_at (rots t) b"
    from orthonormal_det [OF this] t(5) [OF that] show False by simp
  qed
  with t show ?thesis by auto
qed

theorem make_transform_from_reference_singular_witness:
  "shape atom_n = [] @ [3] \<and> shape atom_ca = [] @ [3] \<and> shape atom_c = [] @ [3] \<and>
   (\<exists>t. make_transform_from_reference atom_n atom_ca atom_c eps_reference = Inr t \<and>
      batch t = [] \<and> det3_at (rots t) [] = 0 \<and> \<not> orthonormal_at (rots t) [])"
proof -
  have sh: "shape atom_n = [] @ [3]" "shape atom_ca = [] @ [3]" "shape atom_c = [] @ [3]"
    by (simp_all add: atom_n_def atom_ca_def atom_c_def tensor_of_def)
  from make_transform_from_reference_singular [OF sh, of eps_reference] show ?thesis
    using sh by auto
qed

section \<open>Errors\<close>












section \<open>Axis-angle vectors and quaternions\<close>




lemma norm3_zero: "norm3 (x, y, z) = 0 \<Longrightarrow> x = 0 \<and> y = 0 \<and> z = 0"
proof -
  assume "norm3 (x, y, z) = 0"
  then have "x * x + y * y + z * z = 0" by (simp add: norm3_def)
  moreover have "0 \<le> x * x" "0 \<le> y * y" "0 \<le> z * z" by simp_all
  ultimately have "x * x = 0" "y * y = 0" "z * z = 0" by linarith+
  then show ?thesis by simp
qed







end
